(* ===== verification/Prelude.thy ===== *)
theory Prelude
  imports Main "HOL-Library.Multiset" "HOL-Library.Char_ord" "HOL-Library.List_Lexorder" "HOL-Library.Code_Target_Nat"
begin

text \<open>
  The shared base of the development: what the modelled Rust code uses of the language's
  standard library, and the generic lemmas about it.

  Text. A Rust \<open>str\<close> is modelled as the list of its bytes (\<open>string\<close>, one \<open>char\<close> per
  byte), so \<open>length\<close> is Rust's \<open>str::len\<close> and the order on strings is \<open>str\<close>'s
  bytewise order. Character classes are the ASCII ones; white space beyond ASCII
  (for instance U+00A0), which \<open>str::trim\<close> also removes, is outside the model.

  Errors. \<open>Result\<close> is a sum with the error on the left, \<open>Option\<close> is \<open>option\<close>.

  Integers. An unsigned integer the code cannot overflow is a \<open>nat\<close>; where it can,
  the model checks the bound where the code does (\<open>checked_add\<close>, \<open>checked_mul\<close>,
  \<open>parse\<close>), and names the bound \<open>u64_max\<close> and so on.

  The named collection \<open>rust_std\<close> holds the defining equations of these helpers, so
  that \<open>simp add: rust_std\<close> evaluates them on concrete input.
\<close>

named_theorems rust_std \<open>equations of the modelled standard library\<close>

section \<open>Errors\<close>

definition bind_r :: "'e + 'a \<Rightarrow> ('a \<Rightarrow> 'e + 'b) \<Rightarrow> 'e + 'b" where
  "bind_r r k = (case r of Inl e \<Rightarrow> Inl e | Inr a \<Rightarrow> k a)"

lemma bind_r_simps [simp]:
  "bind_r (Inl e) k = Inl e"
  "bind_r (Inr a) k = k a"
  by (simp_all add: bind_r_def)

lemma bind_r_eq_Inr [simp]:
  "bind_r r k = Inr b \<longleftrightarrow> (\<exists>a. r = Inr a \<and> k a = Inr b)"
  by (cases r) auto

definition ok_or :: "'e \<Rightarrow> 'a option \<Rightarrow> 'e + 'a" where
  "ok_or e m = (case m of None \<Rightarrow> Inl e | Some a \<Rightarrow> Inr a)"

lemma ok_or_simps [simp]:
  "ok_or e None = Inl e"
  "ok_or e (Some a) = Inr a"
  by (simp_all add: ok_or_def)

lemma ok_or_eq_Inr [simp]: "ok_or e m = Inr a \<longleftrightarrow> m = Some a"
  by (cases m) auto

lemma ok_or_eq_Inl [simp]: "ok_or e m = Inl e' \<longleftrightarrow> m = None \<and> e' = e"
  by (cases m) auto

text \<open>\<open>Result::map_err\<close>: an error of a component becomes an error of its caller.\<close>

definition lift_err :: "('e \<Rightarrow> 'f) \<Rightarrow> 'e + 'a \<Rightarrow> 'f + 'a" where
  "lift_err f r = (case r of Inl e \<Rightarrow> Inl (f e) | Inr a \<Rightarrow> Inr a)"

lemma lift_err_simps [simp]:
  "lift_err f (Inl e) = Inl (f e)"
  "lift_err f (Inr a) = Inr a"
  by (simp_all add: lift_err_def)

lemma lift_err_eq_Inr [simp]: "lift_err f r = Inr a \<longleftrightarrow> r = Inr a"
  by (cases r) auto

fun map_r :: "('a \<Rightarrow> 'e + 'b) \<Rightarrow> 'a list \<Rightarrow> 'e + 'b list" where
  "map_r f [] = Inr []"
| "map_r f (x # xs) = bind_r (f x) (\<lambda>y. bind_r (map_r f xs) (\<lambda>ys. Inr (y # ys)))"

lemma map_r_Inr_iff: "map_r f xs = Inr ys \<longleftrightarrow> list_all2 (\<lambda>x y. f x = Inr y) xs ys"
  by (induction xs arbitrary: ys) (auto simp: list_all2_Cons1)

section \<open>Integer bounds\<close>

definition u8_max :: nat where "u8_max = 2 ^ 8 - 1"
definition u16_max :: nat where "u16_max = 2 ^ 16 - 1"
definition u32_max :: nat where "u32_max = 2 ^ 32 - 1"
definition u64_max :: nat where "u64_max = 2 ^ 64 - 1"

lemma max_values [rust_std]:
  "u8_max = 255"
  "u16_max = 65535"
  "u32_max = 4294967295"
  "u64_max = 18446744073709551615"
  by (simp_all add: u8_max_def u16_max_def u32_max_def u64_max_def)

definition checked_add :: "nat \<Rightarrow> nat \<Rightarrow> nat \<Rightarrow> nat option" where
  "checked_add mx a b = (if a + b \<le> mx then Some (a + b) else None)"

definition checked_mul :: "nat \<Rightarrow> nat \<Rightarrow> nat \<Rightarrow> nat option" where
  "checked_mul mx a b = (if a * b \<le> mx then Some (a * b) else None)"

definition checked_sub :: "nat \<Rightarrow> nat \<Rightarrow> nat option" where
  "checked_sub a b = (if b \<le> a then Some (a - b) else None)"

lemma checked_eq_Some [simp]:
  "checked_add mx a b = Some c \<longleftrightarrow> a + b \<le> mx \<and> c = a + b"
  "checked_mul mx a b = Some c \<longleftrightarrow> a * b \<le> mx \<and> c = a * b"
  "checked_sub a b = Some c \<longleftrightarrow> b \<le> a \<and> c = a - b"
  by (auto simp: checked_add_def checked_mul_def checked_sub_def)

lemma checked_eq_None [simp]:
  "checked_add mx a b = None \<longleftrightarrow> mx < a + b"
  "checked_mul mx a b = None \<longleftrightarrow> mx < a * b"
  "checked_sub a b = None \<longleftrightarrow> a < b"
  by (auto simp: checked_add_def checked_mul_def checked_sub_def)

section \<open>Characters\<close>

definition is_digit :: "char \<Rightarrow> bool" where
  "is_digit c \<longleftrightarrow> 48 \<le> (of_char c :: nat) \<and> (of_char c :: nat) \<le> 57"

definition is_lower :: "char \<Rightarrow> bool" where
  "is_lower c \<longleftrightarrow> 97 \<le> (of_char c :: nat) \<and> (of_char c :: nat) \<le> 122"

definition is_upper :: "char \<Rightarrow> bool" where
  "is_upper c \<longleftrightarrow> 65 \<le> (of_char c :: nat) \<and> (of_char c :: nat) \<le> 90"

definition is_alpha :: "char \<Rightarrow> bool" where
  "is_alpha c \<longleftrightarrow> is_lower c \<or> is_upper c"

definition is_alnum :: "char \<Rightarrow> bool" where
  "is_alnum c \<longleftrightarrow> is_digit c \<or> is_alpha c"

definition is_ws :: "char \<Rightarrow> bool" where
  "is_ws c \<longleftrightarrow> (9 \<le> (of_char c :: nat) \<and> (of_char c :: nat) \<le> 13) \<or> (of_char c :: nat) = 32"

definition is_control :: "char \<Rightarrow> bool" where
  "is_control c \<longleftrightarrow> (of_char c :: nat) < 32 \<or> (of_char c :: nat) = 127"

definition is_graphic :: "char \<Rightarrow> bool" where
  "is_graphic c \<longleftrightarrow> 33 \<le> (of_char c :: nat) \<and> (of_char c :: nat) \<le> 126"

definition is_hexdigit :: "char \<Rightarrow> bool" where
  "is_hexdigit c \<longleftrightarrow> is_digit c
     \<or> (97 \<le> (of_char c :: nat) \<and> (of_char c :: nat) \<le> 102)
     \<or> (65 \<le> (of_char c :: nat) \<and> (of_char c :: nat) \<le> 70)"

definition to_lower :: "char \<Rightarrow> char" where
  "to_lower c = (if is_upper c then char_of ((of_char c :: nat) + 32) else c)"

lemmas char_class_defs [rust_std] =
  is_digit_def is_lower_def is_upper_def is_alpha_def is_alnum_def is_ws_def is_control_def
  is_graphic_def is_hexdigit_def to_lower_def

definition digit_val :: "char \<Rightarrow> nat" where
  "digit_val c = of_char c - 48"

definition digit_char :: "nat \<Rightarrow> char" where
  "digit_char d = char_of (48 + d)"

lemma of_digit_char: "d < 10 \<Longrightarrow> (of_char (digit_char d) :: nat) = 48 + d"
  by (simp add: digit_char_def)

lemma is_digit_digit_char [simp]: "d < 10 \<Longrightarrow> is_digit (digit_char d)"
  by (simp add: is_digit_def of_digit_char)

lemma digit_val_digit_char [simp]: "d < 10 \<Longrightarrow> digit_val (digit_char d) = d"
  by (simp add: digit_val_def of_digit_char)

lemma digit_val_less: "is_digit c \<Longrightarrow> digit_val c < 10"
  by (auto simp: digit_val_def is_digit_def)

lemma digit_not_ws: "is_digit c \<Longrightarrow> \<not> is_ws c"
  by (simp add: is_digit_def is_ws_def)

lemma digit_char_digit_val [simp]: "is_digit c \<Longrightarrow> digit_char (digit_val c) = c"
  by (simp add: digit_char_def digit_val_def is_digit_def)

lemma digit_val_inj: "is_digit c \<Longrightarrow> is_digit d \<Longrightarrow> digit_val c = digit_val d \<Longrightarrow> c = d"
  by (metis digit_char_digit_val)

section \<open>Comparison\<close>

text \<open>\<open>std::cmp::Ordering\<close>, \<open>Ord::cmp\<close> on a linear order, \<open>Ordering::then\<close> and
  \<open>Ordering::reverse\<close>.\<close>

datatype Ordering = Less | Equal | Greater

definition cmp :: "'a::linorder \<Rightarrow> 'a \<Rightarrow> Ordering" where
  "cmp a b = (if a < b then Less else if a = b then Equal else Greater)"

fun and_then :: "Ordering \<Rightarrow> Ordering \<Rightarrow> Ordering" where
  "and_then Equal r = r"
| "and_then Less r = Less"
| "and_then Greater r = Greater"

fun reverse_ord :: "Ordering \<Rightarrow> Ordering" where
  "reverse_ord Less = Greater"
| "reverse_ord Equal = Equal"
| "reverse_ord Greater = Less"

lemma cmp_iff [simp]:
  "cmp a b = Less \<longleftrightarrow> a < b"
  "cmp a b = Equal \<longleftrightarrow> a = b"
  "cmp a b = Greater \<longleftrightarrow> b < a"
  by (auto simp: cmp_def)

lemma cmp_refl [simp]: "cmp a a = Equal"
  by (simp add: cmp_def)

lemma cmp_reverse: "cmp b a = reverse_ord (cmp a b)"
  by (auto simp: cmp_def)

lemma and_then_Equal_right [simp]: "and_then r Equal = r"
  by (cases r) simp_all

lemma and_then_eq_Equal [simp]: "and_then r s = Equal \<longleftrightarrow> r = Equal \<and> s = Equal"
  by (cases r) simp_all

lemma foldr_id [simp]: "foldr (\<lambda>i r. r) xs z = z"
  by (induction xs) simp_all

lemma and_then_reverse: "reverse_ord (and_then r s) = and_then (reverse_ord r) (reverse_ord s)"
  by (cases r) simp_all

lemma case_Ordering_and_then [simp]: "case_Ordering Less s Greater r = and_then r s"
  by (cases r) simp_all

lemma reverse_ord_reverse_ord [simp]: "reverse_ord (reverse_ord r) = r"
  by (cases r) simp_all

lemma reverse_ord_eq [simp]:
  "reverse_ord r = Less \<longleftrightarrow> r = Greater"
  "reverse_ord r = Equal \<longleftrightarrow> r = Equal"
  "reverse_ord r = Greater \<longleftrightarrow> r = Less"
  by (cases r; simp)+

text \<open>
  The contract of a comparison function handed to \<open>sort_by\<close>: a total preorder, written
  over the three results. \<open>sort_by\<close> is a stable sort; the model inserts from the right,
  each element before the ones it compares equal to.
\<close>

locale comparator =
  fixes compare :: "'a \<Rightarrow> 'a \<Rightarrow> Ordering"
  assumes compare_refl: "compare a a = Equal"
    and compare_less_iff: "compare a b = Less \<longleftrightarrow> compare b a = Greater"
    and compare_trans: "compare a b \<noteq> Greater \<Longrightarrow> compare b c \<noteq> Greater \<Longrightarrow> compare a c \<noteq> Greater"
begin

lemma compare_total: "compare a b \<noteq> Greater \<or> compare b a \<noteq> Greater"
  using compare_less_iff by force

lemma compare_equal_sym: "compare a b = Equal \<Longrightarrow> compare b a = Equal"
  using compare_less_iff by (metis Ordering.exhaust Ordering.distinct(1,5))

lemma compare_reverse: "compare b a = reverse_ord (compare a b)"
  using compare_less_iff [of a b] compare_less_iff [of b a] compare_equal_sym [of a b]
  by (cases "compare a b") simp_all

lemma compare_less_trans: "compare a b = Less \<Longrightarrow> compare b c \<noteq> Greater \<Longrightarrow> compare a c = Less"
  by (metis Ordering.exhaust compare_equal_sym compare_less_iff compare_trans Ordering.distinct(3,5))

lemma compare_less_trans': "compare a b \<noteq> Greater \<Longrightarrow> compare b c = Less \<Longrightarrow> compare a c = Less"
  by (metis Ordering.exhaust compare_equal_sym compare_less_iff compare_trans Ordering.distinct(3,5))

lemma compare_equal_trans: "compare a b = Equal \<Longrightarrow> compare b c = Equal \<Longrightarrow> compare a c = Equal"
  by (metis Ordering.exhaust compare_equal_sym compare_less_iff compare_trans Ordering.distinct(3,5))

end

fun insort_cmp :: "('a \<Rightarrow> 'a \<Rightarrow> Ordering) \<Rightarrow> 'a \<Rightarrow> 'a list \<Rightarrow> 'a list" where
  "insort_cmp c x [] = [x]"
| "insort_cmp c x (y # ys) = (if c x y = Greater then y # insort_cmp c x ys else x # y # ys)"

fun sort_by :: "('a \<Rightarrow> 'a \<Rightarrow> Ordering) \<Rightarrow> 'a list \<Rightarrow> 'a list" where
  "sort_by c [] = []"
| "sort_by c (x # xs) = insort_cmp c x (sort_by c xs)"

definition sorted_cmp :: "('a \<Rightarrow> 'a \<Rightarrow> Ordering) \<Rightarrow> 'a list \<Rightarrow> bool" where
  "sorted_cmp c = sorted_wrt (\<lambda>a b. c a b \<noteq> Greater)"

lemma mset_insort_cmp [simp]: "mset (insort_cmp c x xs) = add_mset x (mset xs)"
  by (induction xs) simp_all

lemma mset_sort_by [simp]: "mset (sort_by c xs) = mset xs"
  by (induction xs) simp_all

lemma set_insort_cmp [simp]: "set (insort_cmp c x xs) = insert x (set xs)"
  by (induction xs) auto

lemma set_sort_by [simp]: "set (sort_by c xs) = set xs"
  by (induction xs) simp_all

lemma length_insort_cmp [simp]: "length (insort_cmp c x xs) = Suc (length xs)"
  by (induction xs) simp_all

lemma length_sort_by [simp]: "length (sort_by c xs) = length xs"
  by (induction xs) simp_all

context comparator
begin

lemma sorted_insort_cmp: "sorted_cmp compare xs \<Longrightarrow> sorted_cmp compare (insort_cmp compare x xs)"
proof (induction xs)
  case Nil
  then show ?case by (simp add: sorted_cmp_def)
next
  case (Cons y ys)
  then show ?case
    using compare_less_iff [of y x] compare_trans [of x y] by (auto simp: sorted_cmp_def)
qed

lemma sorted_sort_by: "sorted_cmp compare (sort_by compare xs)"
  by (induction xs) (simp_all add: sorted_insort_cmp, simp add: sorted_cmp_def)

end

lemma comparator_cmp: "comparator (cmp :: 'a::linorder \<Rightarrow> 'a \<Rightarrow> Ordering)"
  by unfold_locales (auto simp: not_less)

interpretation ord_cmp: comparator "cmp :: 'a::linorder \<Rightarrow> 'a \<Rightarrow> Ordering"
  by (rule comparator_cmp)

text \<open>Comparing by a key first and by another comparison where the keys are equal keeps
  the contract, so composed comparisons need no new proof.\<close>

lemma comparator_key:
  fixes f :: "'a \<Rightarrow> 'k::linorder"
  shows "comparator (\<lambda>a b. cmp (f a) (f b))"
  by unfold_locales (auto simp: not_less)

lemma comparator_on_key: "comparator c \<Longrightarrow> comparator (\<lambda>a b. c (f a) (f b))"
  unfolding comparator_def by blast

lemma comparator_flip: "comparator c \<Longrightarrow> comparator (\<lambda>a b. c b a)"
  unfolding comparator_def by blast

lemma comparator_then:
  assumes c: "comparator c" and d: "comparator d"
  shows "comparator (\<lambda>a b. and_then (c a b) (d a b))"
proof
  fix x y z
  show "and_then (c x x) (d x x) = Equal"
    by (simp add: comparator.compare_refl [OF c] comparator.compare_refl [OF d])
  show "and_then (c x y) (d x y) = Less \<longleftrightarrow> and_then (c y x) (d y x) = Greater"
    using comparator.compare_less_iff [OF c, of x y] comparator.compare_less_iff [OF c, of y x]
      comparator.compare_less_iff [OF d, of x y]
    by (cases "c x y"; cases "c y x"; simp)
  assume xy: "and_then (c x y) (d x y) \<noteq> Greater" and yz: "and_then (c y z) (d y z) \<noteq> Greater"
  then have cxy: "c x y \<noteq> Greater" and cyz: "c y z \<noteq> Greater" by auto
  have "c x z \<noteq> Greater" by (rule comparator.compare_trans [OF c cxy cyz])
  moreover have "d x z \<noteq> Greater" if eq: "c x z = Equal"
  proof -
    have "c x y = Equal"
      using comparator.compare_less_trans [OF c, of x y z] cxy cyz eq by (cases "c x y") auto
    moreover have "c y z = Equal"
      using comparator.compare_less_trans' [OF c, of x y z] cxy cyz eq by (cases "c y z") auto
    ultimately show ?thesis
      using xy yz comparator.compare_trans [OF d, of x y z] by simp
  qed
  ultimately show "and_then (c x z) (d x z) \<noteq> Greater" by (cases "c x z") auto
qed

section \<open>Encodings\<close>

text \<open>The contract of a printer and a reader of one format: on the values the printer is
  meant for, reading gives back what was printed. Printing is then injective there.\<close>

locale codec =
  fixes encode :: "'a \<Rightarrow> 'b" and decode :: "'b \<Rightarrow> 'a option" and valid :: "'a \<Rightarrow> bool"
  assumes decode_encode: "valid x \<Longrightarrow> decode (encode x) = Some x"
begin

lemma encode_inj: "valid x \<Longrightarrow> valid y \<Longrightarrow> encode x = encode y \<longleftrightarrow> x = y"
  by (metis decode_encode option.inject)

lemma inj_on_encode: "inj_on encode (Collect valid)"
  by (rule inj_onI) (simp add: encode_inj)

lemma decode_range: "b \<in> encode ` Collect valid \<Longrightarrow> \<exists>x. decode b = Some x \<and> encode x = b"
  using decode_encode by auto

end

definition ok :: "'e + 'a \<Rightarrow> 'a option" where
  "ok r = (case r of Inl _ \<Rightarrow> None | Inr a \<Rightarrow> Some a)"

lemma ok_simps [simp]: "ok (Inl e) = None" "ok (Inr a) = Some a"
  by (simp_all add: ok_def)

lemma ok_eq_Some [simp]: "ok r = Some a \<longleftrightarrow> r = Inr a"
  by (cases r) simp_all

end
