(* ===== verification/Strings.thy ===== *)
theory Strings
  imports Prelude "HOL-Library.Sublist"
begin

text \<open>
  The \<open>str\<close> methods the modelled code calls: trimming, splitting, searching, prefixes
  and suffixes, lines, decimal numbers read (\<open>str::parse\<close>) and printed (\<open>Display\<close>).
\<close>

section \<open>Trimming and searching\<close>

definition trim_start :: "string \<Rightarrow> string" where
  "trim_start = dropWhile is_ws"

definition trim_end_matches :: "(char \<Rightarrow> bool) \<Rightarrow> string \<Rightarrow> string" where
  "trim_end_matches p s = rev (dropWhile p (rev s))"

definition trim_end :: "string \<Rightarrow> string" where
  "trim_end = trim_end_matches is_ws"

definition trim :: "string \<Rightarrow> string" where
  "trim s = trim_end (trim_start s)"

definition starts_with :: "string \<Rightarrow> string \<Rightarrow> bool" where
  "starts_with p s \<longleftrightarrow> take (length p) s = p"

definition ends_with :: "string \<Rightarrow> string \<Rightarrow> bool" where
  "ends_with p s \<longleftrightarrow> take (length p) (rev s) = rev p"

definition strip_prefix :: "string \<Rightarrow> string \<Rightarrow> string option" where
  "strip_prefix p s = (if starts_with p s then Some (drop (length p) s) else None)"

definition strip_suffix :: "string \<Rightarrow> string \<Rightarrow> string option" where
  "strip_suffix p s = (if ends_with p s then Some (take (length s - length p) s) else None)"

text \<open>\<open>find\<close> with a character predicate: the position of the first match.\<close>

fun find_char :: "(char \<Rightarrow> bool) \<Rightarrow> string \<Rightarrow> nat option" where
  "find_char p [] = None"
| "find_char p (c # s) = (if p c then Some 0 else map_option Suc (find_char p s))"

fun contains_str :: "string \<Rightarrow> string \<Rightarrow> bool" where
  "contains_str p [] = (p = [])"
| "contains_str p (c # s) = (starts_with p (c # s) \<or> contains_str p s)"

text \<open>\<open>split_once\<close>: the text before and after the first separator; \<open>rsplit_once\<close>: the last.\<close>

fun split_once :: "char \<Rightarrow> string \<Rightarrow> (string \<times> string) option" where
  "split_once c [] = None"
| "split_once c (x # s) =
     (if x = c then Some ([], s) else map_option (\<lambda>(a, b). (x # a, b)) (split_once c s))"

definition rsplit_once :: "char \<Rightarrow> string \<Rightarrow> (string \<times> string) option" where
  "rsplit_once c s = map_option (\<lambda>(a, b). (rev b, rev a)) (split_once c (rev s))"

text \<open>\<open>split\<close> on a character: one more piece than there are separators, so never empty.\<close>

fun split :: "char \<Rightarrow> string \<Rightarrow> string list" where
  "split c [] = [[]]"
| "split c (x # s) =
     (if x = c then [] # split c s
      else (case split c s of [] \<Rightarrow> [[x]] | p # ps \<Rightarrow> (x # p) # ps))"

fun join :: "string \<Rightarrow> string list \<Rightarrow> string" where
  "join sep [] = []"
| "join sep [p] = p"
| "join sep (p # q # ps) = p @ sep @ join sep (q # ps)"

text \<open>\<open>lines\<close>: split after each newline, the newline and a carriage return before it
  dropped, and no final empty line.\<close>

definition strip_cr :: "string \<Rightarrow> string" where
  "strip_cr l = (if l \<noteq> [] \<and> last l = CHR 0x0D then butlast l else l)"

fun split_lines :: "string list \<Rightarrow> string list" where
  "split_lines [] = []"
| "split_lines [l] = (if l = [] then [] else [l])"
| "split_lines (l # m # ls) = strip_cr l # split_lines (m # ls)"

definition lines :: "string \<Rightarrow> string list" where
  "lines s = split_lines (split (CHR 0x0A) s)"

text \<open>\<open>split("\n\n")\<close>: split at each blank line, left to right, pieces not overlapping.\<close>

fun split_blank_line :: "string \<Rightarrow> string list" where
  "split_blank_line [] = [[]]"
| "split_blank_line [x] = [[x]]"
| "split_blank_line (x # y # s) =
     (if x = CHR 0x0A \<and> y = CHR 0x0A then [] # split_blank_line s
      else (case split_blank_line (y # s) of [] \<Rightarrow> [[x]] | p # ps \<Rightarrow> (x # p) # ps))"

definition to_ascii_lowercase :: "string \<Rightarrow> string" where
  "to_ascii_lowercase = List.map to_lower"

lemmas str_defs [rust_std] =
  to_ascii_lowercase_def
  trim_start_def trim_end_matches_def trim_end_def trim_def starts_with_def ends_with_def
  strip_prefix_def strip_suffix_def rsplit_once_def strip_cr_def lines_def

lemma split_not_Nil [simp]: "split c s \<noteq> []"
  by (induction s) (auto split: list.splits)

lemma split_Cons_neq: "x \<noteq> c \<Longrightarrow> split c (x # s) = (x # hd (split c s)) # tl (split c s)"
  by (cases "split c s") auto

lemma split_no_sep: "c \<notin> set s \<Longrightarrow> split c s = [s]"
  by (induction s) auto

lemma split_append_sep:
  "c \<notin> set p \<Longrightarrow> split c (p @ c # s) = p # split c s"
  by (induction p) auto

lemma split_join:
  "\<forall>p \<in> set ps. c \<notin> set p \<Longrightarrow> ps \<noteq> [] \<Longrightarrow> split c (join [c] ps) = ps"
  by (induction "[c]" ps rule: join.induct) (auto simp: split_no_sep split_append_sep)

lemma join_split: "join [c] (split c s) = s"
proof (induction s)
  case (Cons x s)
  obtain p ps where "split c s = p # ps" by (cases "split c s") auto
  with Cons show ?case by (cases ps) auto
qed simp

lemma set_join_subset: "c \<in> set (join sep ps) \<Longrightarrow> c \<in> set sep \<or> (\<exists>p \<in> set ps. c \<in> set p)"
  by (induction sep ps rule: join.induct) auto

lemma split_pieces_no_sep: "p \<in> set (split c s) \<Longrightarrow> c \<notin> set p"
  by (induction s arbitrary: p) (auto split: list.splits if_splits)

lemma set_split_subset: "p \<in> set (split c s) \<Longrightarrow> set p \<subseteq> set s"
proof (induction s arbitrary: p)
  case (Cons x s)
  then show ?case by (cases "split c s") (auto split: if_splits, (blast intro: Cons.IH)+)
qed simp

lemma split_once_Some: "split_once c s = Some (a, b) \<longleftrightarrow> s = a @ c # b \<and> c \<notin> set a"
  by (induction s arbitrary: a b) (auto simp: Cons_eq_append_conv)

lemma split_once_None: "split_once c s = None \<longleftrightarrow> c \<notin> set s"
  by (induction s) auto

lemma rev_eq_sep: "rev s = rev b @ c # rev a \<longleftrightarrow> s = a @ c # b"
  using rev_is_rev_conv [of s "a @ c # b"] by simp

lemma rsplit_once_Some: "rsplit_once c s = Some (a, b) \<longleftrightarrow> s = a @ c # b \<and> c \<notin> set b"
proof -
  have "rsplit_once c s = Some (a, b) \<longleftrightarrow> split_once c (rev s) = Some (rev b, rev a)"
    by (cases "split_once c (rev s)") (auto simp: rsplit_once_def)
  then show ?thesis by (simp add: split_once_Some rev_eq_sep)
qed

lemma rsplit_once_None: "rsplit_once c s = None \<longleftrightarrow> c \<notin> set s"
  by (simp add: rsplit_once_def split_once_None)

lemma starts_with_iff: "starts_with p s \<longleftrightarrow> (\<exists>r. s = p @ r)"
proof
  assume "starts_with p s"
  then have "s = p @ drop (length p) s"
    using append_take_drop_id [of "length p" s] by (simp add: starts_with_def)
  then show "\<exists>r. s = p @ r" ..
qed (auto simp: starts_with_def)

lemma ends_with_iff: "ends_with p s \<longleftrightarrow> (\<exists>r. s = r @ p)"
proof -
  have "ends_with p s \<longleftrightarrow> starts_with (rev p) (rev s)"
    by (simp add: ends_with_def starts_with_def)
  also have "\<dots> \<longleftrightarrow> (\<exists>r. rev s = rev p @ rev r)"
    by (metis rev_rev_ident starts_with_iff)
  also have "\<dots> \<longleftrightarrow> (\<exists>r. s = r @ p)"
    by (simp flip: rev_append)
  finally show ?thesis .
qed

lemma contains_str_iff: "contains_str p s \<longleftrightarrow> (\<exists>a b. s = a @ p @ b)"
proof (induction s)
  case (Cons x s)
  have "(\<exists>a b. x # s = a @ p @ b) \<longleftrightarrow> (\<exists>b. x # s = p @ b) \<or> (\<exists>a b. s = a @ p @ b)"
    by (metis append_Cons append_Nil append_eq_Cons_conv list.inject)
  with Cons show ?case by (simp add: starts_with_iff)
qed simp

lemma strip_prefix_Some [simp]: "strip_prefix p s = Some r \<longleftrightarrow> s = p @ r"
  by (auto simp: strip_prefix_def starts_with_iff)

lemma strip_suffix_Some [simp]: "strip_suffix p s = Some r \<longleftrightarrow> s = r @ p"
  by (auto simp: strip_suffix_def ends_with_iff)

lemma strip_prefix_None: "strip_prefix p s = None \<longleftrightarrow> \<not> starts_with p s"
  by (simp add: strip_prefix_def)

lemma strip_suffix_None: "strip_suffix p s = None \<longleftrightarrow> \<not> ends_with p s"
  by (simp add: strip_suffix_def)

lemma find_char_Some:
  "find_char p s = Some i \<longleftrightarrow> i < length s \<and> p (s ! i) \<and> (\<forall>j < i. \<not> p (s ! j))"
proof (induction s arbitrary: i)
  case (Cons c s)
  then show ?case by (cases i) (auto simp: less_Suc_eq_0_disj)
qed simp

lemma find_char_takeWhile:
  "(case find_char p s of Some i \<Rightarrow> i | None \<Rightarrow> length s) = length (takeWhile (\<lambda>c. \<not> p c) s)"
  by (induction s) (auto split: option.splits)

lemma find_char_None: "find_char p s = None \<longleftrightarrow> (\<forall>c \<in> set s. \<not> p c)"
  by (induction s) auto

text \<open>Trimming leaves a text with no white space at either end unchanged.\<close>

lemma trim_start_id: "s = [] \<or> \<not> is_ws (hd s) \<Longrightarrow> trim_start s = s"
  by (cases s) (auto simp: trim_start_def)

lemma trim_end_id: "s = [] \<or> \<not> is_ws (last s) \<Longrightarrow> trim_end s = s"
  by (cases s rule: rev_cases) (auto simp: trim_end_def trim_end_matches_def)

lemma trim_id: "s = [] \<or> (\<not> is_ws (hd s) \<and> \<not> is_ws (last s)) \<Longrightarrow> trim s = s"
  by (auto simp: trim_def trim_start_id trim_end_id)

lemma trim_no_ws:
  assumes "\<forall>c \<in> set s. \<not> is_ws c"
  shows "trim s = s"
  by (rule trim_id) (use assms in \<open>cases "s = []"; simp\<close>)

lemma trim_Nil [simp]: "trim [] = []"
  by (simp add: trim_id)

lemma length_trim_start: "length (trim_start s) \<le> length s"
  by (simp add: trim_start_def length_dropWhile_le)

lemma length_trim_end: "length (trim_end s) \<le> length s"
  using length_dropWhile_le [of is_ws "rev s"] by (simp add: trim_end_def trim_end_matches_def)

lemma trim_eq_self: "trim s = s \<longleftrightarrow> s = [] \<or> (\<not> is_ws (hd s) \<and> \<not> is_ws (last s))"
proof
  assume eq: "trim s = s"
  have hd: "\<not> is_ws (hd s)" if "s \<noteq> []"
  proof
    assume "is_ws (hd s)"
    then have "trim s = trim_end (trim_start (tl s))"
      using that by (cases s) (auto simp: trim_def trim_start_def)
    then have "length (trim s) \<le> length (tl s)"
      using length_trim_end [of "trim_start (tl s)"] length_trim_start [of "tl s"] by simp
    with eq that show False by (cases s) auto
  qed
  have "\<not> is_ws (last s)" if ne: "s \<noteq> []"
  proof
    assume ws: "is_ws (last s)"
    have "trim s = trim_end s" using hd ne by (simp add: trim_def trim_start_id)
    also have "\<dots> = trim_end (butlast s)"
      using ne ws by (cases s rule: rev_cases) (auto simp: trim_end_def trim_end_matches_def)
    finally have "length (trim s) \<le> length (butlast s)"
      using length_trim_end [of "butlast s"] by simp
    with eq ne show False by (cases s rule: rev_cases) auto
  qed
  with hd show "s = [] \<or> (\<not> is_ws (hd s) \<and> \<not> is_ws (last s))" by blast
qed (rule trim_id)

lemma trim_start_hd: "trim_start s \<noteq> [] \<Longrightarrow> \<not> is_ws (hd (trim_start s))"
  unfolding trim_start_def by (rule hd_dropWhile)

lemma trim_end_prefix: "\<exists>r. s = trim_end s @ r"
proof -
  have "s = rev (dropWhile is_ws (rev s)) @ rev (takeWhile is_ws (rev s))"
    by (metis rev_append rev_rev_ident takeWhile_dropWhile_id)
  then show ?thesis by (auto simp: trim_end_def trim_end_matches_def)
qed

lemma trim_end_last: "trim_end s \<noteq> [] \<Longrightarrow> \<not> is_ws (last (trim_end s))"
  using hd_dropWhile [of is_ws "rev s"]
  by (auto simp: trim_end_def trim_end_matches_def last_rev)

lemma trim_trim [simp]: "trim (trim s) = trim s"
proof -
  have "\<not> is_ws (hd (trim s))" if "trim s \<noteq> []"
  proof -
    obtain r where r: "trim_start s = trim s @ r"
      using trim_end_prefix [of "trim_start s"] by (auto simp: trim_def)
    with that have "hd (trim_start s) = hd (trim s)" and "trim_start s \<noteq> []"
      by (metis hd_append2) (use r that in auto)
    with trim_start_hd [of s] show ?thesis by simp
  qed
  moreover have "\<not> is_ws (last (trim s))" if "trim s \<noteq> []"
    using that trim_end_last by (simp add: trim_def)
  ultimately show ?thesis unfolding trim_eq_self by blast
qed

section \<open>Decimal numbers\<close>

definition all_digits :: "string \<Rightarrow> bool" where
  "all_digits = list_all is_digit"

definition dec_val :: "string \<Rightarrow> nat" where
  "dec_val = foldl (\<lambda>a c. 10 * a + digit_val c) 0"

text \<open>\<open>str::parse\<close> at an unsigned integer type with greatest value \<open>mx\<close>: an optional plus
  sign, at least one digit, nothing else, no overflow.\<close>

definition parse_uint :: "nat \<Rightarrow> string \<Rightarrow> nat option" where
  "parse_uint mx s =
     (let d = (case s of c # r \<Rightarrow> if c = CHR ''+'' then r else s | [] \<Rightarrow> s)
      in if d = [] \<or> \<not> all_digits d then None
         else if dec_val d \<le> mx then Some (dec_val d) else None)"

text \<open>\<open>Display\<close> of an unsigned integer, and zero-padded to a width.\<close>

fun show_nat :: "nat \<Rightarrow> string" where
  "show_nat n = (if n < 10 then [digit_char n] else show_nat (n div 10) @ [digit_char (n mod 10)])"

declare show_nat.simps [simp del]

definition pad_left :: "char \<Rightarrow> nat \<Rightarrow> string \<Rightarrow> string" where
  "pad_left c w s = replicate (w - length s) c @ s"

definition show_pad :: "nat \<Rightarrow> nat \<Rightarrow> string" where
  "show_pad w n = pad_left (CHR ''0'') w (show_nat n)"

lemmas num_defs [rust_std] =
  all_digits_def dec_val_def parse_uint_def pad_left_def show_pad_def digit_val_def digit_char_def

lemma foldl_dec:
  "foldl (\<lambda>a c. 10 * a + digit_val c) n s = n * 10 ^ length s + dec_val s"
proof (induction s arbitrary: n)
  case (Cons c s)
  show ?case
    using Cons [of "10 * n + digit_val c"] Cons [of "digit_val c"]
    by (simp add: dec_val_def algebra_simps)
qed (simp add: dec_val_def)

lemma dec_val_Nil [simp]: "dec_val [] = 0"
  by (simp add: dec_val_def)

lemma dec_val_Cons: "dec_val (c # s) = digit_val c * 10 ^ length s + dec_val s"
  using foldl_dec [of "digit_val c" s] by (simp add: dec_val_def)

lemma dec_val_snoc [simp]: "dec_val (s @ [c]) = 10 * dec_val s + digit_val c"
  by (simp add: dec_val_def)

lemma dec_val_append: "dec_val (s @ t) = dec_val s * 10 ^ length t + dec_val t"
  by (simp add: dec_val_def) (metis dec_val_def foldl_dec)

lemma dec_val_less: "all_digits s \<Longrightarrow> dec_val s < 10 ^ length s"
proof (induction s rule: rev_induct)
  case (snoc c s)
  then have "dec_val s < 10 ^ length s" and "digit_val c < 10"
    by (auto simp: all_digits_def digit_val_less)
  then show ?case by simp
qed simp

lemma dec_val_zeros [simp]: "dec_val (replicate n (CHR ''0'') @ s) = dec_val s"
  by (induction n) (simp_all add: dec_val_Cons digit_val_def)

lemma show_nat_digits: "all_digits (show_nat n)"
proof (induction n rule: show_nat.induct)
  case (1 n)
  then show ?case by (cases "n < 10") (auto simp: all_digits_def show_nat.simps [of n])
qed

lemma show_nat_not_Nil [simp]: "show_nat n \<noteq> []"
  by (simp add: show_nat.simps [of n])

lemma dec_val_show_nat [simp]: "dec_val (show_nat n) = n"
proof (induction n rule: show_nat.induct)
  case (1 n)
  then show ?case
    by (cases "n < 10") (auto simp: show_nat.simps [of n] dec_val_Cons)
qed

lemma show_nat_inj: "show_nat m = show_nat n \<longleftrightarrow> m = n"
  by (metis dec_val_show_nat)

lemma all_digits_iff: "all_digits s \<longleftrightarrow> (\<forall>c \<in> set s. is_digit c)"
  by (simp add: all_digits_def list_all_iff)

lemma digit_not_plus: "is_digit c \<Longrightarrow> c \<noteq> CHR ''+''"
  by (auto simp: is_digit_def)

lemma parse_uint_digits:
  "all_digits d \<Longrightarrow> d \<noteq> [] \<Longrightarrow> parse_uint mx d = (if dec_val d \<le> mx then Some (dec_val d) else None)"
  by (cases d) (auto simp: parse_uint_def all_digits_iff digit_not_plus)

lemma parse_uint_show_nat: "n \<le> mx \<Longrightarrow> parse_uint mx (show_nat n) = Some n"
  by (simp add: parse_uint_digits show_nat_digits)

lemma parse_uint_bound: "parse_uint mx s = Some n \<Longrightarrow> n \<le> mx"
  by (auto simp: parse_uint_def Let_def split: if_splits)

lemma show_pad_length: "w \<le> length (show_pad w n)"
  by (simp add: show_pad_def pad_left_def)

lemma dec_val_show_pad [simp]: "dec_val (show_pad w n) = n"
  by (simp add: show_pad_def pad_left_def)

lemma show_pad_digits: "all_digits (show_pad w n)"
  using show_nat_digits [of n] by (auto simp: show_pad_def pad_left_def all_digits_iff is_digit_def)

lemma show_nat_length: "n < 10 ^ k \<Longrightarrow> 0 < k \<Longrightarrow> length (show_nat n) \<le> k"
proof (induction n arbitrary: k rule: show_nat.induct)
  case (1 n)
  show ?case
  proof (cases "n < 10")
    case True
    with 1(3) show ?thesis by (simp add: show_nat.simps [of n])
  next
    case False
    with 1(2,3) have "k \<noteq> 1" by auto
    with 1(3) obtain j where k: "k = Suc j" and "0 < j" by (cases k) auto
    with False 1 show ?thesis
      by (auto simp: show_nat.simps [of n] less_mult_imp_div_less)
  qed
qed

lemma show_pad_length_eq: "n < 10 ^ w \<Longrightarrow> 0 < w \<Longrightarrow> length (show_pad w n) = w"
  using show_nat_length [of n w] by (simp add: show_pad_def pad_left_def)

end
