(* ===== verification/Debdep.thy ===== *)
theory Debdep
  imports Strings
begin

text \<open>
  \<open>crates/core/src/debdep.rs\<close>: whether a set of installed Debian packages satisfies its
  own dependencies. The \<open>dpkg\<close> version order (\<open>compare_versions\<close>), the dependency
  grammar (\<open>split_top\<close>, \<open>parse_atom\<close>), the status database reader (\<open>parse_status\<close>) and
  the check itself (\<open>unsatisfied\<close>), with the order laws of the first and a set-based
  specification of the last.
\<close>

section \<open>Data\<close>

record Package =
  pkg_name :: string
  pkg_version :: string
  pkg_depends :: string
  pkg_provides :: string

record Unsatisfied =
  un_package :: string
  un_package_version :: string
  un_required :: string
  un_installed :: "string option"

section \<open>The version order\<close>

definition take_while :: "string \<Rightarrow> (char \<Rightarrow> bool) \<Rightarrow> string \<times> string" where
  "take_while s p =
     (let end = (case find_char (\<lambda>c. \<not> p c) s of Some i \<Rightarrow> i | None \<Rightarrow> length s)
      in (take end s, drop end s))"

definition ordinal :: "char option \<Rightarrow> int" where
  "ordinal c = (case c of
     None \<Rightarrow> 0
   | Some c \<Rightarrow> if c = CHR ''~'' then -1
               else if is_alpha c then of_char c
               else of_char c + 256)"

definition get :: "'a list \<Rightarrow> nat \<Rightarrow> 'a option" where
  "get s i = (if i < length s then Some (s ! i) else None)"

definition compare_nondigit :: "string \<Rightarrow> string \<Rightarrow> Ordering" where
  "compare_nondigit a b =
     foldr (\<lambda>i r. and_then (cmp (ordinal (get a i)) (ordinal (get b i))) r)
       [0 ..< max (length a) (length b)] Equal"

definition compare_numeric :: "string \<Rightarrow> string \<Rightarrow> Ordering" where
  "compare_numeric a b =
     (let trim_len = (\<lambda>s. length s -
            (case find_char (\<lambda>c. c \<noteq> CHR ''0'') s of Some i \<Rightarrow> i | None \<Rightarrow> length s));
          la = trim_len a; lb = trim_len b
      in and_then (cmp la lb)
           (cmp (dropWhile (\<lambda>c. c = CHR ''0'') a) (dropWhile (\<lambda>c. c = CHR ''0'') b)))"

lemma take_while_eq: "take_while s p = (takeWhile p s, dropWhile p s)"
  using find_char_takeWhile [where p = "\<lambda>c. \<not> p c" and s = s]
  by (simp add: take_while_def Let_def takeWhile_eq_take [symmetric] dropWhile_eq_drop [symmetric])

definition skip_runs :: "string \<Rightarrow> string" where
  "skip_runs s = dropWhile is_digit (dropWhile (\<lambda>c. \<not> is_digit c) s)"

lemma length_skip_runs: "length (skip_runs s) \<le> length s"
  using length_dropWhile_le [of is_digit "dropWhile (\<lambda>c. \<not> is_digit c) s"]
    length_dropWhile_le [of "\<lambda>c. \<not> is_digit c" s]
  by (simp add: skip_runs_def)

lemma skip_runs_Cons: "skip_runs (c # s) = (if is_digit c then dropWhile is_digit s else skip_runs s)"
  by (simp add: skip_runs_def)

lemma length_skip_runs_less: "s \<noteq> [] \<Longrightarrow> length (skip_runs s) < length s"
  using length_skip_runs [of "tl s"] length_dropWhile_le [of is_digit "tl s"]
  by (cases s) (auto simp: skip_runs_Cons)

lemma skip_runs_Nil [simp]: "skip_runs [] = []"
  by (simp add: skip_runs_def)

function compare_part :: "string \<Rightarrow> string \<Rightarrow> Ordering" where
  "compare_part a b =
     (let (na, ra) = take_while a (\<lambda>c. \<not> is_digit c);
          (nb, rb) = take_while b (\<lambda>c. \<not> is_digit c)
      in case compare_nondigit na nb of
           Equal \<Rightarrow>
             (let (da, ra) = take_while ra is_digit;
                  (db, rb) = take_while rb is_digit
              in case compare_numeric da db of
                   Equal \<Rightarrow> if ra = [] \<and> rb = [] then Equal else compare_part ra rb
                 | ord \<Rightarrow> ord)
         | ord \<Rightarrow> ord)"
  by pat_completeness auto
termination
proof (relation "measure (\<lambda>(a, b). length a + length b)", goal_cases)
  case 1
  then show ?case by simp
next
  case (2 a b x na ra y nb rb u da ra' v db rb')
  then have ra: "ra' = skip_runs a" and rb: "rb' = skip_runs b" and ne: "ra' \<noteq> [] \<or> rb' \<noteq> []"
    by (auto simp: take_while_eq skip_runs_def)
  have "length (skip_runs a) + length (skip_runs b) < length a + length b"
    using ne length_skip_runs [of a] length_skip_runs [of b]
      length_skip_runs_less [of a] length_skip_runs_less [of b]
    by (cases "a = []"; cases "b = []") (auto simp: ra rb intro: add_less_le_mono add_le_less_mono)
  then show ?case by (simp add: ra rb)
qed

declare compare_part.simps [simp del]

definition split_version :: "string \<Rightarrow> nat \<times> string \<times> string" where
  "split_version v =
     (let v = trim v;
          (epoch, rest) = (case find_char (\<lambda>c. c = CHR '':'') v of
             Some i \<Rightarrow> ((case parse_uint u64_max (take i v) of Some n \<Rightarrow> n | None \<Rightarrow> 0), drop (i + 1) v)
           | None \<Rightarrow> (0, v))
      in case rsplit_once (CHR ''-'') rest of
           Some (up, r) \<Rightarrow> (epoch, up, r)
         | None \<Rightarrow> (epoch, rest, []))"

definition compare_versions :: "string \<Rightarrow> string \<Rightarrow> Ordering" where
  "compare_versions a b =
     (let (ea, ua, ra) = split_version a;
          (eb, ub, rb) = split_version b
      in and_then (cmp ea eb) (and_then (compare_part ua ub) (compare_part ra rb)))"

text \<open>Two digit runs compare as the numbers they spell.\<close>

lemma of_char_less: "c < d \<longleftrightarrow> (of_char c :: nat) < of_char d"
  by (simp add: less_char_def)

lemma cmp_digits_same_length:
  "length a = length b \<Longrightarrow> all_digits a \<Longrightarrow> all_digits b \<Longrightarrow> cmp a b = cmp (dec_val a) (dec_val b)"
proof (induction a b rule: list_induct2)
  case Nil
  then show ?case by simp
next
  case (Cons x a y b)
  then have d: "is_digit x" "is_digit y" "all_digits a" "all_digits b"
    by (simp_all add: all_digits_def)
  have ba: "dec_val a < 10 ^ length b" and bb: "dec_val b < 10 ^ length b"
    using dec_val_less [of a] dec_val_less [of b] d Cons.hyps by simp_all
  have lt: "dec_val (x # a) < dec_val (y # b)" if "x < y"
    and "dec_val a < 10 ^ length b" and "length a = length b" and "is_digit x" for x y a b
  proof -
    from that have "digit_val x + 1 \<le> digit_val y"
      by (auto simp: of_char_less digit_val_def is_digit_def)
    then have "(digit_val x + 1) * 10 ^ length b \<le> digit_val y * 10 ^ length b"
      by (rule mult_le_mono1)
    with that show ?thesis by (simp add: dec_val_Cons algebra_simps)
  qed
  show ?case
  proof (cases x y rule: linorder_cases)
    case less
    have "dec_val (x # a) < dec_val (y # b)" by (rule lt [OF less ba Cons.hyps d(1)])
    with less show ?thesis by (simp add: cmp_def)
  next
    case equal
    have "cmp (y # a) (y # b) = cmp a b" by (auto simp: cmp_def)
    also have "\<dots> = cmp (dec_val a) (dec_val b)" by (rule Cons.IH [OF d(3,4)])
    also have "\<dots> = cmp (dec_val (y # a)) (dec_val (y # b))"
      by (simp add: cmp_def dec_val_Cons Cons.hyps)
    finally show ?thesis by (simp only: equal)
  next
    case greater
    have "dec_val (y # b) < dec_val (x # a)"
      by (rule lt [OF greater]) (use bb Cons.hyps d in simp_all)
    with greater show ?thesis by (auto simp: cmp_def)
  qed
qed

lemma dec_val_dropWhile_zeros: "dec_val (dropWhile (\<lambda>c. c = CHR ''0'') s) = dec_val s"
  by (induction s) (auto simp: dec_val_Cons digit_val_def)

lemma all_digits_dropWhile: "all_digits s \<Longrightarrow> all_digits (dropWhile p s)"
  by (auto simp: all_digits_iff dest: set_dropWhileD)

lemma dec_val_ge: "is_digit c \<Longrightarrow> c \<noteq> CHR ''0'' \<Longrightarrow> 10 ^ length s \<le> dec_val (c # s)"
proof -
  assume c: "is_digit c" "c \<noteq> CHR ''0''"
  then have "digit_val c \<noteq> 0"
    using digit_val_inj [of c "CHR ''0''"] by (auto simp: digit_val_def is_digit_def)
  then have "1 * 10 ^ length s \<le> digit_val c * 10 ^ length s"
    by (intro mult_le_mono1) simp
  then show ?thesis unfolding dec_val_Cons by linarith
qed

lemma dec_val_shorter:
  assumes "all_digits a" and "all_digits b" and "length a < length b"
    and "b = [] \<or> hd b \<noteq> CHR ''0''"
  shows "dec_val a < dec_val b"
proof -
  obtain c s where b: "b = c # s" using assms by (cases b) auto
  have "dec_val a < 10 ^ length a" by (rule dec_val_less [OF assms(1)])
  also have "\<dots> \<le> 10 ^ length s" using assms(3) b by (intro power_increasing) auto
  also have "\<dots> \<le> dec_val b" using dec_val_ge [of c s] assms b by (auto simp: all_digits_def)
  finally show ?thesis .
qed

lemma hd_dropWhile_zeros: "dropWhile (\<lambda>c. c = z) s = [] \<or> hd (dropWhile (\<lambda>c. c = z) s) \<noteq> z"
  by (induction s) auto

lemma compare_numeric_unfold:
  "compare_numeric a b =
     (let sa = dropWhile (\<lambda>c. c = CHR ''0'') a; sb = dropWhile (\<lambda>c. c = CHR ''0'') b
      in and_then (cmp (length sa) (length sb)) (cmp sa sb))"
proof -
  have "length s - (case find_char (\<lambda>c. c \<noteq> z) s of Some i \<Rightarrow> i | None \<Rightarrow> length s)
      = length (dropWhile (\<lambda>c. c = z) s)" for s z
    using find_char_takeWhile [where p = "\<lambda>c. c \<noteq> z" and s = s]
      takeWhile_dropWhile_id [of "\<lambda>c. c = z" s]
    by (metis (mono_tags, lifting) diff_add_inverse length_append not_not takeWhile_cong)
  then show ?thesis by (simp add: compare_numeric_def Let_def)
qed

lemma compare_numeric_dec_val:
  assumes "all_digits a" and "all_digits b"
  shows "compare_numeric a b = cmp (dec_val a) (dec_val b)"
proof -
  define sa where "sa = dropWhile (\<lambda>c. c = CHR ''0'') a"
  define sb where "sb = dropWhile (\<lambda>c. c = CHR ''0'') b"
  have d: "all_digits sa" "all_digits sb" using assms by (simp_all add: sa_def sb_def all_digits_dropWhile)
  have h: "sa = [] \<or> hd sa \<noteq> CHR ''0''" "sb = [] \<or> hd sb \<noteq> CHR ''0''"
    unfolding sa_def sb_def by (rule hd_dropWhile_zeros)+
  have v: "dec_val a = dec_val sa" "dec_val b = dec_val sb"
    by (simp_all add: sa_def sb_def dec_val_dropWhile_zeros)
  have "and_then (cmp (length sa) (length sb)) (cmp sa sb) = cmp (dec_val sa) (dec_val sb)"
  proof (cases "length sa" "length sb" rule: linorder_cases)
    case less
    then show ?thesis using dec_val_shorter [OF d(1,2) less h(2)] by (simp add: cmp_def)
  next
    case equal
    then show ?thesis using cmp_digits_same_length [OF equal d] by simp
  next
    case greater
    then have "dec_val sb < dec_val sa" by (rule dec_val_shorter [OF d(2,1) _ h(1)])
    with greater show ?thesis by (simp add: cmp_def)
  qed
  then show ?thesis by (simp add: compare_numeric_unfold Let_def v flip: sa_def sb_def)
qed


text \<open>The order laws. A part compares by its leading runs, then by the rest.\<close>

lemma comparator_foldr:
  assumes c: "comparator c"
  shows "comparator (\<lambda>f g. foldr (\<lambda>i r. and_then (c (f i) (g i)) r) xs Equal)"
proof (induction xs)
  case Nil
  show ?case by unfold_locales simp_all
next
  case (Cons i xs)
  have "comparator (\<lambda>f g. c (f i) (g i))" by (rule comparator_on_key [OF c])
  from comparator_then [OF this Cons] show ?case by simp
qed

lemma foldr_and_then_pad:
  assumes "\<forall>i \<in> set ys. c i = Equal"
  shows "foldr (\<lambda>i r. and_then (c i) r) (xs @ ys) Equal = foldr (\<lambda>i r. and_then (c i) r) xs Equal"
proof -
  have "foldr (\<lambda>i r. and_then (c i) r) ys Equal = Equal"
    using assms by (induction ys) simp_all
  then show ?thesis by simp
qed

lemma compare_nondigit_pad:
  assumes "length a \<le> n" and "length b \<le> n"
  shows "compare_nondigit a b =
    foldr (\<lambda>i r. and_then (cmp (ordinal (get a i)) (ordinal (get b i))) r) [0 ..< n] Equal"
proof -
  have "[0 ..< n] = [0 ..< max (length a) (length b)] @ [max (length a) (length b) ..< n]"
    using assms upt_add_eq_append [of 0 "max (length a) (length b)" "n - max (length a) (length b)"]
    by simp
  then show ?thesis
    unfolding compare_nondigit_def by (simp only:) (subst foldr_and_then_pad; simp add: get_def)
qed

lemma comparator_compare_nondigit: "comparator compare_nondigit"
proof -
  have c: "comparator (\<lambda>f g. foldr (\<lambda>i r. and_then (cmp (ordinal (f i)) (ordinal (g i))) r) [0 ..< n] Equal)" for n
    by (rule comparator_foldr) (rule comparator_key)
  show ?thesis
  proof
    fix x y z :: string
    define n where "n = max (length x) (max (length y) (length z))"
    have e: "compare_nondigit u v = foldr (\<lambda>i r. and_then (cmp (ordinal (get u i)) (ordinal (get v i))) r) [0 ..< n] Equal"
      if "u \<in> {x, y, z}" "v \<in> {x, y, z}" for u v
      by (rule compare_nondigit_pad) (use that in \<open>auto simp: n_def\<close>)
    show "compare_nondigit x x = Equal"
      by (simp add: e comparator.compare_refl [OF c])
    show "compare_nondigit x y = Less \<longleftrightarrow> compare_nondigit y x = Greater"
      by (simp add: e comparator.compare_less_iff [OF c])
    show "compare_nondigit x z \<noteq> Greater"
      if "compare_nondigit x y \<noteq> Greater" and "compare_nondigit y z \<noteq> Greater"
      using that comparator.compare_trans [OF c [of n], of "get x" "get y" "get z"] by (simp add: e)
  qed
qed

definition part_head :: "string \<Rightarrow> string \<times> nat" where
  "part_head s =
     (takeWhile (\<lambda>c. \<not> is_digit c) s,
      dec_val (takeWhile is_digit (dropWhile (\<lambda>c. \<not> is_digit c) s)))"

definition compare_head :: "string \<times> nat \<Rightarrow> string \<times> nat \<Rightarrow> Ordering" where
  "compare_head x y = and_then (compare_nondigit (fst x) (fst y)) (cmp (snd x) (snd y))"

lemma comparator_compare_head: "comparator compare_head"
  unfolding compare_head_def [abs_def]
  by (intro comparator_then comparator_on_key [OF comparator_compare_nondigit] comparator_key)

interpretation nondigit: comparator compare_nondigit
  by (rule comparator_compare_nondigit)

lemma all_digits_takeWhile: "all_digits (takeWhile is_digit s)"
  by (auto simp: all_digits_iff dest: set_takeWhileD)

lemma compare_part_Nil [simp]: "compare_part [] [] = Equal"
  by (simp add: compare_part.simps [of "[]" "[]"] take_while_eq nondigit.compare_refl
      compare_numeric_unfold)

lemma compare_part_runs:
  "compare_part a b =
     and_then (compare_nondigit (takeWhile (\<lambda>c. \<not> is_digit c) a) (takeWhile (\<lambda>c. \<not> is_digit c) b))
       (and_then (compare_numeric (takeWhile is_digit (dropWhile (\<lambda>c. \<not> is_digit c) a))
                                  (takeWhile is_digit (dropWhile (\<lambda>c. \<not> is_digit c) b)))
          (if skip_runs a = [] \<and> skip_runs b = [] then Equal
           else compare_part (skip_runs a) (skip_runs b)))"
  unfolding skip_runs_def
  by (subst compare_part.simps) (simp only: take_while_eq Let_def prod.case case_Ordering_and_then)

lemma compare_part_unfold:
  "compare_part a b =
     and_then (compare_head (part_head a) (part_head b)) (compare_part (skip_runs a) (skip_runs b))"
proof -
  have tail: "(if skip_runs a = [] \<and> skip_runs b = [] then Equal
      else compare_part (skip_runs a) (skip_runs b)) = compare_part (skip_runs a) (skip_runs b)"
    by simp
  have assoc: "and_then r (and_then s t) = and_then (and_then r s) t" for r s t
    by (cases r) simp_all
  show ?thesis
    unfolding compare_part_runs [of a b] tail
    by (simp only: assoc part_head_def compare_head_def fst_conv snd_conv
        compare_numeric_dec_val [OF all_digits_takeWhile all_digits_takeWhile])
qed

lemma compare_part_by_heads:
  "length a \<le> n \<Longrightarrow> length b \<le> n \<Longrightarrow> compare_part a b =
     foldr (\<lambda>i r. and_then (compare_head (part_head ((skip_runs ^^ i) a)) (part_head ((skip_runs ^^ i) b))) r)
       [0 ..< n] Equal"
proof (induction n arbitrary: a b)
  case 0
  then show ?case by simp
next
  case (Suc n)
  have "length (skip_runs s) \<le> n" if "length s \<le> Suc n" for s
    using length_skip_runs_less [of s] that by (cases "s = []") auto
  then have IH: "compare_part (skip_runs a) (skip_runs b) =
      foldr (\<lambda>i r. and_then (compare_head (part_head ((skip_runs ^^ i) (skip_runs a)))
        (part_head ((skip_runs ^^ i) (skip_runs b)))) r) [0 ..< n] Equal"
    using Suc by blast
  have upt: "[0 ..< Suc n] = 0 # map Suc [0 ..< n]" by (simp add: upt_conv_Cons map_Suc_upt del: upt_Suc)
  show ?case
    unfolding compare_part_unfold [of a b] IH upt
    by (simp only: foldr.simps foldr_map comp_def funpow.simps id_apply funpow_swap1)
qed

lemma comparator_compare_part: "comparator compare_part"
proof -
  have c: "comparator (\<lambda>f g. foldr (\<lambda>i r. and_then (compare_head (f i) (g i)) r) [0 ..< n] Equal)" for n
    by (rule comparator_foldr) (rule comparator_compare_head)
  show ?thesis
  proof
    fix x y z :: string
    define n where "n = max (length x) (max (length y) (length z))"
    define h where "h = (\<lambda>s i. part_head ((skip_runs ^^ i) s))"
    have e: "compare_part u v = foldr (\<lambda>i r. and_then (compare_head (h u i) (h v i)) r) [0 ..< n] Equal"
      if "u \<in> {x, y, z}" "v \<in> {x, y, z}" for u v
      unfolding h_def by (rule compare_part_by_heads) (use that in \<open>auto simp: n_def\<close>)
    show "compare_part x x = Equal"
      by (simp add: e comparator.compare_refl [OF c])
    show "compare_part x y = Less \<longleftrightarrow> compare_part y x = Greater"
      by (simp add: e comparator.compare_less_iff [OF c])
    show "compare_part x z \<noteq> Greater"
      if "compare_part x y \<noteq> Greater" and "compare_part y z \<noteq> Greater"
      using that comparator.compare_trans [OF c [of n], of "h x" "h y" "h z"] by (simp add: e)
  qed
qed

lemma comparator_compare_versions: "comparator compare_versions"
proof -
  have eq: "compare_versions = (\<lambda>a b. and_then (cmp (fst (split_version a)) (fst (split_version b)))
      (and_then (compare_part (fst (snd (split_version a))) (fst (snd (split_version b))))
        (compare_part (snd (snd (split_version a))) (snd (snd (split_version b))))))"
    by (simp add: fun_eq_iff compare_versions_def split: prod.split)
  show ?thesis
    by (subst eq) (intro comparator_then comparator_key comparator_on_key [OF comparator_compare_part])
qed

interpretation dpkg: comparator compare_versions
  by (rule comparator_compare_versions)


section \<open>The dependency grammar\<close>

fun split_top_loop :: "char \<Rightarrow> int \<Rightarrow> string \<Rightarrow> string \<Rightarrow> string list" where
  "split_top_loop sep depth piece [] = [trim piece]"
| "split_top_loop sep depth piece (c # s) =
     (if c = CHR ''('' \<or> c = CHR ''['' then split_top_loop sep (depth + 1) (piece @ [c]) s
      else if c = CHR '')'' \<or> c = CHR '']'' then split_top_loop sep (depth - 1) (piece @ [c]) s
      else if c = sep \<and> depth \<le> 0 then trim piece # split_top_loop sep depth [] s
      else split_top_loop sep depth (piece @ [c]) s)"

definition split_top :: "string \<Rightarrow> char \<Rightarrow> string list" where
  "split_top s sep = filter (\<lambda>p. p \<noteq> []) (split_top_loop sep 0 [] s)"

definition parse_atom :: "string \<Rightarrow> string \<times> (string \<times> string) option" where
  "parse_atom atom0 =
     (let atom = trim atom0;
          without_brackets = (case find_char (\<lambda>c. c = CHR ''['') atom of
            Some i \<Rightarrow> take i atom | None \<Rightarrow> atom);
          (head, constraint) = (case find_char (\<lambda>c. c = CHR ''('') without_brackets of
            Some i \<Rightarrow>
              (let close = (case find_char (\<lambda>c. c = CHR '')'') without_brackets of
                     Some j \<Rightarrow> j | None \<Rightarrow> length without_brackets);
                   inner = trim (drop (i + 1) (take (max close (i + 1)) without_brackets));
                   split = (case find_char (\<lambda>c. is_digit c \<or> is_alpha c) inner of
                     Some j \<Rightarrow> j | None \<Rightarrow> length inner)
               in (take i without_brackets, Some (trim (take split inner), trim (drop split inner))))
          | None \<Rightarrow> (without_brackets, None))
      in (trim (hd (split (CHR '':'') (trim head))), constraint))"

definition relation_holds :: "string \<Rightarrow> string \<Rightarrow> string \<Rightarrow> bool" where
  "relation_holds have_v rel want =
     (let ord = compare_versions have_v want
      in if rel = ''<<'' then ord = Less
         else if rel = ''<='' then ord \<noteq> Greater
         else if rel = ''='' then ord = Equal
         else if rel = ''>='' then ord \<noteq> Less
         else if rel = ''>>'' then ord = Greater
         else if rel = ''<'' then ord \<noteq> Greater
         else if rel = ''>'' then ord \<noteq> Less
         else False)"

section \<open>The check\<close>

text \<open>The two \<open>HashMap\<close>s: \<open>installed\<close> is collected from pairs, so a later package of
  the same name wins; \<open>provides\<close> collects every version a name is provided at, in order.\<close>

definition installed_map :: "Package list \<Rightarrow> string \<Rightarrow> string option" where
  "installed_map packages =
     foldl (\<lambda>m p. m(pkg_name p \<mapsto> pkg_version p)) Map.empty packages"

definition provided_item :: "string \<Rightarrow> string \<times> string" where
  "provided_item item =
     (let (name, version) = parse_atom item
      in (name, case version of Some (_, v) \<Rightarrow> v | None \<Rightarrow> []))"

definition provides_map :: "Package list \<Rightarrow> string \<Rightarrow> string list option" where
  "provides_map packages =
     foldl (\<lambda>m p. foldl (\<lambda>m item. let (name, v) = provided_item item
                              in m(name \<mapsto> (case m name of Some vs \<Rightarrow> vs @ [v] | None \<Rightarrow> [v])))
              m (split_top (pkg_provides p) (CHR '','')))
       Map.empty packages"

definition satisfied ::
  "string \<Rightarrow> (string \<Rightarrow> string option) \<Rightarrow> (string \<Rightarrow> string list option) \<Rightarrow> bool" where
  "satisfied atom installed provides =
     (let (name, constraint) = parse_atom atom
      in if name = [] then True
         else if (case installed name of
                    Some have_v \<Rightarrow> (case constraint of
                        None \<Rightarrow> True | Some (rel, want) \<Rightarrow> relation_holds have_v rel want)
                  | None \<Rightarrow> False) then True
         else (case (provides name, constraint) of
                 (Some _, None) \<Rightarrow> True
               | (Some versions, Some (rel, want)) \<Rightarrow>
                   list_ex (\<lambda>v. v \<noteq> [] \<and> relation_holds v rel want) versions
               | (None, _) \<Rightarrow> False))"

definition check_group ::
  "(string \<Rightarrow> string option) \<Rightarrow> (string \<Rightarrow> string list option) \<Rightarrow> Package \<Rightarrow> string \<Rightarrow> Unsatisfied list" where
  "check_group installed provides p grp =
     (if trim grp = [] then []
      else let alternatives = split_top grp (CHR ''|'')
           in if list_ex (\<lambda>alt. satisfied alt installed provides) alternatives then []
              else let first = parse_atom (case alternatives of a # _ \<Rightarrow> a | [] \<Rightarrow> [])
                   in [\<lparr>un_package = pkg_name p, un_package_version = pkg_version p,
                        un_required = trim grp, un_installed = installed (fst first)\<rparr>])"

definition unsatisfied_order :: "Unsatisfied \<Rightarrow> Unsatisfied \<Rightarrow> Ordering" where
  "unsatisfied_order a b =
     and_then (cmp (un_package a) (un_package b)) (cmp (un_required a) (un_required b))"

definition unsatisfied :: "Package list \<Rightarrow> Unsatisfied list" where
  "unsatisfied packages =
     (let installed = installed_map packages; provides = provides_map packages
      in sort_by unsatisfied_order
           (concat (List.map (\<lambda>p. concat (List.map (check_group installed provides p)
                                (split_top (pkg_depends p) (CHR '','')))) packages)))"

section \<open>Reading the status database\<close>

datatype status_field = FName | FVersion | FStatus | FDepends | FPreDepends | FProvides

record stanza =
  st_name :: string
  st_version :: string
  st_status :: string
  st_depends :: string
  st_predepends :: string
  st_provides :: string
  st_field :: "status_field option"

definition empty_stanza :: stanza where
  "empty_stanza = \<lparr>st_name = [], st_version = [], st_status = [], st_depends = [],
     st_predepends = [], st_provides = [], st_field = None\<rparr>"

fun map_field :: "(string \<Rightarrow> string) \<Rightarrow> status_field \<Rightarrow> stanza \<Rightarrow> stanza" where
  "map_field f FName st = st\<lparr>st_name := f (st_name st)\<rparr>"
| "map_field f FVersion st = st\<lparr>st_version := f (st_version st)\<rparr>"
| "map_field f FStatus st = st\<lparr>st_status := f (st_status st)\<rparr>"
| "map_field f FDepends st = st\<lparr>st_depends := f (st_depends st)\<rparr>"
| "map_field f FPreDepends st = st\<lparr>st_predepends := f (st_predepends st)\<rparr>"
| "map_field f FProvides st = st\<lparr>st_provides := f (st_provides st)\<rparr>"

definition field_of_key :: "string \<Rightarrow> status_field option" where
  "field_of_key key =
     (if key = ''package'' then Some FName
      else if key = ''version'' then Some FVersion
      else if key = ''status'' then Some FStatus
      else if key = ''depends'' then Some FDepends
      else if key = ''pre-depends'' then Some FPreDepends
      else if key = ''provides'' then Some FProvides
      else None)"

definition status_line :: "stanza \<Rightarrow> string \<Rightarrow> stanza" where
  "status_line st line =
     (case strip_prefix '' '' line of
        Some rest \<Rightarrow>
          (case st_field st of
             Some f \<Rightarrow> map_field (\<lambda>v. v @ '' '' @ trim rest) f st
           | None \<Rightarrow> st)
      | None \<Rightarrow>
          (case split_once (CHR '':'') line of
             None \<Rightarrow> st\<lparr>st_field := None\<rparr>
           | Some (key, value) \<Rightarrow>
               (let field = field_of_key (to_ascii_lowercase (trim key));
                    st = (case field of Some f \<Rightarrow> map_field (\<lambda>_. trim value) f st | None \<Rightarrow> st)
                in st\<lparr>st_field := field\<rparr>)))"

definition finish_stanza :: "stanza \<Rightarrow> Package list" where
  "finish_stanza st =
     (if st_name st = [] \<or> \<not> ends_with ''installed'' (trim_end (st_status st)) then []
      else [\<lparr>pkg_name = st_name st, pkg_version = st_version st,
             pkg_depends =
               (if st_predepends st = [] then st_depends st
                else if st_depends st = [] then st_predepends st
                else st_depends st @ '', '' @ st_predepends st),
             pkg_provides = st_provides st\<rparr>])"

definition parse_status :: "string \<Rightarrow> Package list" where
  "parse_status text =
     concat (List.map (\<lambda>stanza. finish_stanza (foldl status_line empty_stanza (lines stanza)))
       (split_blank_line text))"


section \<open>What the check promises\<close>

text \<open>The specification, over sets: which version is installed (the last stanza of a name
  wins), what is provided, and when an alternative is met.\<close>

definition installed_at :: "Package list \<Rightarrow> string \<Rightarrow> string \<Rightarrow> bool" where
  "installed_at pkgs n v \<longleftrightarrow>
     (\<exists>xs p ys. pkgs = xs @ p # ys \<and> pkg_name p = n \<and> pkg_version p = v \<and> n \<notin> pkg_name ` set ys)"

definition provided_at :: "Package list \<Rightarrow> string \<Rightarrow> string \<Rightarrow> bool" where
  "provided_at pkgs n v \<longleftrightarrow>
     (\<exists>p \<in> set pkgs. \<exists>item \<in> set (split_top (pkg_provides p) (CHR '','')). provided_item item = (n, v))"

definition meets :: "Package list \<Rightarrow> string \<Rightarrow> bool" where
  "meets pkgs alt \<longleftrightarrow>
     fst (parse_atom alt) = [] \<or>
     (case snd (parse_atom alt) of
        None \<Rightarrow> (\<exists>v. installed_at pkgs (fst (parse_atom alt)) v) \<or>
                (\<exists>v. provided_at pkgs (fst (parse_atom alt)) v)
      | Some (rel, want) \<Rightarrow>
          (\<exists>v. installed_at pkgs (fst (parse_atom alt)) v \<and> relation_holds v rel want) \<or>
          (\<exists>v. provided_at pkgs (fst (parse_atom alt)) v \<and> v \<noteq> [] \<and> relation_holds v rel want))"

definition unmet :: "Package list \<Rightarrow> Package \<Rightarrow> string \<Rightarrow> bool" where
  "unmet pkgs p grp \<longleftrightarrow>
     p \<in> set pkgs \<and> grp \<in> set (split_top (pkg_depends p) (CHR '','')) \<and>
     (\<forall>alt \<in> set (split_top grp (CHR ''|'')). \<not> meets pkgs alt)"

lemma foldl_foldl_concat:
  "foldl (\<lambda>m p. foldl g m (f p)) z xs = foldl g z (concat (List.map f xs))"
  by (induction xs arbitrary: z) simp_all

lemma installed_map_snoc:
  "installed_map (pkgs @ [p]) = (installed_map pkgs)(pkg_name p \<mapsto> pkg_version p)"
  by (simp add: installed_map_def)

lemma installed_map_Some: "installed_map pkgs n = Some v \<longleftrightarrow> installed_at pkgs n v"
proof (induction pkgs rule: rev_induct)
  case Nil
  show ?case by (simp add: installed_map_def installed_at_def)
next
  case (snoc p pkgs)
  have "installed_at (pkgs @ [p]) n v \<longleftrightarrow>
      (if pkg_name p = n then pkg_version p = v else installed_at pkgs n v)"
  proof (cases "pkg_name p = n")
    case True
    have "ys = []" if "pkgs @ [p] = xs @ q # ys" and "n \<notin> pkg_name ` set ys" for xs q ys
      using that True by (cases ys rule: rev_cases) auto
    then have "installed_at (pkgs @ [p]) n v \<longleftrightarrow> (\<exists>xs q. pkgs @ [p] = xs @ [q] \<and> pkg_name q = n \<and> pkg_version q = v)"
      unfolding installed_at_def by (metis empty_iff image_is_empty list.set(1))
    with True show ?thesis by auto
  next
    case False
    have "installed_at pkgs n v" if "pkgs @ [p] = xs @ q # ys" "pkg_name q = n"
      "pkg_version q = v" "n \<notin> pkg_name ` set ys" for xs q ys
      using that False unfolding installed_at_def by (cases ys rule: rev_cases) auto
    moreover have "installed_at (pkgs @ [p]) n v" if "installed_at pkgs n v"
    proof -
      from that obtain xs q ys where "pkgs = xs @ q # ys" "pkg_name q = n" "pkg_version q = v"
        "n \<notin> pkg_name ` set ys" by (auto simp: installed_at_def)
      then show ?thesis
        using False unfolding installed_at_def
        by (intro exI [of _ xs] exI [of _ q] exI [of _ "ys @ [p]"]) auto
    qed
    ultimately show ?thesis using False unfolding installed_at_def by auto
  qed
  with snoc show ?case by (auto simp: installed_map_snoc)
qed

definition add_provided :: "(string \<Rightarrow> string list option) \<Rightarrow> string \<Rightarrow> (string \<Rightarrow> string list option)" where
  "add_provided m item =
     (let (name, v) = provided_item item
      in m(name \<mapsto> (case m name of Some vs \<Rightarrow> vs @ [v] | None \<Rightarrow> [v])))"

lemma foldl_add_provided:
  "n \<in> dom (foldl add_provided Map.empty items) \<longleftrightarrow> (\<exists>item \<in> set items. fst (provided_item item) = n)"
  "foldl add_provided Map.empty items n = Some vs \<Longrightarrow>
     set vs = {v. \<exists>item \<in> set items. provided_item item = (n, v)}"
proof (induction items arbitrary: vs rule: rev_induct)
  case (snoc item items)
  {
    case 1
    with snoc show ?case by (cases "provided_item item") (auto simp: add_provided_def split: if_splits)
  next
    case 2
    then show ?case
      using snoc.IH
      by (cases "provided_item item") (force simp: add_provided_def split: if_splits option.splits)
  }
qed auto

lemma provides_map_concat:
  "provides_map pkgs = foldl add_provided Map.empty
     (concat (List.map (\<lambda>p. split_top (pkg_provides p) (CHR '','')) pkgs))"
  unfolding provides_map_def add_provided_def [abs_def, symmetric]
  by (rule foldl_foldl_concat)

lemma provides_map_None: "provides_map pkgs n = None \<longleftrightarrow> \<not> (\<exists>v. provided_at pkgs n v)"
proof -
  have "n \<in> dom (provides_map pkgs) \<longleftrightarrow> (\<exists>v. provided_at pkgs n v)"
    unfolding provides_map_concat foldl_add_provided(1) provided_at_def by (force simp: prod_eq_iff)
  then show ?thesis by (auto simp: domIff)
qed

lemma provides_map_Some: "provides_map pkgs n = Some vs \<Longrightarrow> set vs = {v. provided_at pkgs n v}"
  unfolding provides_map_concat provided_at_def by (drule foldl_add_provided(2)) auto

lemma provided_ex:
  "(\<exists>v. provided_at pkgs n v \<and> Q v) \<longleftrightarrow>
     (case provides_map pkgs n of None \<Rightarrow> False | Some vs \<Rightarrow> \<exists>v \<in> set vs. Q v)"
  by (auto simp: provides_map_None dest: provides_map_Some split: option.splits)

lemma satisfied_meets: "satisfied alt (installed_map pkgs) (provides_map pkgs) \<longleftrightarrow> meets pkgs alt"
proof -
  obtain n c where nc: "parse_atom alt = (n, c)" by (cases "parse_atom alt")
  have ne: "provides_map pkgs n \<noteq> Some []"
    using provides_map_Some [of pkgs n "[]"] provides_map_None [of pkgs n] by auto
  have m: "meets pkgs alt \<longleftrightarrow> n = [] \<or>
     (case c of
        None \<Rightarrow> installed_map pkgs n \<noteq> None \<or> provides_map pkgs n \<noteq> None
      | Some (rel, want) \<Rightarrow>
          (\<exists>v. installed_map pkgs n = Some v \<and> relation_holds v rel want) \<or>
          (case provides_map pkgs n of None \<Rightarrow> False
           | Some vs \<Rightarrow> \<exists>v \<in> set vs. v \<noteq> [] \<and> relation_holds v rel want))"
    using installed_map_Some [of pkgs n]
    by (auto simp: meets_def nc provided_ex provides_map_None split: option.split)
  show ?thesis
    unfolding m
    by (cases "installed_map pkgs n"; cases "provides_map pkgs n"; cases c)
      (auto simp: satisfied_def nc list_ex_iff)
qed

lemma split_top_loop_trim: "p \<in> set (split_top_loop sep d piece s) \<Longrightarrow> trim p = p"
  by (induction sep d piece s rule: split_top_loop.induct) (auto split: if_splits)

lemma split_top_trim: "p \<in> set (split_top s sep) \<Longrightarrow> trim p = p \<and> p \<noteq> []"
  by (auto simp: split_top_def dest: split_top_loop_trim)

definition report :: "Package list \<Rightarrow> Package \<Rightarrow> string \<Rightarrow> Unsatisfied" where
  "report pkgs p grp =
     \<lparr>un_package = pkg_name p, un_package_version = pkg_version p, un_required = grp,
      un_installed = installed_map pkgs
        (fst (parse_atom (case split_top grp (CHR ''|'') of a # _ \<Rightarrow> a | [] \<Rightarrow> [])))\<rparr>"

lemma set_check_group:
  assumes "p \<in> set pkgs" and "grp \<in> set (split_top (pkg_depends p) (CHR '',''))"
  shows "set (check_group (installed_map pkgs) (provides_map pkgs) p grp) =
    (if unmet pkgs p grp then {report pkgs p grp} else {})"
  using assms split_top_trim [OF assms(2)]
  by (auto simp: check_group_def Let_def satisfied_meets list_ex_iff unmet_def report_def)

lemma comparator_unsatisfied_order: "comparator unsatisfied_order"
  unfolding unsatisfied_order_def [abs_def]
  by (rule comparator_then; rule comparator_key)

interpretation unsatisfied_order: comparator unsatisfied_order
  by (rule comparator_unsatisfied_order)

section \<open>Properties\<close>

text \<open>C5. \<open>unsatisfied\<close> reports exactly the hard dependency groups no installed or
  provided version meets (bare \<open>Provides\<close> meeting only unversioned dependencies), each as the
  declared group with the version installed for its first alternative, and the list is
  ordered by package and then group.\<close>

theorem unsatisfied_spec:
  "set (unsatisfied pkgs) = {report pkgs p grp | p grp. unmet pkgs p grp} \<and>
   sorted_cmp unsatisfied_order (unsatisfied pkgs)"
proof
  have "set (unsatisfied pkgs) =
      (\<Union>p \<in> set pkgs. \<Union>grp \<in> set (split_top (pkg_depends p) (CHR '','')).
         set (check_group (installed_map pkgs) (provides_map pkgs) p grp))"
    by (simp add: unsatisfied_def Let_def)
  also have "\<dots> = (\<Union>p \<in> set pkgs. \<Union>grp \<in> set (split_top (pkg_depends p) (CHR '','')).
         (if unmet pkgs p grp then {report pkgs p grp} else {}))"
    by (intro SUP_cong refl set_check_group)
  also have "\<dots> = {report pkgs p grp | p grp. unmet pkgs p grp}"
    by (auto simp: unmet_def split: if_splits)
  finally show "set (unsatisfied pkgs) = {report pkgs p grp | p grp. unmet pkgs p grp}" .
  show "sorted_cmp unsatisfied_order (unsatisfied pkgs)"
    by (simp add: unsatisfied_def Let_def unsatisfied_order.sorted_sort_by)
qed

text \<open>C17. The version order is a total preorder: reflexive, \<open>Less\<close> one way exactly when
  \<open>Greater\<close> the other, and transitive. Sorting and the five relations are therefore
  consistent.\<close>

theorem compare_versions_total_preorder:
  "compare_versions a a = Equal \<and>
   (compare_versions a b = Less \<longleftrightarrow> compare_versions b a = Greater) \<and>
   (compare_versions a b \<noteq> Greater \<longrightarrow> compare_versions b c \<noteq> Greater \<longrightarrow> compare_versions a c \<noteq> Greater)"
  using dpkg.compare_refl dpkg.compare_less_iff dpkg.compare_trans by blast

theorem compare_versions_total_preorder_witness:
  "compare_versions ''1.0~rc1'' ''1.0'' \<noteq> Greater \<and> compare_versions ''1.0'' ''2:0.9'' \<noteq> Greater \<and>
   compare_versions ''1.0~rc1'' ''2:0.9'' \<noteq> Greater"
proof -
  have 1: "compare_versions ''1.0~rc1'' ''1.0'' \<noteq> Greater" by code_simp
  have 2: "compare_versions ''1.0'' ''2:0.9'' \<noteq> Greater" by code_simp
  show ?thesis
    using 1 2 compare_versions_total_preorder [of "''1.0~rc1''" "''1.0''" "''2:0.9''"] by blast
qed

text \<open>The tilde rule.\<close>

lemma get_append: "get (s @ t) i = (if i < length s then get s i else get t (i - length s))"
  by (auto simp: get_def nth_append)

lemma compare_nondigit_tilde: "compare_nondigit (s @ CHR ''~'' # r) s = Less"
proof -
  have "[0 ..< length s + Suc (length r)] =
      [0 ..< length s] @ length s # [Suc (length s) ..< length s + Suc (length r)]"
    using upt_add_eq_append [of 0 "length s" "Suc (length r)"]
    by (simp add: upt_conv_Cons del: upt_Suc)
  moreover have "foldr (\<lambda>i z. and_then (cmp (ordinal (get (s @ CHR ''~'' # r) i)) (ordinal (get s i))) z)
      [0 ..< length s] x = x" for x
    by (rule trans [OF foldr_cong [OF refl refl, where g = "\<lambda>i z. z"]]) (auto simp: get_append)
  ultimately show ?thesis
    by (simp add: compare_nondigit_def get_append cmp_def) (simp add: get_def ordinal_def cmp_def)
qed

lemma compare_part_tilde: "compare_part (s @ CHR ''~'' # r) s = Less"
proof (induction "length s" arbitrary: s rule: less_induct)
  case less
  show ?case
  proof (cases "\<exists>c \<in> set s. is_digit c")
    case False
    then have s: "takeWhile (\<lambda>c. \<not> is_digit c) s = s" by simp
    have sr: "takeWhile (\<lambda>c. \<not> is_digit c) (s @ CHR ''~'' # r) =
        s @ CHR ''~'' # takeWhile (\<lambda>c. \<not> is_digit c) r"
      using False by (subst takeWhile_append2) (auto simp: is_digit_def)
    show ?thesis
      unfolding compare_part_runs [of "s @ CHR ''~'' # r" s] s sr by (simp add: compare_nondigit_tilde)
  next
    case True
    then obtain c where c: "c \<in> set s" "is_digit c" by blast
    define t where "t = dropWhile (\<lambda>c. \<not> is_digit c) s"
    have n: "takeWhile (\<lambda>c. \<not> is_digit c) (s @ CHR ''~'' # r) = takeWhile (\<lambda>c. \<not> is_digit c) s"
      using c by (simp add: takeWhile_append1)
    have t: "dropWhile (\<lambda>c. \<not> is_digit c) (s @ CHR ''~'' # r) = t @ CHR ''~'' # r"
      using c by (simp add: dropWhile_append1 t_def)
    have tilde: "\<not> is_digit (CHR ''~'')" by (simp add: is_digit_def)
    have d: "takeWhile is_digit (t @ CHR ''~'' # r) = takeWhile is_digit t"
      by (induction t) (simp_all add: tilde)
    have k: "skip_runs (s @ CHR ''~'' # r) = skip_runs s @ CHR ''~'' # r"
      unfolding skip_runs_def t t_def [symmetric] by (induction t) (simp_all add: tilde)
    have "s \<noteq> []" using c by auto
    then have "compare_part (skip_runs (s @ CHR ''~'' # r)) (skip_runs s) = Less"
      unfolding k by (rule less [OF length_skip_runs_less])
    moreover have "part_head (s @ CHR ''~'' # r) = part_head s"
      by (simp add: part_head_def n t d flip: t_def)
    moreover have "compare_head h h = Equal" for h
      by (rule comparator.compare_refl [OF comparator_compare_head])
    ultimately show ?thesis by (simp add: compare_part_unfold [of "s @ CHR ''~'' # r" s])
  qed
qed

text \<open>A tilde sorts before the end of the string: appending \<open>~\<close> and anything to a
  version part makes it strictly smaller (so \<open>1.0~rc1\<close> precedes \<open>1.0\<close>), and digit runs
  compare as the numbers they spell, leading zeros insignificant.\<close>

theorem compare_part_dpkg_rules:
  "compare_part (s @ CHR ''~'' # r) s = Less \<and>
   compare_numeric (show_pad v m) (show_pad w n) = cmp m n"
  by (simp add: compare_part_tilde compare_numeric_dec_val show_pad_digits)


end
