(* ===== verification/Version.thy ===== *)
theory Version
  imports Strings
begin

text \<open>
  \<open>crates/core/src/version.rs\<close>: how an upstream tag is spelled and the version read out of
  it. \<open>semver::Version::parse\<close> is not part of the repository: it is the parameter
  \<open>version_parse\<close>, from text to a parsed version, \<open>None\<close> where the crate returns an error.
  \<open>tag_text\<close> is the text the code hands it.
\<close>

section \<open>Data\<close>

text \<open>The public fields of \<open>semver::Version\<close>; \<open>pre\<close> and \<open>build\<close> are empty when absent.\<close>

record Version =
  v_major :: nat
  v_minor :: nat
  v_patch :: nat
  v_pre :: string
  v_build :: string

datatype version_error = InvalidVersion string

record TagShape =
  shape_namespace :: "string option"
  shape_prefix :: "char option"
  shape_libre :: bool

section \<open>Operations\<close>

definition LIBRE_SUFFIX :: string where
  "LIBRE_SUFFIX = ''-gnu''"

definition RELEASE_PREFIXES :: "char list" where
  "RELEASE_PREFIXES = [CHR ''v'', CHR ''n'']"

fun split_prefix :: "string \<Rightarrow> char option \<times> string" where
  "split_prefix (p # d # leaf) =
     (if p \<in> set RELEASE_PREFIXES \<and> is_digit d then (Some p, d # leaf) else (None, p # d # leaf))"
| "split_prefix leaf = (None, leaf)"

definition split_core :: "string \<Rightarrow> string \<times> string" where
  "split_core s =
     (case find_char (\<lambda>c. c = CHR ''-'' \<or> c = CHR ''+'') s of
        Some i \<Rightarrow> (take i s, drop i s)
      | None \<Rightarrow> (s, []))"

definition normalize_component :: "string \<Rightarrow> string" where
  "normalize_component c =
     (if c = [] \<or> \<not> all_digits c then c
      else let trimmed = dropWhile (\<lambda>d. d = CHR ''0'') c
           in if trimmed = [] then ''0'' else trimmed)"

definition normalize_core :: "string \<Rightarrow> string" where
  "normalize_core core = join ''.'' (List.map normalize_component (split (CHR ''.'') core))"

text \<open>The text handed to \<open>Version::parse\<close>: namespace, release prefix and \<open>-gnu\<close> removed,
  the core normalised and padded to three components.\<close>

definition tag_text :: "string \<Rightarrow> string" where
  "tag_text s =
     (let stripped = last (split (CHR ''/'') s);
          stripped = snd (split_prefix stripped);
          stripped = (case strip_suffix LIBRE_SUFFIX stripped of Some r \<Rightarrow> r | None \<Rightarrow> stripped);
          (core, rest) = split_core stripped;
          core = normalize_core core;
          padded = (if length (split (CHR ''.'') core) = 2 then core @ ''.0'' else core)
      in padded @ rest)"

definition parse_tag :: "(string \<Rightarrow> Version option) \<Rightarrow> string \<Rightarrow> version_error + Version" where
  "parse_tag version_parse s = ok_or (InvalidVersion s) (version_parse (tag_text s))"

definition tag_shape :: "string \<Rightarrow> TagShape" where
  "tag_shape tag =
     (let (namespace, leaf) = (case rsplit_once (CHR ''/'') tag of
            Some (ns, leaf) \<Rightarrow> (Some ns, leaf) | None \<Rightarrow> (None, tag))
      in \<lparr>shape_namespace = namespace, shape_prefix = fst (split_prefix leaf),
          shape_libre = ends_with LIBRE_SUFFIX leaf\<rparr>)"

definition shape_matches :: "TagShape \<Rightarrow> string \<Rightarrow> bool" where
  "shape_matches shape tag \<longleftrightarrow> tag_shape tag = shape"

definition is_req_op :: "char \<Rightarrow> bool" where
  "is_req_op c \<longleftrightarrow> c \<in> set ''=><^~''"

definition normalize_comparator :: "string \<Rightarrow> string" where
  "normalize_comparator text0 =
     (let trimmed = trim text0;
          rest = dropWhile is_req_op trimmed;
          op = take (length trimmed - length rest) trimmed;
          version = drop (length trimmed - length rest) trimmed;
          version = trim_start version;
          (core, suffix) = split_core (snd (split_prefix version))
      in op @ normalize_core core @ suffix)"

definition normalize_req :: "string \<Rightarrow> string" where
  "normalize_req req = join '', '' (List.map normalize_comparator (split (CHR '','') req))"

section \<open>Lemmas\<close>

lemma dropWhile_zeros_pad:
  "dropWhile (\<lambda>d. d = CHR ''0'') (replicate k (CHR ''0'') @ s) = dropWhile (\<lambda>d. d = CHR ''0'') s"
  by (induction k) simp_all

lemma hd_show_nat: "0 < n \<Longrightarrow> hd (show_nat n) \<noteq> CHR ''0''"
proof (induction n rule: show_nat.induct)
  case (1 n)
  show ?case
  proof (cases "n < 10")
    case True
    have "digit_val (digit_char n) = n" using True by simp
    then have "digit_char n \<noteq> CHR ''0''" using 1(2) by (auto simp: digit_val_def)
    with True show ?thesis by (auto simp: show_nat.simps [of n])
  next
    case False
    with 1 show ?thesis by (simp add: show_nat.simps [of n])
  qed
qed

lemma show_nat_0 [simp]: "show_nat 0 = ''0''"
  by (subst show_nat.simps) (simp, code_simp)

lemma dropWhile_zeros_show_nat:
  "dropWhile (\<lambda>d. d = CHR ''0'') (show_nat n) = (if n = 0 then [] else show_nat n)"
proof (cases "n = 0")
  case False
  then show ?thesis using hd_show_nat [of n] by (cases "show_nat n") auto
qed simp

lemma normalize_component_pad: "normalize_component (show_pad w n) = show_nat n"
proof -
  have "show_pad w n \<noteq> []" by (simp add: show_pad_def pad_left_def)
  moreover have "dropWhile (\<lambda>d. d = CHR ''0'') (show_pad w n) = (if n = 0 then [] else show_nat n)"
    by (simp add: show_pad_def pad_left_def dropWhile_zeros_pad dropWhile_zeros_show_nat)
  ultimately show ?thesis
    by (simp add: normalize_component_def show_pad_digits Let_def del: dropWhile_eq_Nil_conv)
qed

lemma normalize_component_0: "normalize_component ''0'' = ''0''"
  by (simp add: normalize_component_def all_digits_def is_digit_def Let_def)

lemma no_dot_digits: "all_digits s \<Longrightarrow> CHR ''.'' \<notin> set s"
  by (auto simp: all_digits_iff is_digit_def)

lemma normalize_component_no_dot: "CHR ''.'' \<notin> set c \<Longrightarrow> CHR ''.'' \<notin> set (normalize_component c)"
  by (auto simp: normalize_component_def Let_def dest: set_dropWhileD)

lemma normalize_component_idem [simp]:
  "normalize_component (normalize_component c) = normalize_component c"
proof (cases "c = [] \<or> \<not> all_digits c")
  case True
  then show ?thesis by (simp add: normalize_component_def)
next
  case False
  define t where "t = dropWhile (\<lambda>d. d = CHR ''0'') c"
  have t: "all_digits t" using False by (auto simp: t_def all_digits_iff dest: set_dropWhileD)
  have idem: "dropWhile (\<lambda>d. d = CHR ''0'') t = t" by (simp add: t_def)
  show ?thesis
  proof (cases "t = []")
    case True
    then have "normalize_component c = ''0''" using False by (simp add: normalize_component_def flip: t_def)
    then show ?thesis by (simp add: normalize_component_0)
  next
    case ne: False
    then have "normalize_component c = t" using False by (simp add: normalize_component_def flip: t_def)
    then show ?thesis using ne t idem by (simp add: normalize_component_def)
  qed
qed

lemma split_normalize_core:
  "split (CHR ''.'') (normalize_core core) = List.map normalize_component (split (CHR ''.'') core)"
  unfolding normalize_core_def
  by (rule split_join) (auto intro!: normalize_component_no_dot dest: split_pieces_no_sep)

lemma normalize_core_idem: "normalize_core (normalize_core core) = normalize_core core"
  unfolding normalize_core_def [of "normalize_core core"] split_normalize_core
  by (simp add: normalize_core_def comp_def)

lemma last_split_namespace: "CHR ''/'' \<notin> set leaf \<Longrightarrow> last (split (CHR ''/'') (ns @ CHR ''/'' # leaf)) = leaf"
proof (induction ns)
  case (Cons x ns)
  have "length (split (CHR ''/'') (ns @ CHR ''/'' # leaf)) \<noteq> 1" for ns
    by (induction ns) (auto split: list.splits)
  moreover have "length (split (CHR ''/'') (ns @ CHR ''/'' # leaf)) \<noteq> 0" by simp
  ultimately have "length (tl (split (CHR ''/'') (ns @ CHR ''/'' # leaf))) \<noteq> 0"
    by (metis One_nat_def Suc_pred diff_0_eq_0 diff_self_eq_0 length_tl neq0_conv)
  then have "tl (split (CHR ''/'') (ns @ CHR ''/'' # leaf)) \<noteq> []" by (metis list.size(3))
  with Cons show ?case
    by (cases "split (CHR ''/'') (ns @ CHR ''/'' # leaf)") (auto split: if_splits)
qed (simp add: split_no_sep)


lemma rsplit_once_namespace:
  "CHR ''/'' \<notin> set leaf \<Longrightarrow> rsplit_once (CHR ''/'') (ns @ CHR ''/'' # leaf) = Some (ns, leaf)"
  by (simp add: rsplit_once_Some)

text \<open>The parts of a release tag: an optional namespace, an optional prefix letter, a core of
  zero-padded numbers, a prerelease or build remainder and the Linux-libre marker.\<close>

definition tag_namespace :: "string option \<Rightarrow> string" where
  "tag_namespace ns = (case ns of None \<Rightarrow> [] | Some n \<Rightarrow> n @ ''/'')"

definition tag_prefix :: "char option \<Rightarrow> string" where
  "tag_prefix p = (case p of None \<Rightarrow> [] | Some c \<Rightarrow> [c])"

definition padded_core :: "(nat \<times> nat) list \<Rightarrow> string" where
  "padded_core ns = join ''.'' (List.map (\<lambda>(w, n). show_pad w n) ns)"

definition plain_core :: "nat list \<Rightarrow> string" where
  "plain_core ns = join ''.'' (List.map show_nat ns)"

definition tag_leaf :: "char option \<Rightarrow> (nat \<times> nat) list \<Rightarrow> string \<Rightarrow> bool \<Rightarrow> string" where
  "tag_leaf p core rest libre =
     tag_prefix p @ padded_core core @ rest @ (if libre then LIBRE_SUFFIX else [])"

definition release_rest :: "string \<Rightarrow> bool \<Rightarrow> bool" where
  "release_rest rest libre \<longleftrightarrow>
     (rest = [] \<or> hd rest \<in> {CHR ''-'', CHR ''+''}) \<and> CHR ''/'' \<notin> set rest \<and>
     (libre \<or> \<not> ends_with LIBRE_SUFFIX rest)"

lemma set_join: "set (join sep ps) \<subseteq> set sep \<union> (\<Union>p \<in> set ps. set p)"
  by (induction sep ps rule: join.induct) auto

lemma padded_core_chars: "c \<in> set (padded_core ns) \<Longrightarrow> is_digit c \<or> c = CHR ''.''"
  using set_join [of "''.''" "List.map (\<lambda>(w, n). show_pad w n) ns"] show_pad_digits
  by (fastforce simp: padded_core_def all_digits_iff)

lemma padded_core_hd: "core \<noteq> [] \<Longrightarrow> \<exists>d r. padded_core core = d # r \<and> is_digit d"
proof -
  assume "core \<noteq> []"
  then obtain w n ns where core: "core = (w, n) # ns" by (cases core) auto
  obtain d r where s: "show_pad w n = d # r" by (cases "show_pad w n") (auto simp: show_pad_def pad_left_def)
  then have "is_digit d" using show_pad_digits [of w n] by (simp add: all_digits_def)
  with s core show ?thesis by (cases ns) (auto simp: padded_core_def)
qed

lemma normalize_padded_core: "core \<noteq> [] \<Longrightarrow> normalize_core (padded_core core) = plain_core (List.map snd core)"
proof -
  assume "core \<noteq> []"
  then have "split (CHR ''.'') (padded_core core) = List.map (\<lambda>(w, n). show_pad w n) core"
    unfolding padded_core_def by (intro split_join) (auto simp: no_dot_digits show_pad_digits)
  then show ?thesis
    by (simp add: normalize_core_def plain_core_def comp_def normalize_component_pad split_def)
qed

lemma length_split_plain_core: "ns \<noteq> [] \<Longrightarrow> length (split (CHR ''.'') (plain_core ns)) = length ns"
  unfolding plain_core_def by (subst split_join) (auto simp: no_dot_digits show_nat_digits)

lemma split_prefix_leaf:
  assumes "core \<noteq> []" and "p \<in> {None, Some (CHR ''v''), Some (CHR ''n'')}"
  shows "split_prefix (tag_leaf p core rest libre) = (p, tag_leaf None core rest libre)"
proof -
  obtain d r where d: "padded_core core = d # r" "is_digit d" using padded_core_hd assms(1) by blast
  then have "d \<notin> set RELEASE_PREFIXES" by (auto simp: RELEASE_PREFIXES_def is_digit_def)
  then have "split_prefix (d # x) = (None, d # x)" for x by (cases x) auto
  with assms d show ?thesis by (auto simp: tag_leaf_def tag_prefix_def RELEASE_PREFIXES_def)
qed

lemma ends_with_libre_rest:
  assumes "\<forall>c \<in> set core. is_digit c \<or> c = CHR ''.''" and "ends_with LIBRE_SUFFIX (core @ rest)"
    and "rest = [] \<or> hd rest \<in> {CHR ''-'', CHR ''+''}"
  shows "ends_with LIBRE_SUFFIX rest"
proof -
  obtain r where "core @ rest = r @ LIBRE_SUFFIX" using assms(2) by (auto simp: ends_with_iff)
  then obtain us where "core = r @ us \<and> us @ rest = LIBRE_SUFFIX \<or> core @ us = r \<and> rest = us @ LIBRE_SUFFIX"
    by (auto simp: append_eq_append_conv2)
  then show ?thesis
  proof
    assume *: "core = r @ us \<and> us @ rest = LIBRE_SUFFIX"
    have "us = []"
    proof (rule ccontr)
      assume "us \<noteq> []"
      with * have "CHR ''-'' \<in> set us" by (cases us) (auto simp: LIBRE_SUFFIX_def)
      moreover have "\<forall>c \<in> set us. is_digit c \<or> c = CHR ''.''" using * assms(1) by auto
      ultimately show False by (force simp: is_digit_def)
    qed
    with * show ?thesis by (auto simp: ends_with_iff)
  qed (auto simp: ends_with_iff)
qed

lemma strip_libre_leaf:
  assumes "core \<noteq> []" and "release_rest rest libre"
  shows "(case strip_suffix LIBRE_SUFFIX (tag_leaf None core rest libre) of Some r \<Rightarrow> r
           | None \<Rightarrow> tag_leaf None core rest libre) = padded_core core @ rest"
proof (cases libre)
  case True
  then have *: "strip_suffix LIBRE_SUFFIX (tag_leaf None core rest libre) = Some (padded_core core @ rest)"
    by (simp add: tag_leaf_def tag_prefix_def)
  show ?thesis unfolding * option.case ..
next
  case False
  then have "\<not> ends_with LIBRE_SUFFIX (padded_core core @ rest)"
    using ends_with_libre_rest [of "padded_core core" rest] padded_core_chars assms(2)
    by (auto simp: release_rest_def)
  with False show ?thesis by (simp add: tag_leaf_def tag_prefix_def strip_suffix_def)
qed

lemma split_core_padded:
  assumes "rest = [] \<or> hd rest \<in> {CHR ''-'', CHR ''+''}"
  shows "split_core (padded_core core @ rest) = (padded_core core, rest)"
proof -
  have no: "\<not> (c = CHR ''-'' \<or> c = CHR ''+'')" if "c \<in> set (padded_core core)" for c
    using padded_core_chars [OF that] by (auto simp: is_digit_def)
  show ?thesis
  proof (cases rest)
    case Nil
    then have "find_char (\<lambda>c. c = CHR ''-'' \<or> c = CHR ''+'') (padded_core core @ rest) = None"
      using no by (auto simp: find_char_None)
    then show ?thesis by (simp add: split_core_def Nil)
  next
    case (Cons x xs)
    then have "find_char (\<lambda>c. c = CHR ''-'' \<or> c = CHR ''+'') (padded_core core @ rest) =
        Some (length (padded_core core))"
      using no assms unfolding find_char_Some by (auto simp: nth_append)
    then show ?thesis by (simp add: split_core_def)
  qed
qed

lemma tag_leaf_no_slash:
  assumes "release_rest rest libre" and "p \<in> {None, Some (CHR ''v''), Some (CHR ''n'')}"
  shows "CHR ''/'' \<notin> set (tag_leaf p core rest libre)"
proof -
  have "CHR ''/'' \<notin> set (padded_core core)" using padded_core_chars by (fastforce simp: is_digit_def)
  with assms show ?thesis by (auto simp: tag_leaf_def tag_prefix_def release_rest_def LIBRE_SUFFIX_def)
qed

lemma last_split_tag:
  "CHR ''/'' \<notin> set leaf \<Longrightarrow> last (split (CHR ''/'') (tag_namespace ns @ leaf)) = leaf"
  by (cases ns) (auto simp: tag_namespace_def last_split_namespace split_no_sep)

lemma split_plain_core_2: "length ns = 2 \<Longrightarrow> plain_core ns @ ''.0'' = plain_core (ns @ [0])"
  by (cases ns; cases "tl ns") (auto simp: plain_core_def)

section \<open>Properties\<close>

text \<open>Every spelling of a release names one version: whatever the namespace, the release
  letter, the zero padding of each component and the Linux-libre marker, \<open>parse_tag\<close> reads
  the version written plainly, a two-component core with a patch of zero and the
  prerelease or build remainder untouched.\<close>

theorem parse_tag_spelling:
  assumes "length core \<in> {2, 3}" and "p \<in> {None, Some (CHR ''v''), Some (CHR ''n'')}"
    and "release_rest rest libre"
  shows "parse_tag version_parse (tag_namespace ns @ tag_leaf p core rest libre) =
    ok_or (InvalidVersion (tag_namespace ns @ tag_leaf p core rest libre))
      (version_parse (plain_core (take 3 (List.map snd core @ [0])) @ rest))"
proof -
  have ne: "core \<noteq> []" using assms(1) by auto
  have r: "rest = [] \<or> hd rest \<in> {CHR ''-'', CHR ''+''}" using assms(3) by (simp add: release_rest_def)
  have pad: "(if length (split (CHR ''.'') (plain_core (List.map snd core))) = 2
      then plain_core (List.map snd core) @ ''.0'' else plain_core (List.map snd core)) =
      plain_core (take 3 (List.map snd core @ [0]))"
    using assms(1) ne by (auto simp: length_split_plain_core split_plain_core_2)
  have "tag_text (tag_namespace ns @ tag_leaf p core rest libre) =
      plain_core (take 3 (List.map snd core @ [0])) @ rest"
    unfolding tag_text_def Let_def last_split_tag [OF tag_leaf_no_slash [OF assms(3,2)]]
      split_prefix_leaf [OF ne assms(2)] snd_conv strip_libre_leaf [OF ne assms(3)]
      split_core_padded [OF r] prod.case normalize_padded_core [OF ne] pad ..
  then show ?thesis by (simp add: parse_tag_def)
qed

theorem parse_tag_spelling_witness:
  "\<forall>vp. parse_tag vp ''sources/v2026.04-gnu'' = ok_or (InvalidVersion ''sources/v2026.04-gnu'') (vp ''2026.4.0'')"
proof
  fix vp
  have "release_rest [] True" by (simp add: release_rest_def)
  from parse_tag_spelling [of "[(4, 2026), (2, 4)]" "Some (CHR ''v'')" "[]" True vp "Some ''sources''", OF _ _ this]
  have "parse_tag vp (tag_namespace (Some ''sources'') @ tag_leaf (Some (CHR ''v'')) [(4, 2026), (2, 4)] [] True) =
    ok_or (InvalidVersion (tag_namespace (Some ''sources'') @ tag_leaf (Some (CHR ''v'')) [(4, 2026), (2, 4)] [] True))
      (vp (plain_core (take 3 (List.map snd [(4, 2026), (2, 4)] @ [0])) @ []))"
    by simp
  moreover have "tag_namespace (Some ''sources'') @ tag_leaf (Some (CHR ''v'')) [(4, 2026), (2, 4)] [] True =
      ''sources/v2026.04-gnu''" by code_simp
  moreover have "plain_core (take 3 (List.map snd [(4::nat, 2026), (2, 4)] @ [0])) @ [] = ''2026.4.0''"
    by code_simp
  ultimately show "parse_tag vp ''sources/v2026.04-gnu'' = ok_or (InvalidVersion ''sources/v2026.04-gnu'') (vp ''2026.4.0'')"
    by simp
qed

text \<open>The shape of a release tag is exactly its namespace, its release letter and the
  Linux-libre marker, so two release tags match whatever their versions and component
  counts when these three agree, and never otherwise.\<close>

theorem tag_shape_release:
  assumes "core \<noteq> []" and "p \<in> {None, Some (CHR ''v''), Some (CHR ''n'')}" and "release_rest rest libre"
    and "core' \<noteq> []" and "p' \<in> {None, Some (CHR ''v''), Some (CHR ''n'')}" and "release_rest rest' libre'"
  shows "shape_matches (tag_shape (tag_namespace ns @ tag_leaf p core rest libre))
           (tag_namespace ns' @ tag_leaf p' core' rest' libre') \<longleftrightarrow>
         ns = ns' \<and> p = p' \<and> libre = libre'"
proof -
  have shape: "tag_shape (tag_namespace ns @ tag_leaf p core rest libre) =
      \<lparr>shape_namespace = ns, shape_prefix = p, shape_libre = libre\<rparr>"
    if ne: "core \<noteq> []" and p: "p \<in> {None, Some (CHR ''v''), Some (CHR ''n'')}" and r: "release_rest rest libre"
    for ns p core rest libre
  proof -
    have "ends_with LIBRE_SUFFIX (tag_leaf p core rest libre) \<longleftrightarrow> libre"
    proof (cases libre)
      case True
      then show ?thesis by (auto simp: tag_leaf_def ends_with_iff)
    next
      case False
      have "ends_with LIBRE_SUFFIX rest" if "ends_with LIBRE_SUFFIX (tag_leaf p core rest libre)"
      proof (cases p)
        case None
        with that False r padded_core_chars show ?thesis
          using ends_with_libre_rest [of "padded_core core" rest]
          by (auto simp: tag_leaf_def tag_prefix_def release_rest_def)
      next
        case (Some c)
        then have "ends_with LIBRE_SUFFIX (c # padded_core core @ rest)"
          using that False by (simp add: tag_leaf_def tag_prefix_def)
        then have "ends_with LIBRE_SUFFIX (padded_core core @ rest)"
          using Some p unfolding ends_with_iff LIBRE_SUFFIX_def by (auto simp: Cons_eq_append_conv)
        with r padded_core_chars show ?thesis
          using ends_with_libre_rest [of "padded_core core" rest] by (auto simp: release_rest_def)
      qed
      with False r show ?thesis by (auto simp: release_rest_def)
    qed
    moreover have "(case rsplit_once (CHR ''/'') (tag_namespace ns @ tag_leaf p core rest libre) of
        Some (n, leaf) \<Rightarrow> (Some n, leaf) | None \<Rightarrow> (None, tag_namespace ns @ tag_leaf p core rest libre)) =
        (ns, tag_leaf p core rest libre)"
    proof (cases ns)
      case None
      have *: "rsplit_once (CHR ''/'') (tag_leaf p core rest libre) = None"
        unfolding rsplit_once_None by (rule tag_leaf_no_slash [OF r p])
      show ?thesis by (simp add: None tag_namespace_def *)
    next
      case (Some n)
      have *: "rsplit_once (CHR ''/'') (n @ CHR ''/'' # tag_leaf p core rest libre) =
          Some (n, tag_leaf p core rest libre)"
        by (rule rsplit_once_namespace) (rule tag_leaf_no_slash [OF r p])
      show ?thesis by (simp add: Some tag_namespace_def *)
    qed
    ultimately show ?thesis
      using split_prefix_leaf [OF ne p] by (simp add: tag_shape_def)
  qed
  show ?thesis
    unfolding shape_matches_def shape [OF assms(1-3)] shape [OF assms(4-6)] by auto
qed

theorem tag_shape_release_witness:
  "shape_matches (tag_shape ''v7.1.6'') ''v7.2'' \<and> \<not> shape_matches (tag_shape ''v7.1.6'') ''sources/v7.2-gnu''"
proof -
  have r: "release_rest [] False" "release_rest [] True"
    by (simp_all add: release_rest_def ends_with_def LIBRE_SUFFIX_def)
  have t: "''v7.1.6'' = tag_namespace None @ tag_leaf (Some (CHR ''v'')) [(1, 7), (1, 1), (1, 6)] [] False"
    "''v7.2'' = tag_namespace None @ tag_leaf (Some (CHR ''v'')) [(1, 7), (1, 2)] [] False"
    "''sources/v7.2-gnu'' = tag_namespace (Some ''sources'') @ tag_leaf (Some (CHR ''v'')) [(1, 7), (1, 2)] [] True"
    by code_simp+
  show ?thesis
    unfolding t by (subst tag_shape_release tag_shape_release [of _ "Some _"]; simp add: r)+
qed

end
