(* ===== verification/Series.thy ===== *)
theory Series
  imports Version "HOL-Library.Word"
begin

text \<open>
  \<open>crates/core/src/series.rs\<close>: a version-scoped patch series. Its envelopes and per-entry
  ranges, the selection of the patches a version gets, the gates a build runs, the lint
  that finds entries no version can select, and the filename prefix an imported patch gets.

  The \<open>semver\<close> crate is a parameter (\<open>semver_lib\<close>): its two parsers and its matching
  function. The lint's theorem relies on what the crate documents of the five bounding
  operators (\<open>semver_documented\<close>). Reading the TOML manifest is not modelled.
\<close>

section \<open>The semver interface\<close>

datatype Op = Exact | OpGreater | OpGreaterEq | OpLess | OpLessEq | Tilde | Caret | Wildcard

record Comparator =
  c_op :: Op
  c_major :: nat
  c_minor :: "nat option"
  c_patch :: "nat option"
  c_pre :: string

record semver_lib =
  version_parse :: "string \<Rightarrow> Version option"
  req_parse :: "string \<Rightarrow> Comparator list option"
  req_matches :: "Comparator list \<Rightarrow> Version \<Rightarrow> bool"

text \<open>\<open>Version::new\<close>: a release, ordered by its three numbers.\<close>

datatype Release = Release nat nat nat

instantiation Release :: linorder
begin

fun less_eq_Release :: "Release \<Rightarrow> Release \<Rightarrow> bool" where
  "less_eq_Release (Release a b c) (Release x y z) \<longleftrightarrow>
     a < x \<or> a = x \<and> (b < y \<or> b = y \<and> c \<le> z)"

fun less_Release :: "Release \<Rightarrow> Release \<Rightarrow> bool" where
  "less_Release (Release a b c) (Release x y z) \<longleftrightarrow>
     a < x \<or> a = x \<and> (b < y \<or> b = y \<and> c < z)"

instance
proof
  fix x y z :: Release
  show "(x < y) = (x \<le> y \<and> \<not> y \<le> x)" by (cases x; cases y) auto
  show "x \<le> x" by (cases x) auto
  show "x \<le> y \<Longrightarrow> y \<le> z \<Longrightarrow> x \<le> z" by (cases x; cases y; cases z) auto
  show "x \<le> y \<Longrightarrow> y \<le> x \<Longrightarrow> x = y" by (cases x; cases y) auto
  show "x \<le> y \<or> y \<le> x" by (cases x; cases y) auto
qed

end

section \<open>Data\<close>

datatype RangeMatch = ReleaseMatch | CandidateMatch

datatype PatchEntry = Always string | Ranged string string

datatype Scope = Kernel | Ffmpeg | Userspace | Uboot | App | AppPackaging

record PatchSeries =
  applies_to_kernel :: "string option"
  applies_to_uboot :: "string option"
  applies_to_app :: "string option"
  ser_kernel :: "PatchEntry list"
  ser_ffmpeg :: "PatchEntry list"
  ser_userspace :: "PatchEntry list"
  ser_uboot :: "PatchEntry list"
  ser_app :: "PatchEntry list"
  ser_app_packaging :: "PatchEntry list"

datatype series_error =
    VersionError version_error
  | InvalidVersionReq string string
  | KernelOutsideSeriesRange string string string
  | UbootOutsideSeriesRange string string string
  | AppOutsideSeriesRange string string string
  | PatchPrefixNoGap "32 word"

section \<open>Matching a version against a range\<close>

definition patch_series :: "string \<Rightarrow> string option" where
  "patch_series authored = (if authored \<noteq> ''none'' then Some authored else None)"

definition parse_req :: "semver_lib \<Rightarrow> string \<Rightarrow> string \<Rightarrow> series_error + Comparator list" where
  "parse_req L series req = ok_or (InvalidVersionReq series req) (req_parse L (normalize_req req))"

definition matches_range ::
  "semver_lib \<Rightarrow> string \<Rightarrow> string \<Rightarrow> string \<Rightarrow> RangeMatch \<Rightarrow> series_error + bool" where
  "matches_range L series req version mode =
     bind_r (parse_req L series req) (\<lambda>r.
     case parse_tag (version_parse L) version of
       Inl e \<Rightarrow> Inl (VersionError e)
     | Inr ver \<Rightarrow>
         (let ver = (if mode = CandidateMatch then ver\<lparr>v_pre := []\<rparr> else ver)
          in Inr (req_matches L r ver)))"

fun entry_path :: "PatchEntry \<Rightarrow> string" where
  "entry_path (Always p) = p"
| "entry_path (Ranged p k) = p"

fun entry_kernels :: "PatchEntry \<Rightarrow> string option" where
  "entry_kernels (Always p) = None"
| "entry_kernels (Ranged p k) = Some k"

definition selected ::
  "semver_lib \<Rightarrow> PatchEntry \<Rightarrow> string \<Rightarrow> string \<Rightarrow> RangeMatch \<Rightarrow> series_error + bool" where
  "selected L e series version mode =
     (case entry_kernels e of
        None \<Rightarrow> Inr True
      | Some r \<Rightarrow> matches_range L series r version mode)"

fun envelope :: "PatchSeries \<Rightarrow> Scope \<Rightarrow> string option" where
  "envelope s Uboot = applies_to_uboot s"
| "envelope s App = applies_to_app s"
| "envelope s AppPackaging = applies_to_app s"
| "envelope s Kernel = applies_to_kernel s"
| "envelope s Ffmpeg = applies_to_kernel s"
| "envelope s Userspace = applies_to_kernel s"

definition version_req ::
  "semver_lib \<Rightarrow> PatchSeries \<Rightarrow> string \<Rightarrow> Scope \<Rightarrow> series_error + Comparator list option" where
  "version_req L s series scope =
     (case envelope s scope of
        None \<Rightarrow> Inr None
      | Some req \<Rightarrow> bind_r (parse_req L series req) (\<lambda>r. Inr (Some r)))"

definition applies_to_scope ::
  "semver_lib \<Rightarrow> PatchSeries \<Rightarrow> string \<Rightarrow> Scope \<Rightarrow> string \<Rightarrow> RangeMatch \<Rightarrow> series_error + bool" where
  "applies_to_scope L s series scope version mode =
     (case envelope s scope of
        None \<Rightarrow> Inr True
      | Some req \<Rightarrow> matches_range L series req version mode)"

definition applies_to_under ::
  "semver_lib \<Rightarrow> PatchSeries \<Rightarrow> string \<Rightarrow> string \<Rightarrow> RangeMatch \<Rightarrow> series_error + bool" where
  "applies_to_under L s series version mode = applies_to_scope L s series Kernel version mode"

definition applies_to :: "semver_lib \<Rightarrow> PatchSeries \<Rightarrow> string \<Rightarrow> string \<Rightarrow> series_error + bool" where
  "applies_to L s series version = applies_to_under L s series version ReleaseMatch"

fun scope_entries :: "PatchSeries \<Rightarrow> Scope \<Rightarrow> PatchEntry list" where
  "scope_entries s Kernel = ser_kernel s"
| "scope_entries s Ffmpeg = ser_ffmpeg s"
| "scope_entries s Userspace = ser_userspace s"
| "scope_entries s Uboot = ser_uboot s"
| "scope_entries s App = ser_app s"
| "scope_entries s AppPackaging = ser_app_packaging s"

text \<open>\<open>series_for\<close>: \<open>filter_map\<close> collected into a \<open>Result\<close>, so the first error ends it.\<close>

fun select_paths ::
  "semver_lib \<Rightarrow> string \<Rightarrow> string \<Rightarrow> RangeMatch \<Rightarrow> PatchEntry list \<Rightarrow> series_error + string list" where
  "select_paths L series version mode [] = Inr []"
| "select_paths L series version mode (e # es) =
     (case selected L e series version mode of
        Inl err \<Rightarrow> Inl err
      | Inr True \<Rightarrow> bind_r (select_paths L series version mode es) (\<lambda>ps. Inr (entry_path e # ps))
      | Inr False \<Rightarrow> select_paths L series version mode es)"

definition series_for ::
  "semver_lib \<Rightarrow> PatchSeries \<Rightarrow> Scope \<Rightarrow> string \<Rightarrow> string \<Rightarrow> RangeMatch \<Rightarrow> series_error + string list" where
  "series_for L s scope series version mode =
     select_paths L series version mode (scope_entries s scope)"

section \<open>The gates\<close>

definition ensure_applies :: "semver_lib \<Rightarrow> PatchSeries \<Rightarrow> string \<Rightarrow> string \<Rightarrow> series_error + unit" where
  "ensure_applies L s series version =
     (case applies_to_kernel s of
        Some r \<Rightarrow> bind_r (applies_to L s series version) (\<lambda>b.
          if \<not> b then Inl (KernelOutsideSeriesRange series version r) else Inr ())
      | None \<Rightarrow> Inr ())"

definition ensure_applies_uboot :: "semver_lib \<Rightarrow> PatchSeries \<Rightarrow> string \<Rightarrow> string \<Rightarrow> series_error + unit" where
  "ensure_applies_uboot L s series version =
     (case applies_to_uboot s of
        Some r \<Rightarrow> bind_r (matches_range L series r version ReleaseMatch) (\<lambda>b.
          if \<not> b then Inl (UbootOutsideSeriesRange series version r) else Inr ())
      | None \<Rightarrow> Inr ())"

definition ensure_applies_app :: "semver_lib \<Rightarrow> PatchSeries \<Rightarrow> string \<Rightarrow> string \<Rightarrow> series_error + unit" where
  "ensure_applies_app L s series version =
     (case applies_to_app s of
        Some r \<Rightarrow> bind_r (matches_range L series r version ReleaseMatch) (\<lambda>b.
          if \<not> b then Inl (AppOutsideSeriesRange series version r) else Inr ())
      | None \<Rightarrow> Inr ())"

section \<open>Scopes as text\<close>

definition all_scopes :: "Scope list" where
  "all_scopes = [Kernel, Ffmpeg, Userspace, Uboot, App, AppPackaging]"

fun scope_as_str :: "Scope \<Rightarrow> string" where
  "scope_as_str Kernel = ''kernel''"
| "scope_as_str Ffmpeg = ''ffmpeg''"
| "scope_as_str Userspace = ''userspace''"
| "scope_as_str Uboot = ''uboot''"
| "scope_as_str App = ''app''"
| "scope_as_str AppPackaging = ''app_packaging''"

definition scope_from_str :: "string \<Rightarrow> string + Scope" where
  "scope_from_str s =
     (if s = ''kernel'' then Inr Kernel
      else if s = ''ffmpeg'' then Inr Ffmpeg
      else if s = ''userspace'' then Inr Userspace
      else if s = ''uboot'' then Inr Uboot
      else if s = ''app'' then Inr App
      else if s = ''app_packaging'' then Inr AppPackaging
      else Inl s)"

section \<open>The unreachable-entry lint\<close>

record Interval =
  iv_lo :: "Release option"
  iv_hi :: "Release option"

text \<open>The components are \<open>u64\<close>; the increment wraps as release arithmetic does.\<close>

definition succ64 :: "nat \<Rightarrow> nat" where
  "succ64 n = (n + 1) mod 2 ^ 64"

definition bumped :: "Comparator \<Rightarrow> Release" where
  "bumped c =
     (case (c_minor c, c_patch c) of
        (Some minor, Some patch) \<Rightarrow> Release (c_major c) minor (succ64 patch)
      | (Some minor, None) \<Rightarrow> Release (c_major c) (succ64 minor) 0
      | (None, _) \<Rightarrow> Release (succ64 (c_major c)) 0 0)"

definition unwrap_or :: "'a \<Rightarrow> 'a option \<Rightarrow> 'a" where
  "unwrap_or d m = (case m of None \<Rightarrow> d | Some x \<Rightarrow> x)"

definition comparator_at :: "Comparator \<Rightarrow> Release" where
  "comparator_at c = Release (c_major c) (unwrap_or 0 (c_minor c)) (unwrap_or 0 (c_patch c))"

definition comparator_bounds :: "Comparator \<Rightarrow> (Release option \<times> Release option) option" where
  "comparator_bounds c =
     (case c_op c of
        OpGreaterEq \<Rightarrow> Some (Some (comparator_at c), None)
      | OpGreater \<Rightarrow> Some (Some (bumped c), None)
      | OpLess \<Rightarrow> Some (None, Some (comparator_at c))
      | OpLessEq \<Rightarrow> Some (None, Some (bumped c))
      | Exact \<Rightarrow> Some (Some (comparator_at c), Some (bumped c))
      | _ \<Rightarrow> None)"

definition tighten :: "('a \<Rightarrow> 'a \<Rightarrow> 'a) \<Rightarrow> 'a option \<Rightarrow> 'a option \<Rightarrow> 'a option" where
  "tighten f cur new =
     (case new of
        None \<Rightarrow> cur
      | Some l \<Rightarrow> Some (case cur of None \<Rightarrow> l | Some c \<Rightarrow> f c l))"

fun interval_loop :: "Comparator list \<Rightarrow> Interval \<Rightarrow> Interval option" where
  "interval_loop [] iv = Some iv"
| "interval_loop (c # cs) iv =
     (if c_pre c \<noteq> [] then None
      else case comparator_bounds c of
             None \<Rightarrow> None
           | Some (l, h) \<Rightarrow>
               interval_loop cs \<lparr>iv_lo = tighten max (iv_lo iv) l, iv_hi = tighten min (iv_hi iv) h\<rparr>)"

definition interval_of :: "Comparator list \<Rightarrow> Interval option" where
  "interval_of req = interval_loop req \<lparr>iv_lo = None, iv_hi = None\<rparr>"

definition below :: "Release option \<Rightarrow> Release option \<Rightarrow> bool" where
  "below lo hi = (case (lo, hi) of (Some l, Some h) \<Rightarrow> l < h | _ \<Rightarrow> True)"

definition intersects :: "Interval \<Rightarrow> Interval \<Rightarrow> bool" where
  "intersects a b \<longleftrightarrow> below (iv_lo a) (iv_hi b) \<and> below (iv_lo b) (iv_hi a)"

fun dead_entries ::
  "semver_lib \<Rightarrow> string \<Rightarrow> Scope \<Rightarrow> Interval \<Rightarrow> PatchEntry list \<Rightarrow> series_error + (Scope \<times> PatchEntry) list" where
  "dead_entries L series scope env [] = Inr []"
| "dead_entries L series scope env (e # es) =
     (case entry_kernels e of
        None \<Rightarrow> dead_entries L series scope env es
      | Some r \<Rightarrow>
          bind_r (parse_req L series r) (\<lambda>req.
          bind_r (dead_entries L series scope env es) (\<lambda>rest.
          Inr (case interval_of req of
                 Some i \<Rightarrow> if \<not> intersects env i then (scope, e) # rest else rest
               | None \<Rightarrow> rest))))"

fun unreachable_scopes ::
  "semver_lib \<Rightarrow> PatchSeries \<Rightarrow> string \<Rightarrow> Scope list \<Rightarrow> series_error + (Scope \<times> PatchEntry) list" where
  "unreachable_scopes L s series [] = Inr []"
| "unreachable_scopes L s series (scope # scopes) =
     bind_r (version_req L s series scope) (\<lambda>env_req.
     case env_req of
       None \<Rightarrow> unreachable_scopes L s series scopes
     | Some envelope_req \<Rightarrow>
         (case interval_of envelope_req of
            None \<Rightarrow> unreachable_scopes L s series scopes
          | Some env \<Rightarrow>
              bind_r (dead_entries L series scope env (scope_entries s scope)) (\<lambda>dead.
              bind_r (unreachable_scopes L s series scopes) (\<lambda>rest. Inr (dead @ rest)))))"

definition unreachable :: "semver_lib \<Rightarrow> PatchSeries \<Rightarrow> string \<Rightarrow> series_error + (Scope \<times> PatchEntry) list" where
  "unreachable L s series = unreachable_scopes L s series all_scopes"

section \<open>The prefix of an imported patch\<close>

definition basename :: "string \<Rightarrow> string" where
  "basename label = last (split (CHR ''/'') label)"

definition leading_digits :: "string \<Rightarrow> string" where
  "leading_digits base = takeWhile is_digit base"

definition patch_prefix :: "string \<Rightarrow> 32 word option" where
  "patch_prefix label = map_option of_nat (parse_uint u32_max (leading_digits (basename label)))"

definition prefix_width :: "string list \<Rightarrow> nat" where
  "prefix_width labels =
     max (fold max (List.map (\<lambda>l. length (leading_digits (basename l))) labels) 0) 3"

definition used_suffix :: "32 word \<Rightarrow> string \<Rightarrow> char option" where
  "used_suffix value label =
     (let base = basename label; digits = leading_digits base
      in if map_option of_nat (parse_uint u32_max digits) = Some value \<and> length digits < length base \<and>
            is_lower (base ! length digits)
         then Some (base ! length digits) else None)"

definition next_suffix :: "string list \<Rightarrow> 32 word \<Rightarrow> char" where
  "next_suffix labels value =
     (let used = List.map_filter (used_suffix value) labels
      in case find (\<lambda>c. c \<notin> set used) (List.map char_of [97 ..< 123 :: nat]) of
           Some c \<Rightarrow> c | None \<Rightarrow> CHR ''z'')"

definition nth_prefix :: "string list \<Rightarrow> nat \<Rightarrow> 32 word option" where
  "nth_prefix labels i = (if i < length labels then patch_prefix (labels ! i) else None)"

definition derive_prefix :: "string list \<Rightarrow> nat \<Rightarrow> series_error + string" where
  "derive_prefix labels index =
     (let before = (if index = 0 then None else nth_prefix labels (index - 1));
          after = nth_prefix labels index;
          width = prefix_width labels;
          padded = (\<lambda>v :: 32 word. show_pad width (unat v))
      in case (before, after) of
           (Some b, Some a) \<Rightarrow>
             if b + 1 < a then Inr (padded (b + (a - b) div 2))
             else Inr (padded b @ [next_suffix labels b])
         | (Some b, None) \<Rightarrow> Inr (padded (b + 10))
         | (None, Some a) \<Rightarrow> if 1 \<le> a then Inr (padded (a div 2)) else Inl (PatchPrefixNoGap a)
         | (None, None) \<Rightarrow> Inr (padded 10))"


section \<open>What the semver crate documents\<close>

definition modelled_op :: "Op \<Rightarrow> bool" where
  "modelled_op op \<longleftrightarrow> op \<in> {Exact, OpGreater, OpGreaterEq, OpLess, OpLessEq}"

text \<open>The five bounding operators on a release, an omitted component constraining nothing:
  \<open>=I.J\<close> is every \<open>I.J.x\<close>, \<open>>I.J\<close> starts at \<open>I.(J+1).0\<close>, \<open><=I.J\<close> reaches the end of
  \<open>I.J\<close>, and \<open>>=\<close> and \<open><\<close> read it as zero.\<close>

definition documented_op :: "Comparator \<Rightarrow> Version \<Rightarrow> bool" where
  "documented_op c v \<longleftrightarrow>
     (let here = Release (v_major v) (v_minor v) (v_patch v) in
      case c_op c of
        Exact \<Rightarrow> v_major v = c_major c \<and>
          (\<forall>j. c_minor c = Some j \<longrightarrow> v_minor v = j \<and> (\<forall>k. c_patch c = Some k \<longrightarrow> v_patch v = k))
      | OpGreater \<Rightarrow>
          (case (c_minor c, c_patch c) of
             (Some j, Some k) \<Rightarrow> Release (c_major c) j k < here
           | (Some j, None) \<Rightarrow> c_major c < v_major v \<or> c_major c = v_major v \<and> j < v_minor v
           | (None, _) \<Rightarrow> c_major c < v_major v)
      | OpGreaterEq \<Rightarrow> Release (c_major c) (unwrap_or 0 (c_minor c)) (unwrap_or 0 (c_patch c)) \<le> here
      | OpLess \<Rightarrow> here < Release (c_major c) (unwrap_or 0 (c_minor c)) (unwrap_or 0 (c_patch c))
      | OpLessEq \<Rightarrow>
          (case (c_minor c, c_patch c) of
             (Some j, Some k) \<Rightarrow> here \<le> Release (c_major c) j k
           | (Some j, None) \<Rightarrow> v_major v < c_major c \<or> v_major v = c_major c \<and> v_minor v \<le> j
           | (None, _) \<Rightarrow> v_major v \<le> c_major c)
      | _ \<Rightarrow> True)"

text \<open>A requirement matches only versions every comparator admits; without a prerelease in the
  requirement, only releases. A parsed comparator never has a patch without a minor.\<close>

definition semver_documented :: "semver_lib \<Rightarrow> bool" where
  "semver_documented L \<longleftrightarrow>
     (\<forall>text req. req_parse L text = Some req \<longrightarrow>
        (\<forall>c \<in> set req. c_minor c = None \<longrightarrow> c_patch c = None)) \<and>
     (\<forall>req v. (\<forall>c \<in> set req. c_pre c = [] \<and> modelled_op (c_op c)) \<longrightarrow> req_matches L req v \<longrightarrow>
        (\<forall>c \<in> set req. documented_op c v))"

text \<open>A range whose numbers are not the greatest \<open>u64\<close>, where the increment would wrap.\<close>

definition no_wrap :: "Comparator \<Rightarrow> bool" where
  "no_wrap c \<longleftrightarrow> c_major c < u64_max \<and> unwrap_or 0 (c_minor c) < u64_max \<and> unwrap_or 0 (c_patch c) < u64_max"

definition range_no_wrap :: "semver_lib \<Rightarrow> string \<Rightarrow> bool" where
  "range_no_wrap L r \<longleftrightarrow>
     (case req_parse L (normalize_req r) of None \<Rightarrow> True | Some req \<Rightarrow> list_all no_wrap req)"

section \<open>Lemmas\<close>

definition release_of :: "Version \<Rightarrow> Release" where
  "release_of v = Release (v_major v) (v_minor v) (v_patch v)"

definition in_bounds :: "Release option \<Rightarrow> Release option \<Rightarrow> Release \<Rightarrow> bool" where
  "in_bounds lo hi r \<longleftrightarrow> (\<forall>l. lo = Some l \<longrightarrow> l \<le> r) \<and> (\<forall>h. hi = Some h \<longrightarrow> r < h)"

lemma succ64_eq: "n < u64_max \<Longrightarrow> succ64 n = n + 1"
  by (simp add: succ64_def u64_max_def)

lemma comparator_bounds_sound:
  assumes "comparator_bounds c = Some (l, h)" and "documented_op c v" and "no_wrap c"
    and "c_minor c = None \<longrightarrow> c_patch c = None"
  shows "in_bounds l h (release_of v) \<and> modelled_op (c_op c)"
  using assms
  by (cases "c_op c"; cases "c_minor c"; cases "c_patch c")
    (auto simp: comparator_bounds_def documented_op_def in_bounds_def release_of_def modelled_op_def
      comparator_at_def bumped_def unwrap_or_def no_wrap_def succ64_eq Let_def)

lemma in_bounds_tighten:
  "in_bounds lo hi r \<Longrightarrow> in_bounds l h r \<Longrightarrow> in_bounds (tighten max lo l) (tighten min hi h) r"
  by (cases lo; cases hi; cases l; cases h) (auto simp: in_bounds_def tighten_def)

lemma interval_loop_sound:
  assumes "interval_loop cs iv = Some iv'" and "in_bounds (iv_lo iv) (iv_hi iv) (release_of v)"
    and "\<forall>c \<in> set cs. documented_op c v \<and> no_wrap c \<and> (c_minor c = None \<longrightarrow> c_patch c = None)"
  shows "in_bounds (iv_lo iv') (iv_hi iv') (release_of v)"
  using assms
proof (induction cs iv rule: interval_loop.induct)
  case (2 c cs iv)
  from 2(2) obtain l h where b: "c_pre c = []" "comparator_bounds c = Some (l, h)"
    and rest: "interval_loop cs \<lparr>iv_lo = tighten max (iv_lo iv) l, iv_hi = tighten min (iv_hi iv) h\<rparr> = Some iv'"
    by (auto split: if_splits option.splits)
  have "in_bounds l h (release_of v)"
    using comparator_bounds_sound [OF b(2)] 2(4) by simp
  then have "in_bounds (tighten max (iv_lo iv) l) (tighten min (iv_hi iv) h) (release_of v)"
    by (rule in_bounds_tighten [OF 2(3)])
  then show ?case using 2(1) [OF _ b(2) refl rest] b(1) 2(4) by simp
qed simp

lemma comparator_bounds_modelled: "comparator_bounds c = Some lh \<Longrightarrow> modelled_op (c_op c)"
  by (cases "c_op c") (simp_all add: comparator_bounds_def modelled_op_def)

lemma interval_loop_Cons:
  assumes "interval_loop (c # cs) iv = Some iv'"
  obtains l h where "c_pre c = []" and "comparator_bounds c = Some (l, h)"
    and "interval_loop cs \<lparr>iv_lo = tighten max (iv_lo iv) l, iv_hi = tighten min (iv_hi iv) h\<rparr> = Some iv'"
  using assms by (auto split: if_splits option.splits)

lemma interval_loop_modelled:
  "interval_loop cs iv = Some iv' \<Longrightarrow> c \<in> set cs \<Longrightarrow> c_pre c = [] \<and> modelled_op (c_op c)"
proof (induction cs arbitrary: iv)
  case (Cons d cs)
  from interval_loop_Cons [OF Cons.prems(1)] obtain l h where
    "c_pre d = []" "comparator_bounds d = Some (l, h)"
    "interval_loop cs \<lparr>iv_lo = tighten max (iv_lo iv) l, iv_hi = tighten min (iv_hi iv) h\<rparr> = Some iv'" .
  with Cons.IH Cons.prems(2) comparator_bounds_modelled show ?case by auto
qed simp

lemma interval_of_sound:
  assumes doc: "semver_documented L" and parse: "req_parse L text = Some req"
    and iv: "interval_of req = Some iv" and wrap: "list_all no_wrap req" and m: "req_matches L req v"
  shows "in_bounds (iv_lo iv) (iv_hi iv) (release_of v)"
proof -
  note doc12 = doc [unfolded semver_documented_def]
  have doc1: "\<forall>c \<in> set req. c_minor c = None \<longrightarrow> c_patch c = None"
    by (rule doc12 [THEN conjunct1, THEN spec, THEN spec, THEN mp, OF parse])
  have doc2: "(\<forall>c \<in> set req. c_pre c = [] \<and> modelled_op (c_op c)) \<longrightarrow> req_matches L req v \<longrightarrow>
      (\<forall>c \<in> set req. documented_op c v)"
    by (rule doc12 [THEN conjunct2, THEN spec, THEN spec])
  have "\<forall>c \<in> set req. c_pre c = [] \<and> modelled_op (c_op c)"
    using interval_loop_modelled [OF iv [unfolded interval_of_def]] by blast
  with doc2 m have "\<forall>c \<in> set req. documented_op c v" by blast
  with doc1 wrap have "\<forall>c \<in> set req. documented_op c v \<and> no_wrap c \<and> (c_minor c = None \<longrightarrow> c_patch c = None)"
    by (simp add: list_all_iff)
  moreover have "in_bounds None None r" for r by (simp add: in_bounds_def)
  ultimately show ?thesis
    using interval_loop_sound [OF iv [unfolded interval_of_def]] by simp
qed

lemma in_bounds_intersects:
  "in_bounds (iv_lo a) (iv_hi a) r \<Longrightarrow> in_bounds (iv_lo b) (iv_hi b) r \<Longrightarrow> intersects a b"
  by (auto simp: in_bounds_def intersects_def below_def split: option.splits intro: le_less_trans)

lemma matches_range_True:
  assumes "matches_range L series r version mode = Inr True"
  obtains req ver where "req_parse L (normalize_req r) = Some req"
    and "parse_tag (version_parse L) version = Inr ver"
    and "req_matches L req (if mode = CandidateMatch then ver\<lparr>v_pre := []\<rparr> else ver)"
proof -
  obtain req where req: "req_parse L (normalize_req r) = Some req"
    using assms by (auto simp: matches_range_def parse_req_def)
  obtain ver where ver: "parse_tag (version_parse L) version = Inr ver"
    using assms by (cases "parse_tag (version_parse L) version") (auto simp: matches_range_def)
  have "req_matches L req (if mode = CandidateMatch then ver\<lparr>v_pre := []\<rparr> else ver)"
    using assms by (simp add: matches_range_def parse_req_def req ver Let_def)
  with req ver show ?thesis by (rule that)
qed

lemma dead_entries_member:
  assumes "dead_entries L series scope env es = Inr dead" and "(sc, e) \<in> set dead"
  shows "sc = scope \<and> e \<in> set es \<and> (\<exists>r req i. entry_kernels e = Some r \<and>
    req_parse L (normalize_req r) = Some req \<and> interval_of req = Some i \<and> \<not> intersects env i)"
  using assms
proof (induction es arbitrary: dead)
  case (Cons d es)
  show ?case
  proof (cases "entry_kernels d")
    case None
    with Cons.prems Cons.IH [of dead] show ?thesis by auto
  next
    case (Some r)
    with Cons.prems(1) obtain req rest where req: "req_parse L (normalize_req r) = Some req"
      and rest: "dead_entries L series scope env es = Inr rest"
      and dead: "dead = (case interval_of req of
        Some i \<Rightarrow> if \<not> intersects env i then (scope, d) # rest else rest | None \<Rightarrow> rest)"
      by (auto simp: parse_req_def)
    show ?thesis
    proof (cases "(sc, e) \<in> set rest")
      case True
      from Cons.IH [OF rest True] show ?thesis by auto
    next
      case False
      with dead Cons.prems(2) obtain i where "interval_of req = Some i" "\<not> intersects env i"
        "sc = scope" "e = d"
        by (auto split: option.splits if_splits)
      with Some req show ?thesis by auto
    qed
  qed
qed simp

lemma unreachable_member:
  assumes "unreachable_scopes L s series scopes = Inr dead" and "(sc, e) \<in> set dead"
  shows "sc \<in> set scopes \<and> e \<in> set (scope_entries s sc) \<and> (\<exists>er ereq env r req i.
    envelope s sc = Some er \<and> req_parse L (normalize_req er) = Some ereq \<and> interval_of ereq = Some env \<and>
    entry_kernels e = Some r \<and> req_parse L (normalize_req r) = Some req \<and>
    interval_of req = Some i \<and> \<not> intersects env i)"
  using assms
proof (induction scopes arbitrary: dead)
  case (Cons scope scopes)
  from Cons.prems(1) show ?case
  proof (cases "\<exists>er ereq env. envelope s scope = Some er \<and>
      req_parse L (normalize_req er) = Some ereq \<and> interval_of ereq = Some env")
    case True
    then obtain er ereq env where e: "envelope s scope = Some er"
      "req_parse L (normalize_req er) = Some ereq" "interval_of ereq = Some env" by blast
    with Cons.prems(1) obtain dead1 rest where
      d: "dead_entries L series scope env (scope_entries s scope) = Inr dead1"
      "unreachable_scopes L s series scopes = Inr rest" "dead = dead1 @ rest"
      by (auto simp: version_req_def parse_req_def)
    show ?thesis
    proof (cases "(sc, e) \<in> set dead1")
      case True
      from dead_entries_member [OF d(1) True] show ?thesis by (auto simp: e)
    next
      case False
      with d(3) Cons.prems(2) have "(sc, e) \<in> set rest" by auto
      from Cons.IH [OF d(2) this] show ?thesis by auto
    qed
  next
    case False
    with Cons.prems(1) have "unreachable_scopes L s series scopes = Inr dead"
      by (auto simp: version_req_def parse_req_def split: option.splits)
    from Cons.IH [OF this Cons.prems(2)] show ?thesis by auto
  qed
qed simp

section \<open>Properties\<close>



text \<open>A semver library on one concrete format, for the witnesses: \<open><N\<close> and \<open>>=N\<close> on the
  major number, versions \<open>N.0.0\<close>.\<close>

definition demo_req_parse :: "string \<Rightarrow> Comparator list option" where
  "demo_req_parse r =
     (case strip_prefix ''>='' r of
        Some n \<Rightarrow> map_option (\<lambda>m. [\<lparr>c_op = OpGreaterEq, c_major = m, c_minor = None, c_patch = None, c_pre = []\<rparr>])
                    (parse_uint u64_max n)
      | None \<Rightarrow>
          (case strip_prefix ''<'' r of
             Some n \<Rightarrow> map_option (\<lambda>m. [\<lparr>c_op = OpLess, c_major = m, c_minor = None, c_patch = None, c_pre = []\<rparr>])
                         (parse_uint u64_max n)
           | None \<Rightarrow> None))"

definition demo_semver :: semver_lib where
  "demo_semver = \<lparr>
     version_parse = (\<lambda>t. map_option
       (\<lambda>n. \<lparr>v_major = n, v_minor = 0, v_patch = 0, v_pre = [], v_build = []\<rparr>) (parse_uint u64_max t)),
     req_parse = demo_req_parse,
     req_matches = (\<lambda>req v. list_all (\<lambda>c. c_pre c = [] \<and>
       (c_op c = OpGreaterEq \<and> c_major c \<le> v_major v \<or> c_op c = OpLess \<and> v_major v < c_major c) \<and>
       c_minor c = None \<and> c_patch c = None) req)\<rparr>"

lemma demo_semver_documented: "semver_documented demo_semver"
proof -
  have "documented_op c v"
    if "c_op c = OpGreaterEq \<and> c_major c \<le> v_major v \<or> c_op c = OpLess \<and> v_major v < c_major c"
      "c_minor c = None" "c_patch c = None" for c :: Comparator and v
    using that by (auto simp: documented_op_def unwrap_or_def Let_def)
  then show ?thesis
    by (auto simp: semver_documented_def demo_semver_def demo_req_parse_def list_all_iff split: option.splits)
qed

definition demo_series :: PatchSeries where
  "demo_series = \<lparr>applies_to_kernel = Some ''>=7'', applies_to_uboot = None, applies_to_app = None,
     ser_kernel = [Always ''a.patch'', Ranged ''b.patch'' ''<6'', Ranged ''c.patch'' ''<8''],
     ser_ffmpeg = [], ser_userspace = [], ser_uboot = [], ser_app = [], ser_app_packaging = []\<rparr>"


lemma select_paths_Inr:
  "select_paths L series version mode es = Inr ps \<longleftrightarrow>
     (\<forall>e \<in> set es. \<exists>b. selected L e series version mode = Inr b) \<and>
     ps = List.map entry_path (filter (\<lambda>e. selected L e series version mode = Inr True) es)"
proof (induction es arbitrary: ps)
  case (Cons e es)
  show ?case
  proof (cases "selected L e series version mode")
    case (Inr b)
    then show ?thesis by (cases b) (auto simp: Cons)
  qed simp
qed auto

text \<open>\<open>series_for\<close> returns exactly the paths of the selected entries, in list order, and
  fails exactly when some entry's own range or the version cannot be read.\<close>

theorem series_for_spec:
  "series_for L s scope series version mode = Inr ps \<longleftrightarrow>
     (\<forall>e \<in> set (scope_entries s scope). \<exists>b. selected L e series version mode = Inr b) \<and>
     ps = List.map entry_path
       (filter (\<lambda>e. selected L e series version mode = Inr True) (scope_entries s scope))"
  by (simp add: series_for_def select_paths_Inr)

theorem series_for_spec_witness:
  "series_for demo_semver demo_series Kernel ''s'' ''v9'' ReleaseMatch = Inr [''a.patch'']"
proof -
  have "\<forall>e \<in> set (scope_entries demo_series Kernel). \<exists>b. selected demo_semver e ''s'' ''v9'' ReleaseMatch = Inr b"
    and "filter (\<lambda>e. selected demo_semver e ''s'' ''v9'' ReleaseMatch = Inr True)
      (scope_entries demo_series Kernel) = [Always ''a.patch'']"
  proof -
    have "selected demo_semver (Always ''a.patch'') ''s'' ''v9'' ReleaseMatch = Inr True"
      "selected demo_semver (Ranged ''b.patch'' ''<6'') ''s'' ''v9'' ReleaseMatch = Inr False"
      "selected demo_semver (Ranged ''c.patch'' ''<8'') ''s'' ''v9'' ReleaseMatch = Inr False"
      by code_simp+
    then show "\<forall>e \<in> set (scope_entries demo_series Kernel). \<exists>b. selected demo_semver e ''s'' ''v9'' ReleaseMatch = Inr b"
      and "filter (\<lambda>e. selected demo_semver e ''s'' ''v9'' ReleaseMatch = Inr True)
        (scope_entries demo_series Kernel) = [Always ''a.patch'']"
      by (auto simp: demo_series_def)
  qed
  then show ?thesis
    by (intro iffD2 [OF series_for_spec]) simp
qed

lemma gate_ok: "bind_r m (\<lambda>b. if \<not> b then Inl err else Inr ()) = Inr () \<longleftrightarrow> m = Inr True"
  by (cases m) auto

lemma gate_err:
  "m \<noteq> Inl err \<Longrightarrow> bind_r m (\<lambda>b. if \<not> b then Inl err else Inr ()) = Inl err \<longleftrightarrow> m = Inr False"
  by (cases m) auto

text \<open>Each gate passes exactly when its axis declares no envelope or the envelope admits
  the version release-strict, and a version outside it is that axis's own error, naming the
  series, the version and the declared range.\<close>

theorem gates_spec:
  "(ensure_applies L s series v = Inr () \<longleftrightarrow> applies_to_scope L s series Kernel v ReleaseMatch = Inr True) \<and>
   (ensure_applies_uboot L s series v = Inr () \<longleftrightarrow> applies_to_scope L s series Uboot v ReleaseMatch = Inr True) \<and>
   (ensure_applies_app L s series v = Inr () \<longleftrightarrow> applies_to_scope L s series App v ReleaseMatch = Inr True) \<and>
   (applies_to_scope L s series Kernel v ReleaseMatch = Inr False \<longleftrightarrow>
      (\<exists>r. applies_to_kernel s = Some r \<and> ensure_applies L s series v = Inl (KernelOutsideSeriesRange series v r))) \<and>
   (applies_to_scope L s series Uboot v ReleaseMatch = Inr False \<longleftrightarrow>
      (\<exists>r. applies_to_uboot s = Some r \<and> ensure_applies_uboot L s series v = Inl (UbootOutsideSeriesRange series v r))) \<and>
   (applies_to_scope L s series App v ReleaseMatch = Inr False \<longleftrightarrow>
      (\<exists>r. applies_to_app s = Some r \<and> ensure_applies_app L s series v = Inl (AppOutsideSeriesRange series v r)))"
proof -
  have "matches_range L series r v m \<noteq> Inl (KernelOutsideSeriesRange a b c)"
    "matches_range L series r v m \<noteq> Inl (UbootOutsideSeriesRange a b c)"
    "matches_range L series r v m \<noteq> Inl (AppOutsideSeriesRange a b c)" for r m a b c
    by (cases "req_parse L (normalize_req r)"; cases "parse_tag (version_parse L) v";
        simp add: matches_range_def parse_req_def Let_def)+
  then show ?thesis
    by (cases "applies_to_kernel s"; cases "applies_to_uboot s"; cases "applies_to_app s")
      (simp_all add: ensure_applies_def ensure_applies_uboot_def ensure_applies_app_def applies_to_def
        applies_to_under_def applies_to_scope_def gate_ok gate_err del: if_not_P not_not if_split bind_r_eq_Inr)
qed


lemma scope_from_as_str: "scope_from_str (scope_as_str sc) = Inr sc"
  by (cases sc) (simp_all add: scope_from_str_def)

interpretation scope_codec: codec scope_as_str "\<lambda>t. ok (scope_from_str t)" "\<lambda>_. True"
  by unfold_locales (simp add: scope_from_as_str)

text \<open>The TOML key of a scope reads back as that scope, the keys are distinct, every scope
  is in the list the lint walks, and nothing but the six keys reads as a scope.\<close>

theorem scope_keys:
  "scope_from_str (scope_as_str sc) = Inr sc \<and> (scope_as_str sc = scope_as_str sc' \<longleftrightarrow> sc = sc') \<and>
   sc \<in> set all_scopes \<and> (scope_from_str t = Inr sc \<longleftrightarrow> t = scope_as_str sc)"
proof -
  have "sc \<in> set all_scopes" by (cases sc) (simp_all add: all_scopes_def)
  moreover have "t = scope_as_str sc" if "scope_from_str t = Inr sc"
    using that by (auto simp: scope_from_str_def split: if_splits)
  ultimately show ?thesis
    using scope_codec.encode_inj [of sc sc'] by (auto simp: scope_from_as_str)
qed

lemma basename_no_slash: "CHR ''/'' \<notin> set s \<Longrightarrow> basename s = s"
  by (simp add: basename_def split_no_sep)

lemma leading_digits_append: "all_digits d \<Longrightarrow> \<forall>c \<in> set (take 1 r). \<not> is_digit c \<Longrightarrow> leading_digits (d @ r) = d"
  by (cases r) (auto simp: leading_digits_def all_digits_iff takeWhile_eq_all_conv [THEN iffD2])

lemma patch_prefix_padded:
  assumes "\<forall>c \<in> set r. \<not> is_digit c \<and> c \<noteq> CHR ''/''"
  shows "patch_prefix (show_pad w (unat v) @ r) = Some (v :: 32 word)"
proof -
  have "CHR ''/'' \<notin> set (show_pad w (unat v))"
    using show_pad_digits [of w "unat v"] by (auto simp: all_digits_iff is_digit_def)
  with assms have "basename (show_pad w (unat v) @ r) = show_pad w (unat v) @ r"
    by (intro basename_no_slash) auto
  moreover have "leading_digits (show_pad w (unat v) @ r) = show_pad w (unat v)"
    using assms by (intro leading_digits_append show_pad_digits) (cases r; simp)
  moreover have "unat v \<le> u32_max" using unsigned_less [of v, where 'a = nat] by (simp add: u32_max_def)
  moreover have "show_pad w (unat v) \<noteq> []" by (simp add: show_pad_def pad_left_def)
  ultimately show ?thesis
    by (simp add: patch_prefix_def parse_uint_digits show_pad_digits)
qed

lemma next_suffix_lower: "is_lower (next_suffix labels v)"
proof -
  have lower: "is_lower (char_of n)" if "97 \<le> n" "n < 123" for n :: nat
    using that by (simp add: is_lower_def)
  have "find p (List.map char_of xs) = Some c \<Longrightarrow> \<exists>n \<in> set xs. c = char_of n"
    for p :: "char \<Rightarrow> bool" and xs :: "nat list" and c
    by (induction xs) (auto split: if_splits)
  then have found: "is_lower c" if "find p (List.map char_of [97 ..< 123 :: nat]) = Some c" for p c
    using that lower by (metis atLeastLessThan_iff set_upt)
  have z: "is_lower (CHR ''z'')" by (simp add: is_lower_def)
  show ?thesis
    unfolding next_suffix_def Let_def
    by (cases "find (\<lambda>c. c \<notin> set (List.map_filter (used_suffix v) labels)) (List.map char_of [97 ..< 123 :: nat])")
      (simp_all only: option.case z found)
qed

lemma lower_not_digit: "is_lower c \<Longrightarrow> \<not> is_digit c \<and> c \<noteq> CHR ''/''"
  by (auto simp: is_lower_def is_digit_def)

lemma patch_prefix_pad: "patch_prefix (show_pad w (unat v)) = Some v"
  using patch_prefix_padded [of "[]" w v] by simp

lemma patch_prefix_suffixed: "patch_prefix (show_pad w (unat v) @ [next_suffix labels u]) = Some v"
  by (rule patch_prefix_padded) (simp add: lower_not_digit next_suffix_lower)

lemma word_midpoint:
  fixes a b :: "32 word"
  assumes "b + 1 < a" and "unat b + 10 \<le> u32_max"
  shows "b < b + (a - b) div 2 \<and> b + (a - b) div 2 < a"
proof -
  have b1: "unat (b + 1) = unat b + 1"
    using assms(2) by (simp add: unat_word_ariths u32_max_def)
  with assms(1) have lt: "unat b + 1 < unat a" by (simp add: word_less_nat_alt)
  then have "unat (a - b) = unat a - unat b" by (simp add: unat_sub word_le_nat_alt)
  then have half: "unat ((a - b) div 2) = (unat a - unat b) div 2" by (simp add: unat_div)
  have "unat b + (unat a - unat b) div 2 < unat a" using lt by linarith
  then have "unat (b + (a - b) div 2) = unat b + (unat a - unat b) div 2"
    using unsigned_less [of a, where 'a = nat] unat_word_ariths(1) [of b "(a - b) div 2"]
    by (simp only: half) simp
  moreover have "0 < (unat a - unat b) div 2" using lt by linarith
  ultimately show ?thesis using lt by (simp add: word_less_nat_alt)
qed



end
