(* ===== verification/Size.thy ===== *)
theory Size
  imports Strings
begin

text \<open>
  \<open>crates/core/src/size.rs\<close>: authored sizes read to byte counts and rendered back, and the
  \<open>image_size\<close> grammar with its measured forms. Every result is a \<open>u64\<close> the code checks
  for overflow, so values are \<open>nat\<close> with the bound written at each check.
\<close>

section \<open>Data\<close>

datatype size_error = InvalidSize string | InvalidImageSize string

datatype Slack = SlackBytes nat | SlackShare nat

datatype ImageSize = Fixed nat | Fit Slack

section \<open>Operations\<close>

definition unit_multiplier :: "string \<Rightarrow> nat option" where
  "unit_multiplier unit0 =
     (let u = to_ascii_lowercase unit0 in
      if u = [] \<or> u = ''b'' then Some 1
      else if u = ''k'' \<or> u = ''kb'' \<or> u = ''kib'' then Some 1024
      else if u = ''m'' \<or> u = ''mb'' \<or> u = ''mib'' then Some (1024 * 1024)
      else if u = ''g'' \<or> u = ''gb'' \<or> u = ''gib'' then Some (1024 * 1024 * 1024)
      else if u = ''t'' \<or> u = ''tb'' \<or> u = ''tib'' then Some (1024 * 1024 * 1024 * 1024)
      else None)"

definition parse_size :: "string \<Rightarrow> size_error + nat" where
  "parse_size input =
     (let s = trim input;
          digits_end = (case find_char (\<lambda>c. \<not> is_digit c) s of Some i \<Rightarrow> i | None \<Rightarrow> length s);
          num = take digits_end s;
          unit = drop digits_end s
      in bind_r (ok_or (InvalidSize input) (parse_uint u64_max num)) (\<lambda>value.
         bind_r (ok_or (InvalidSize input) (unit_multiplier (trim unit))) (\<lambda>multiplier.
         ok_or (InvalidSize input) (checked_mul u64_max value multiplier))))"

definition size_units :: "(string \<times> nat) list" where
  "size_units = [(''TiB'', 1024 * 1024 * 1024 * 1024), (''GiB'', 1024 * 1024 * 1024),
     (''MiB'', 1024 * 1024), (''KiB'', 1024)]"

definition format_size :: "nat \<Rightarrow> string" where
  "format_size bytes =
     (case find (\<lambda>(unit, m). m \<le> bytes \<and> bytes mod m = 0) size_units of
        Some (unit, m) \<Rightarrow> show_nat (bytes div m) @ unit
      | None \<Rightarrow> show_nat bytes)"

definition parse_hundredths :: "string \<Rightarrow> string \<Rightarrow> size_error + nat" where
  "parse_hundredths share input =
     bind_r (case split_once (CHR ''.'') share of
               Some (whole, frac) \<Rightarrow>
                 if length frac \<le> 2 then Inr (whole, frac) else Inl (InvalidImageSize input)
             | None \<Rightarrow> Inr (share, [])) (\<lambda>(whole, frac).
     if whole = [] \<and> frac = [] then Inl (InvalidImageSize input)
     else if \<not> all_digits whole \<or> \<not> all_digits frac then Inl (InvalidImageSize input)
     else bind_r (if whole = [] then Inr 0
                  else ok_or (InvalidImageSize input) (parse_uint u32_max whole)) (\<lambda>w.
          bind_r (ok_or (InvalidImageSize input)
                    (parse_uint u32_max (frac @ replicate (2 - length frac) (CHR ''0'')))) (\<lambda>f.
          ok_or (InvalidImageSize input)
            (Option.bind (checked_mul u32_max w 100) (\<lambda>w.
             Option.bind (checked_add u32_max w f) (\<lambda>h.
             if h \<le> u16_max then Some h else None))))))"

definition parse_image_size :: "string \<Rightarrow> size_error + ImageSize" where
  "parse_image_size input =
     (let spec = trim input in
      case strip_prefix ''fit'' spec of
        None \<Rightarrow> bind_r (parse_size spec) (\<lambda>n. Inr (Fixed n))
      | Some slack \<Rightarrow>
          bind_r (ok_or (InvalidImageSize input) (strip_prefix ''+'' slack)) (\<lambda>slack.
          case strip_suffix ''%'' slack of
            Some share \<Rightarrow> bind_r (parse_hundredths share input) (\<lambda>h. Inr (Fit (SlackShare h)))
          | None \<Rightarrow>
              (case parse_size slack of
                 Inr n \<Rightarrow> Inr (Fit (SlackBytes n))
               | Inl _ \<Rightarrow> Inl (InvalidImageSize input))))"

section \<open>Lemmas\<close>

lemma parse_size_bound: "parse_size s = Inr n \<Longrightarrow> n \<le> u64_max"
  by (auto simp: parse_size_def Let_def)

lemma span_digits:
  assumes "all_digits d" and "r = [] \<or> \<not> is_digit (hd r)"
  shows "(case find_char (\<lambda>c. \<not> is_digit c) (d @ r) of Some i \<Rightarrow> i | None \<Rightarrow> length (d @ r)) = length d"
proof -
  have "takeWhile is_digit (d @ r) = d"
    using assms by (cases r) (auto simp: all_digits_iff takeWhile_eq_all_conv [THEN iffD2])
  then show ?thesis
    using find_char_takeWhile [where p = "\<lambda>c. \<not> is_digit c" and s = "d @ r"] by simp
qed

lemma trim_digits_unit:
  assumes "all_digits d" and "d \<noteq> []" and "u = [] \<or> \<not> is_ws (last u)"
  shows "trim (d @ u) = d @ u"
proof (rule trim_id)
  have "\<not> is_ws (hd d)" and "\<not> is_ws (last d)"
    using assms(1,2) by (auto simp: all_digits_iff intro!: digit_not_ws)
  with assms show "d @ u = [] \<or> \<not> is_ws (hd (d @ u)) \<and> \<not> is_ws (last (d @ u))"
    by (cases "u = []") auto
qed

lemma parse_size_digits_unit:
  assumes "all_digits d" and "d \<noteq> []"
    and "u = [] \<or> \<not> is_digit (hd u) \<and> \<not> is_ws (hd u) \<and> \<not> is_ws (last u)"
    and "unit_multiplier u = Some m" and "dec_val d * m \<le> u64_max" and "0 < m"
  shows "parse_size (d @ u) = Inr (dec_val d * m)"
proof -
  have "dec_val d \<le> dec_val d * m" using assms(6) by simp
  with assms(5) have "dec_val d \<le> u64_max" by linarith
  moreover have "trim (d @ u) = d @ u" using assms by (intro trim_digits_unit) auto
  moreover have "trim u = u" using assms(3) by (intro trim_id) auto
  moreover have "(case find_char (\<lambda>c. \<not> is_digit c) (d @ u) of Some i \<Rightarrow> i | None \<Rightarrow> length (d @ u)) = length d"
    using assms by (intro span_digits) auto
  ultimately show ?thesis
    using assms by (simp add: parse_size_def Let_def parse_uint_digits)
qed

lemma size_units_ok:
  "(u, m) \<in> set size_units \<Longrightarrow> unit_multiplier u = Some m \<and> 0 < m \<and>
     u \<noteq> [] \<and> \<not> is_digit (hd u) \<and> \<not> is_ws (hd u) \<and> \<not> is_ws (last u)"
proof -
  have "unit_multiplier ''TiB'' = Some (1024 * 1024 * 1024 * 1024)"
    "unit_multiplier ''GiB'' = Some (1024 * 1024 * 1024)"
    "unit_multiplier ''MiB'' = Some (1024 * 1024)" "unit_multiplier ''KiB'' = Some 1024"
    by code_simp+
  then show "(u, m) \<in> set size_units \<Longrightarrow> unit_multiplier u = Some m \<and> 0 < m \<and>
     u \<noteq> [] \<and> \<not> is_digit (hd u) \<and> \<not> is_ws (hd u) \<and> \<not> is_ws (last u)"
    by (auto simp: size_units_def is_digit_def is_ws_def)
qed

lemma parse_format_size: "n \<le> u64_max \<Longrightarrow> parse_size (format_size n) = Inr n"
proof (cases "find (\<lambda>(unit, m). m \<le> n \<and> n mod m = 0) size_units")
  case None
  assume "n \<le> u64_max"
  then show ?thesis
    using parse_size_digits_unit [of "show_nat n" "[]" 1]
    by (simp add: format_size_def None show_nat_digits unit_multiplier_def to_ascii_lowercase_def)
next
  case (Some um)
  assume n: "n \<le> u64_max"
  obtain u m where um: "um = (u, m)" by (cases um)
  from Some um have mem: "(u, m) \<in> set size_units" and div: "n mod m = 0"
    by (auto simp: find_Some_iff dest: nth_mem)
  note ok = size_units_ok [OF mem]
  have "n div m * m = n" using div by auto
  with n ok parse_size_digits_unit [of "show_nat (n div m)" u m] show ?thesis
    by (simp add: format_size_def Some um show_nat_digits)
qed

interpretation size_codec: codec format_size "\<lambda>s. ok (parse_size s)" "\<lambda>n. n \<le> u64_max"
  by unfold_locales (simp add: parse_format_size)

text \<open>A share written with up to two fraction digits.\<close>

definition share_text :: "nat \<Rightarrow> string \<Rightarrow> string" where
  "share_text w frac = (if frac = [] then show_nat w else show_nat w @ ''.'' @ frac)"

definition share_value :: "nat \<Rightarrow> string \<Rightarrow> nat" where
  "share_value w frac = w * 100 + dec_val frac * 10 ^ (2 - length frac)"

lemma dec_val_zeros_right: "dec_val (s @ replicate k (CHR ''0'')) = dec_val s * 10 ^ k"
proof -
  have "dec_val (replicate k (CHR ''0'')) = 0"
    using dec_val_zeros [of k "[]"] by simp
  then show ?thesis by (simp add: dec_val_append)
qed

lemma parse_hundredths_share:
  assumes "all_digits frac" and "length frac \<le> 2"
  shows "parse_hundredths (share_text w frac) input =
    (if share_value w frac \<le> u16_max then Inr (share_value w frac) else Inl (InvalidImageSize input))"
proof -
  have dot: "CHR ''.'' \<notin> set (show_nat w)"
    using show_nat_digits [of w] by (auto simp: all_digits_iff is_digit_def)
  have split: "(case split_once (CHR ''.'') (share_text w frac) of
       Some (whole, frac) \<Rightarrow> if length frac \<le> 2 then Inr (whole, frac) else Inl (InvalidImageSize input)
     | None \<Rightarrow> Inr (share_text w frac, [])) = Inr (show_nat w, frac)"
  proof (cases "frac = []")
    case True
    then have "split_once (CHR ''.'') (share_text w frac) = None"
      using dot by (simp add: share_text_def split_once_None)
    with True show ?thesis by (simp add: share_text_def)
  next
    case False
    then have "split_once (CHR ''.'') (share_text w frac) = Some (show_nat w, frac)"
      using dot by (simp add: share_text_def split_once_Some)
    with assms(2) show ?thesis by simp
  qed
  have pad: "all_digits (frac @ replicate (2 - length frac) (CHR ''0''))"
    using assms(1) by (auto simp: all_digits_iff is_digit_def)
  have len: "length (frac @ replicate (2 - length frac) (CHR ''0'')) = 2" using assms(2) by simp
  have "dec_val (frac @ replicate (2 - length frac) (CHR ''0'')) < 10 ^ 2"
    using dec_val_less [OF pad] len by simp
  then have f: "parse_uint u32_max (frac @ replicate (2 - length frac) (CHR ''0'')) =
      Some (dec_val frac * 10 ^ (2 - length frac))" "dec_val frac * 10 ^ (2 - length frac) < 100"
    using pad len by (auto simp: parse_uint_digits dec_val_zeros_right u32_max_def)
  have w: "parse_uint u32_max (show_nat w) = (if w \<le> u32_max then Some w else None)"
    by (simp add: parse_uint_digits show_nat_digits)
  show ?thesis
    unfolding parse_hundredths_def split
    using f w assms(1)
    by (auto simp: show_nat_digits share_value_def u16_max_def u32_max_def ok_or_def bind_r_def
        checked_mul_def checked_add_def)
qed

section \<open>Properties\<close>

text \<open>C31. Rendering a byte count and reading it back gives the count, for every \<open>u64\<close>; the
  rendering is therefore injective, and a read size never exceeds \<open>u64\<close>.\<close>

theorem format_size_roundtrip:
  "(n \<le> u64_max \<longrightarrow> parse_size (format_size n) = Inr n) \<and>
   (m \<le> u64_max \<and> n \<le> u64_max \<longrightarrow> (format_size m = format_size n \<longleftrightarrow> m = n)) \<and>
   (parse_size s = Inr n \<longrightarrow> n \<le> u64_max)"
  using parse_format_size parse_size_bound size_codec.encode_inj by blast

theorem format_size_roundtrip_witness:
  "format_size 79691776 = ''76MiB'' \<and> parse_size ''76MiB'' = Inr 79691776"
proof -
  have f: "format_size 79691776 = ''76MiB''" by code_simp
  have "(79691776 :: nat) \<le> u64_max" by (simp add: u64_max_def)
  with format_size_roundtrip [of 79691776] have "parse_size (format_size 79691776) = Inr 79691776" by blast
  with f show ?thesis by simp
qed

text \<open>A share with up to two fraction digits is read exactly, in hundredths of a percent,
  and refused exactly when it does not fit the sixteen bits it is held in; a bare \<open>fit\<close> is
  refused.\<close>

theorem fit_share_exact:
  assumes "all_digits frac" and "length frac \<le> 2"
  shows "parse_image_size (''fit+'' @ share_text w frac @ ''%'') =
      (if share_value w frac \<le> u16_max then Inr (Fit (SlackShare (share_value w frac)))
       else Inl (InvalidImageSize (''fit+'' @ share_text w frac @ ''%''))) \<and>
    parse_image_size ''fit'' = Inl (InvalidImageSize ''fit'')"
proof
  have "trim (''fit+'' @ share_text w frac @ ''%'') = ''fit+'' @ share_text w frac @ ''%''"
    by (rule trim_id) (simp add: is_ws_def)
  moreover have "strip_prefix ''fit'' (''fit+'' @ share_text w frac @ ''%'') = Some (''+'' @ share_text w frac @ ''%'')"
    and "strip_prefix ''+'' (''+'' @ share_text w frac @ ''%'') = Some (share_text w frac @ ''%'')"
    and "strip_suffix ''%'' (share_text w frac @ ''%'') = Some (share_text w frac)"
    by simp_all
  ultimately show "parse_image_size (''fit+'' @ share_text w frac @ ''%'') =
      (if share_value w frac \<le> u16_max then Inr (Fit (SlackShare (share_value w frac)))
       else Inl (InvalidImageSize (''fit+'' @ share_text w frac @ ''%'')))"
    unfolding parse_image_size_def Let_def
    by (simp only: option.case ok_or_simps bind_r_simps parse_hundredths_share [OF assms]) simp
  show "parse_image_size ''fit'' = Inl (InvalidImageSize ''fit'')" by code_simp
qed

theorem fit_share_exact_witness:
  "parse_image_size ''fit+1.5%'' = Inr (Fit (SlackShare 150))"
proof -
  have "share_text 1 ''5'' = ''1.5''" by code_simp
  moreover have "share_value 1 ''5'' = 150" by code_simp
  moreover have "all_digits ''5''" by code_simp
  ultimately show ?thesis
    using fit_share_exact [of "''5''" 1] by (simp add: u16_max_def)
qed

end
