(* ===== verification/Chromeos.thy ===== *)
theory Chromeos
  imports Prelude "HOL-Library.Word"
begin

text \<open>
  \<open>crates/core/src/chromeos.rs\<close>: the ChromeOS kernel-partition attributes packed into a GPT
  entry's 64-bit attribute word, kept at their machine widths.
\<close>

unbundle bit_operations_syntax

section \<open>Packing\<close>

datatype kpart_attr_error = InvalidKpartAttr string "8 word"

definition NIBBLE_MAX :: "8 word" where "NIBBLE_MAX = 0xF"
definition PRIORITY_SHIFT :: nat where "PRIORITY_SHIFT = 48"
definition TRIES_SHIFT :: nat where "TRIES_SHIFT = 52"
definition SUCCESSFUL_BIT :: nat where "SUCCESSFUL_BIT = 56"
definition MAX_KPART_SLOTS :: nat where "MAX_KPART_SLOTS = 4"
definition SPARE_KPART_FLAGS :: "64 word" where "SPARE_KPART_FLAGS = 0"

definition nibble :: "8 word \<Rightarrow> string \<Rightarrow> kpart_attr_error + 64 word" where
  "nibble value field = (if value \<le> NIBBLE_MAX then Inr (ucast value) else Inl (InvalidKpartAttr field value))"

definition kpart_flags :: "8 word \<Rightarrow> 8 word \<Rightarrow> bool \<Rightarrow> kpart_attr_error + 64 word" where
  "kpart_flags priority tries successful =
     bind_r (nibble priority ''kpart_priority'') (\<lambda>priority.
     bind_r (nibble tries ''kpart_tries'') (\<lambda>tries.
     Inr (push_bit PRIORITY_SHIFT priority OR push_bit TRIES_SHIFT tries OR
          push_bit SUCCESSFUL_BIT (of_bool successful))))"

text \<open>What the firmware reads back: the three fields, and whether the slot is a candidate.\<close>

definition read_priority :: "64 word \<Rightarrow> nat" where
  "read_priority w = unat (drop_bit 48 w AND 0xF)"

definition read_tries :: "64 word \<Rightarrow> nat" where
  "read_tries w = unat (drop_bit 52 w AND 0xF)"

definition read_successful :: "64 word \<Rightarrow> bool" where
  "read_successful w = bit w 56"

definition boot_candidate :: "64 word \<Rightarrow> bool" where
  "boot_candidate w \<longleftrightarrow> 0 < read_priority w \<and> (read_successful w \<or> 0 < read_tries w)"

section \<open>Lemmas\<close>

lemma nibble_bits: "v \<le> (0xF :: 8 word) \<Longrightarrow> bit v n \<Longrightarrow> n < 4"
proof -
  assume v: "v \<le> (0xF :: 8 word)" and b: "bit v n"
  have "unat v < 2 ^ 4" using v by (simp add: word_le_nat_alt)
  then have "take_bit 4 (unat v) = unat v" by (rule take_bit_nat_eq_self)
  moreover have "bit (unat v) n" using b by (simp add: bit_unsigned_iff)
  ultimately show "n < 4" by (metis bit_take_bit_iff)
qed

lemma and_nibble: "(w :: 64 word) AND 0xF = take_bit 4 w"
  by (simp add: take_bit_eq_mask mask_eq_exp_minus_1)

lemma kpart_flags_eq:
  "kpart_flags p t s =
     (if 0xF < p then Inl (InvalidKpartAttr ''kpart_priority'' p)
      else if 0xF < t then Inl (InvalidKpartAttr ''kpart_tries'' t)
      else Inr (push_bit 48 (ucast p) OR push_bit 52 (ucast t) OR push_bit 56 (of_bool s)))"
  by (cases "p \<le> 0xF"; cases "t \<le> 0xF")
    (simp_all add: kpart_flags_def nibble_def NIBBLE_MAX_def PRIORITY_SHIFT_def TRIES_SHIFT_def
      SUCCESSFUL_BIT_def not_le linorder_not_less [symmetric])

lemma kpart_fields:
  fixes s :: bool
  assumes "p \<le> 0xF" and "t \<le> 0xF"
    and w_def: "w = (push_bit 48 (ucast (p :: 8 word)) OR push_bit 52 (ucast (t :: 8 word)) OR
      push_bit 56 (of_bool s) :: 64 word)"
  shows "drop_bit 48 w AND 0xF = ucast p" and "drop_bit 52 w AND 0xF = ucast t" and "bit w 56 = s"
    and "take_bit 48 w = 0"
proof -
  note bits = bit_simps and_nibble w_def bit_of_bool_iff
  have ps: "bit p n \<Longrightarrow> n < 4" and ts: "bit t n \<Longrightarrow> n < 4" for n
    using assms(1,2) nibble_bits by auto
  show "drop_bit 48 w AND 0xF = ucast p"
    by (rule bit_word_eqI) (auto simp: bits dest: ps)
  show "drop_bit 52 w AND 0xF = ucast t"
    by (rule bit_word_eqI) (auto simp: bits dest: ps ts)
  show "bit w 56 = s" by (auto simp: bits dest: ps ts)
  show "take_bit 48 w = 0" by (rule bit_word_eqI) (auto simp: bits)
qed

lemma unat_ucast_byte: "unat (ucast (v :: 8 word) :: 64 word) = unat v"
  using unsigned_less [of v, where 'a = nat] by (simp add: unsigned_ucast_eq take_bit_nat_eq_self)

section \<open>Properties\<close>

text \<open>Packing is exact: with both nibbles in range the firmware reads back the three
  fields and nothing below bit 48 is set; a value over fifteen is refused, naming the field,
  never truncated. The spare word is not a boot candidate.\<close>

theorem kpart_flags_exact:
  "(kpart_flags p t s = Inl e \<longleftrightarrow>
      0xF < p \<and> e = InvalidKpartAttr ''kpart_priority'' p \<or>
      p \<le> 0xF \<and> 0xF < t \<and> e = InvalidKpartAttr ''kpart_tries'' t) \<and>
   (kpart_flags p t s = Inr w \<longrightarrow>
      read_priority w = unat p \<and> read_tries w = unat t \<and> (read_successful w \<longleftrightarrow> s) \<and> take_bit 48 w = 0) \<and>
   \<not> boot_candidate SPARE_KPART_FLAGS"
proof (intro conjI)
  show "kpart_flags p t s = Inl e \<longleftrightarrow>
      0xF < p \<and> e = InvalidKpartAttr ''kpart_priority'' p \<or>
      p \<le> 0xF \<and> 0xF < t \<and> e = InvalidKpartAttr ''kpart_tries'' t"
    by (auto simp: kpart_flags_eq not_less)
  show "kpart_flags p t s = Inr w \<longrightarrow>
      read_priority w = unat p \<and> read_tries w = unat t \<and> (read_successful w \<longleftrightarrow> s) \<and> take_bit 48 w = 0"
    using kpart_fields [of p t _ s]
    by (auto simp: kpart_flags_eq not_less read_priority_def read_tries_def read_successful_def
        unat_ucast_byte)
  show "\<not> boot_candidate SPARE_KPART_FLAGS"
    by (simp add: boot_candidate_def SPARE_KPART_FLAGS_def read_priority_def)
qed

theorem kpart_flags_exact_witness:
  "\<exists>w. kpart_flags 10 5 True = Inr w \<and> read_priority w = 10 \<and> read_tries w = 5 \<and> read_successful w"
proof -
  obtain w where w: "kpart_flags 10 5 True = Inr w" by (simp add: kpart_flags_eq)
  with kpart_flags_exact [of 10 5 True _ w] show ?thesis by auto
qed

end
