(* ===== verification/Paths.thy ===== *)
theory Paths
  imports Strings
begin

text \<open>
  What the validators use of \<open>std::path::Path\<close> on Unix, and what "stays inside" means.

  A path is its text. \<open>components\<close> are the parts between separators without empty and
  \<open>.\<close> parts (a leading \<open>.\<close>, which Rust reports as \<open>CurDir\<close>, makes no difference to any
  question asked here); \<open>file_name\<close>, \<open>file_stem\<close> and \<open>extension\<close> follow the documented
  rules. \<open>join_path\<close> resolves a value joined onto a base directory, part by part, the way
  a lookup without symbolic links does: an absolute value replaces the base, \<open>..\<close> drops a
  directory.

  Two interfaces are stated once for all the validators that guard a path: \<open>path_guard\<close>,
  whose accepted values stay inside any base, and \<open>name_guard\<close>, whose accepted values name
  an entry directly in the base.
\<close>

section \<open>Paths\<close>

definition is_absolute :: "string \<Rightarrow> bool" where
  "is_absolute p \<longleftrightarrow> starts_with ''/'' p"

definition components :: "string \<Rightarrow> string list" where
  "components p = filter (\<lambda>c. c \<noteq> [] \<and> c \<noteq> ''.'') (split (CHR ''/'') p)"

definition has_parent_dir :: "string \<Rightarrow> bool" where
  "has_parent_dir p \<longleftrightarrow> ''..'' \<in> set (components p)"

definition file_name :: "string \<Rightarrow> string option" where
  "file_name p =
     (case rev (components p) of [] \<Rightarrow> None | c # _ \<Rightarrow> if c = ''..'' then None else Some c)"

definition rsplit_file_at_dot :: "string \<Rightarrow> string option \<times> string option" where
  "rsplit_file_at_dot f =
     (if f = ''..'' then (Some f, None)
      else case rsplit_once (CHR ''.'') f of
        None \<Rightarrow> (None, Some f)
      | Some (before, after) \<Rightarrow> if before = [] then (Some f, None) else (Some before, Some after))"

definition file_stem :: "string \<Rightarrow> string option" where
  "file_stem p =
     Option.bind (file_name p) (\<lambda>f. case rsplit_file_at_dot f of (Some b, _) \<Rightarrow> Some b | (None, a) \<Rightarrow> a)"

definition extension :: "string \<Rightarrow> string option" where
  "extension p =
     Option.bind (file_name p) (\<lambda>f. case rsplit_file_at_dot f of (Some b, a) \<Rightarrow> a | (None, _) \<Rightarrow> None)"

section \<open>Resolution onto a base\<close>

fun walk :: "string list \<Rightarrow> string list \<Rightarrow> string list" where
  "walk here [] = here"
| "walk here (c # cs) =
     walk (if c = [] \<or> c = ''.'' then here else if c = ''..'' then butlast here else here @ [c]) cs"

definition join_path :: "string list \<Rightarrow> string \<Rightarrow> string list" where
  "join_path root p = walk (if is_absolute p then [] else root) (split (CHR ''/'') p)"

definition inside :: "string list \<Rightarrow> string \<Rightarrow> bool" where
  "inside root p \<longleftrightarrow> take (length root) (join_path root p) = root"

lemma walk_no_parent: "''..'' \<notin> set cs \<Longrightarrow> \<exists>rest. walk here cs = here @ rest"
proof (induction cs arbitrary: here)
  case (Cons c cs)
  then show ?case by (cases "c = [] \<or> c = ''.''") (auto, metis append.assoc)
qed simp

lemma has_parent_dir_split: "has_parent_dir p \<longleftrightarrow> ''..'' \<in> set (split (CHR ''/'') p)"
  by (auto simp: has_parent_dir_def components_def)

lemma starts_with_hd: "starts_with [c] s \<longleftrightarrow> s \<noteq> [] \<and> hd s = c"
  by (cases s) (auto simp: starts_with_def)

lemma ends_with_last: "ends_with [c] s \<longleftrightarrow> s \<noteq> [] \<and> last s = c"
  by (cases s rule: rev_cases) (auto simp: ends_with_def)

section \<open>Guards\<close>

locale path_guard =
  fixes accepts :: "string \<Rightarrow> bool"
  assumes not_absolute: "accepts p \<Longrightarrow> \<not> is_absolute p"
    and no_parent: "accepts p \<Longrightarrow> \<not> has_parent_dir p"
begin

lemma stays_inside: "accepts p \<Longrightarrow> inside root p"
  using not_absolute[of p] no_parent[of p] walk_no_parent[of "split (CHR ''/'') p" root]
  by (auto simp: inside_def join_path_def has_parent_dir_split)

end

locale name_guard =
  fixes accepts :: "string \<Rightarrow> bool"
  assumes bare: "accepts p \<Longrightarrow> CHR ''/'' \<notin> set p"
    and not_special: "accepts p \<Longrightarrow> p \<noteq> [] \<and> p \<noteq> ''.'' \<and> p \<noteq> ''..''"
begin

lemma lands_directly: "accepts p \<Longrightarrow> join_path root p = root @ [p]"
  using bare[of p] not_special[of p]
  by (cases p) (auto simp: join_path_def is_absolute_def starts_with_hd split_no_sep)

end

sublocale name_guard \<subseteq> path_guard accepts
proof unfold_locales
  fix p
  assume "accepts p"
  with bare[of p] not_special[of p] show "\<not> is_absolute p" "\<not> has_parent_dir p"
    by (auto simp: is_absolute_def starts_with_hd has_parent_dir_split split_no_sep dest: hd_in_set)
qed

section \<open>Tokens\<close>

text \<open>\<open>str::split_whitespace\<close>: the maximal runs of characters that are not white space.\<close>

fun split_ws :: "string \<Rightarrow> string list" where
  "split_ws [] = [[]]"
| "split_ws (x # s) =
     (if is_ws x then [] # split_ws s
      else case split_ws s of p # ps \<Rightarrow> (x # p) # ps | [] \<Rightarrow> [[x]])"

definition split_whitespace :: "string \<Rightarrow> string list" where
  "split_whitespace s = filter (\<lambda>t. t \<noteq> []) (split_ws s)"

lemma split_ws_not_Nil [simp]: "split_ws s \<noteq> []"
  by (induction s) (auto split: list.splits)

lemma split_ws_token: "\<forall>c \<in> set t. \<not> is_ws c \<Longrightarrow> split_ws t = [t]"
  by (induction t) auto

lemma split_ws_append: "\<forall>c \<in> set t. \<not> is_ws c \<Longrightarrow> is_ws x \<Longrightarrow> split_ws (t @ x # s) = t # split_ws s"
  by (induction t) auto

definition token :: "string \<Rightarrow> bool" where
  "token t \<longleftrightarrow> t \<noteq> [] \<and> list_all (\<lambda>c. \<not> is_ws c) t"

lemma split_whitespace_join:
  "\<forall>t \<in> set ts. token t \<Longrightarrow> split_whitespace (join '' '' ts) = ts"
proof (induction "'' ''" ts rule: join.induct)
  case 1
  then show ?case by (simp add: split_whitespace_def)
next
  case (2 p)
  then show ?case by (simp add: split_whitespace_def token_def split_ws_token list_all_iff)
next
  case (3 p q ps)
  have "is_ws (CHR '' '')" by (simp add: is_ws_def)
  with 3 show ?case
    by (simp add: split_whitespace_def token_def split_ws_append list_all_iff)
qed

end
