(* ===== verification/Field_Checks.thy ===== *)
theory Field_Checks
  imports Paths
begin

text \<open>
  The field validators of \<open>crates/core/src/resolve.rs\<close>, with \<open>hostname.rs\<close> and
  \<open>model::locale_codeset\<close>: what each refuses, in the order it refuses it, and what a value
  that passes can no longer do to the file or command it is written into. The message of a
  refusal is kept as a constructor of \<open>why\<close>.

  A value written between double quotes into a file the shell reads is guarded by
  \<open>dq_guard\<close>; one that becomes a path or a file name by the guards of \<open>Paths\<close>.
\<close>

section \<open>Data\<close>

datatype why =
    Empty | ShellActive | ControlChar | SetsRoot | HasPercent
  | TooLong | BadStart | Comma | BadChar | NoCodeset | NotRelative | DotComponent
  | Whitespace | IsUrl | Bracketed | HasPort | EmptyLabel | LabelTooLong | HyphenEdge | KoSuffix

datatype field_error = InvalidField string string why

record Keymap =
  km_layout :: string
  km_model :: string
  km_variant :: string
  km_options :: string

section \<open>Host names\<close>

definition MAX_HOSTNAME_LEN :: nat where "MAX_HOSTNAME_LEN = 64"
definition MAX_LABEL_LEN :: nat where "MAX_LABEL_LEN = 63"

definition check_label :: "string \<Rightarrow> why + unit" where
  "check_label label =
     (if label = [] then Inl EmptyLabel
      else if length label > MAX_LABEL_LEN then Inl LabelTooLong
      else if starts_with ''-'' label \<or> ends_with ''-'' label then Inl HyphenEdge
      else if \<not> list_all (\<lambda>c. is_alnum c \<or> c = CHR ''-'') label then Inl BadChar
      else Inr ())"

fun check_labels :: "string list \<Rightarrow> why + unit" where
  "check_labels [] = Inr ()"
| "check_labels (l # ls) = bind_r (check_label l) (\<lambda>_. check_labels ls)"

definition hostname_check :: "string \<Rightarrow> why + unit" where
  "hostname_check name0 =
     (if name0 = [] then Inl Empty
      else if length name0 > MAX_HOSTNAME_LEN then Inl TooLong
      else check_labels (split (CHR ''.'') name0))"

definition validate_hostname :: "string \<Rightarrow> field_error + unit" where
  "validate_hostname hostname =
     (case hostname_check hostname of
        Inl w \<Rightarrow> Inl (InvalidField ''hostname'' hostname w) | Inr u \<Rightarrow> Inr u)"

section \<open>Command lines\<close>

definition validate_kernel_cmdline :: "string option \<Rightarrow> field_error + string" where
  "validate_kernel_cmdline cmdline =
     (case cmdline of
        None \<Rightarrow> Inr []
      | Some raw \<Rightarrow>
          (let value = trim raw; bad = (\<lambda>w. Inl (InvalidField ''kernel cmdline'' value w)) in
           if list_ex (\<lambda>c. c \<in> {CHR 0x22, CHR 0x5C, CHR ''$'', CHR 0x60}) value then bad ShellActive
           else if list_ex is_control value then bad ControlChar
           else if list_ex (starts_with ''root='') (split_whitespace value) then bad SetsRoot
           else Inr value))"

definition validate_depthcharge_cmdline :: "string \<Rightarrow> field_error + unit" where
  "validate_depthcharge_cmdline cmdline =
     (let bad = (\<lambda>w. Inl (InvalidField ''kernel cmdline'' cmdline w)) in
      if CHR ''%'' \<in> set cmdline then bad HasPercent
      else if list_ex (starts_with ''root='') (split_whitespace cmdline) then bad SetsRoot
      else Inr ())"

section \<open>Paths and file names\<close>

definition is_plain_relative_path :: "string \<Rightarrow> bool" where
  "is_plain_relative_path path \<longleftrightarrow>
     path \<noteq> [] \<and> \<not> starts_with ''/'' path \<and>
     list_all (\<lambda>c. c \<noteq> [] \<and> c \<noteq> ''.'' \<and> c \<noteq> ''..'') (split (CHR ''/'') path)"

definition apt_line_token :: "string \<Rightarrow> bool" where
  "apt_line_token v \<longleftrightarrow> v \<noteq> [] \<and> list_all (\<lambda>c. is_graphic c \<and> c \<noteq> CHR ''['' \<and> c \<noteq> CHR '']'') v"

definition apt_file_stem :: "string \<Rightarrow> bool" where
  "apt_file_stem v \<longleftrightarrow> v \<noteq> [] \<and> v \<noteq> ''.'' \<and> v \<noteq> ''..'' \<and>
     list_all (\<lambda>c. is_alnum c \<or> c \<in> {CHR ''.'', CHR ''-'', CHR ''_''}) v"

definition validate_board_profile :: "string \<Rightarrow> field_error + unit" where
  "validate_board_profile board =
     (if board \<noteq> [] \<and> board \<noteq> ''.'' \<and> board \<noteq> ''..'' \<and>
         list_all (\<lambda>c. is_alnum c \<or> c \<in> {CHR ''_'', CHR ''-'', CHR ''.''}) board
      then Inr () else Inl (InvalidField ''board profile'' board BadChar))"

section \<open>Account, localization and time\<close>

definition check_group_name :: "string \<Rightarrow> field_error + unit" where
  "check_group_name group0 =
     (let bad = (\<lambda>w. Inl (InvalidField ''group'' group0 w)) in
      if group0 = [] then bad Empty
      else if length group0 > 32 then bad TooLong
      else if \<not> (is_lower (hd group0) \<or> hd group0 = CHR ''_'') then bad BadStart
      else case find (\<lambda>c. \<not> (is_lower c \<or> is_digit c \<or> c = CHR ''_'' \<or> c = CHR ''-'')) group0 of
             Some c \<Rightarrow> if c = CHR '','' then bad Comma else bad BadChar
           | None \<Rightarrow> Inr ())"

definition locale_codeset :: "string \<Rightarrow> string option" where
  "locale_codeset loc =
     (case rsplit_once (CHR ''.'') loc of
        None \<Rightarrow> None
      | Some (_, after_dot) \<Rightarrow>
          (let codeset = hd (split (CHR ''@'') after_dot) in if codeset = [] then None else Some codeset))"

definition validate_locale :: "string \<Rightarrow> field_error + unit" where
  "validate_locale loc =
     (let bad = (\<lambda>w. Inl (InvalidField ''locale'' loc w)) in
      if loc = [] then bad Empty
      else if \<not> list_all (\<lambda>c. is_alnum c \<or> c \<in> {CHR ''.'', CHR ''_'', CHR ''-'', CHR ''@''}) loc then bad BadChar
      else if locale_codeset loc = None then bad NoCodeset
      else Inr ())"

fun check_zone_parts :: "string \<Rightarrow> string list \<Rightarrow> field_error + unit" where
  "check_zone_parts tz [] = Inr ()"
| "check_zone_parts tz (part # ps) =
     (if part = [] \<or> part = ''.'' \<or> part = ''..'' then Inl (InvalidField ''timezone'' tz DotComponent)
      else if \<not> list_all (\<lambda>c. is_alnum c \<or> c \<in> {CHR ''_'', CHR ''-'', CHR ''+''}) part
      then Inl (InvalidField ''timezone'' tz BadChar)
      else check_zone_parts tz ps)"

definition validate_timezone :: "string \<Rightarrow> field_error + unit" where
  "validate_timezone tz =
     (if tz = [] then Inl (InvalidField ''timezone'' tz Empty)
      else if starts_with ''/'' tz \<or> ends_with ''/'' tz then Inl (InvalidField ''timezone'' tz NotRelative)
      else check_zone_parts tz (split (CHR ''/'') tz))"

definition validate_ntp_server :: "string \<Rightarrow> field_error + unit" where
  "validate_ntp_server server =
     (let bad = (\<lambda>w. Inl (InvalidField ''NTP server'' server w)) in
      if server = [] then bad Empty
      else if list_ex is_ws server then bad Whitespace
      else if contains_str ''://'' server then bad IsUrl
      else if starts_with ''['' server \<or> ends_with '']'' server then bad Bracketed
      else if length (filter (\<lambda>c. c = CHR '':'') server) = 1 then bad HasPort
      else if list_ex (\<lambda>c. \<not> (is_alnum c \<or> c \<in> {CHR ''.'', CHR ''-'', CHR '':'', CHR ''_''})) server
      then bad BadChar
      else Inr ())"

definition keymap_value :: "string \<Rightarrow> bool" where
  "keymap_value v \<longleftrightarrow> list_all (\<lambda>c. is_alnum c \<or> c \<in> {CHR '','', CHR '':'', CHR ''_'', CHR ''-'', CHR ''+'', CHR ''.''}) v"

fun check_keymap_values :: "(string \<times> string) list \<Rightarrow> field_error + unit" where
  "check_keymap_values [] = Inr ()"
| "check_keymap_values ((what, value) # rest) =
     (if \<not> keymap_value value then Inl (InvalidField what value BadChar) else check_keymap_values rest)"

definition validate_keymap :: "Keymap \<Rightarrow> field_error + unit" where
  "validate_keymap keymap =
     (if km_layout keymap = [] then Inl (InvalidField ''keymap layout'' (km_layout keymap) Empty)
      else check_keymap_values
        [(''keymap layout'', km_layout keymap), (''keymap model'', km_model keymap),
         (''keymap variant'', km_variant keymap), (''keymap options'', km_options keymap)])"

section \<open>Characters\<close>

lemma alnum_plain:
  assumes "is_alnum c"
  shows "c \<noteq> CHR ''/''" "c \<noteq> CHR 0x22" "c \<noteq> CHR 0x5C" "c \<noteq> CHR ''$''" "c \<noteq> CHR 0x60" "c \<noteq> CHR '',''" "c \<noteq> CHR ''.''"
    "\<not> is_ws c" "\<not> is_control c"
  using assms by (auto simp: char_class_defs)

lemma lower_alnum: "is_lower c \<Longrightarrow> is_alnum c" "is_digit c \<Longrightarrow> is_alnum c"
  by (auto simp: is_alnum_def is_alpha_def)

section \<open>Path guards\<close>

lemma check_zone_parts_Inr:
  "check_zone_parts tz ps = Inr () \<longleftrightarrow>
     (\<forall>p \<in> set ps. p \<noteq> [] \<and> p \<noteq> ''.'' \<and> p \<noteq> ''..''
        \<and> (\<forall>c \<in> set p. is_alnum c \<or> c = CHR ''_'' \<or> c = CHR ''-'' \<or> c = CHR ''+''))"
  by (induction ps) (auto simp: list_all_iff)

interpretation zone_guard: path_guard "\<lambda>tz. validate_timezone tz = Inr ()"
  by unfold_locales
    (auto simp: validate_timezone_def is_absolute_def has_parent_dir_split check_zone_parts_Inr split: if_splits)

interpretation plain_guard: path_guard is_plain_relative_path
  by unfold_locales
    (auto simp: is_plain_relative_path_def is_absolute_def has_parent_dir_split list_all_iff)

interpretation stem_guard: name_guard apt_file_stem
proof unfold_locales
  fix p
  show "apt_file_stem p \<Longrightarrow> CHR ''/'' \<notin> set p"
    using alnum_plain(1) by (fastforce simp: apt_file_stem_def list_all_iff)
  show "apt_file_stem p \<Longrightarrow> p \<noteq> [] \<and> p \<noteq> ''.'' \<and> p \<noteq> ''..''"
    by (simp add: apt_file_stem_def)
qed

lemma board_profile_stem: "validate_board_profile p = Inr () \<longleftrightarrow> apt_file_stem p"
  by (auto simp: validate_board_profile_def apt_file_stem_def list_all_iff)

interpretation board_guard: name_guard "\<lambda>p. validate_board_profile p = Inr ()"
  using stem_guard.bare stem_guard.not_special by unfold_locales (auto simp: board_profile_stem)

section \<open>The shell's double quotes\<close>

text \<open>What a shell reads from just after an opening double quote: the text up to the closing
  quote and what follows, or \<open>None\<close> when it would expand or unescape something on the way,
  or when the quote is never closed.\<close>

fun dq_read :: "string \<Rightarrow> (string \<times> string) option" where
  "dq_read [] = None"
| "dq_read (c # s) =
     (if c = CHR 0x22 then Some ([], s)
      else if c = CHR ''$'' \<or> c = CHR 0x60 \<or> c = CHR 0x5C then None
      else map_option (\<lambda>(v, rest). (c # v, rest)) (dq_read s))"

locale dq_guard =
  fixes accepts :: "string \<Rightarrow> bool"
  assumes inert_chars: "accepts v \<Longrightarrow> c \<in> set v \<Longrightarrow> c \<noteq> CHR 0x22 \<and> c \<noteq> CHR ''$'' \<and> c \<noteq> CHR 0x60 \<and> c \<noteq> CHR 0x5C"
    and one_line: "accepts v \<Longrightarrow> c \<in> set v \<Longrightarrow> \<not> is_control c"
begin

lemma reads_back: "accepts v \<Longrightarrow> dq_read (v @ CHR 0x22 # rest) = Some (v, rest)"
proof -
  have "\<forall>c \<in> set v. c \<noteq> CHR 0x22 \<and> c \<noteq> CHR ''$'' \<and> c \<noteq> CHR 0x60 \<and> c \<noteq> CHR 0x5C \<Longrightarrow> ?thesis"
    by (induction v) auto
  then show "accepts v \<Longrightarrow> ?thesis" using inert_chars by blast
qed

lemma single_line: "accepts v \<Longrightarrow> CHR 0x0A \<notin> set v"
  using one_line[of v "CHR 0x0A"] by (auto simp: is_control_def)

end

lemma check_keymap_values_Inr:
  "check_keymap_values kvs = Inr () \<longleftrightarrow> (\<forall>(w, v) \<in> set kvs. keymap_value v)"
  by (induction kvs) (auto split: if_splits)

interpretation cmdline_guard: dq_guard "\<lambda>v. validate_kernel_cmdline (Some raw) = Inr v"
  by unfold_locales
    (auto simp: validate_kernel_cmdline_def Let_def list_ex_iff split: if_splits)

interpretation locale_guard: dq_guard "\<lambda>v. validate_locale v = Inr ()"
  using alnum_plain
  by unfold_locales
    (fastforce simp: validate_locale_def Let_def list_all_iff is_control_def split: if_splits)+

interpretation keymap_guard: dq_guard keymap_value
  using alnum_plain by unfold_locales (fastforce simp: keymap_value_def list_all_iff is_control_def)+

section \<open>Host names\<close>

definition label_ok :: "string \<Rightarrow> bool" where
  "label_ok l \<longleftrightarrow> 1 \<le> length l \<and> length l \<le> 63 \<and> list_all (\<lambda>c. is_alnum c \<or> c = CHR ''-'') l
     \<and> hd l \<noteq> CHR ''-'' \<and> last l \<noteq> CHR ''-''"

lemma check_label_Inr: "check_label l = Inr () \<longleftrightarrow> label_ok l"
  by (auto simp: check_label_def label_ok_def MAX_LABEL_LEN_def starts_with_hd ends_with_last Suc_le_eq)

lemma check_labels_Inr: "check_labels ls = Inr () \<longleftrightarrow> list_all label_ok ls"
  by (induction ls) (auto simp: check_label_Inr)

lemma label_no_dot: "label_ok l \<Longrightarrow> CHR ''.'' \<notin> set l"
  using alnum_plain(7) by (fastforce simp: label_ok_def list_all_iff)

lemma hostname_check_Inr:
  "hostname_check s = Inr () \<longleftrightarrow> s \<noteq> [] \<and> length s \<le> 64 \<and> list_all label_ok (split (CHR ''.'') s)"
  by (auto simp: hostname_check_def MAX_HOSTNAME_LEN_def check_labels_Inr)

lemma hostname_token:
  assumes "hostname_check s = Inr ()"
  shows "token s"
proof -
  have s: "s \<noteq> []" "list_all label_ok (split (CHR ''.'') s)"
    using assms by (simp_all add: hostname_check_Inr)
  have "\<not> is_ws c" if "c \<in> set s" for c
  proof -
    have "c \<in> set ''.'' \<or> (\<exists>p \<in> set (split (CHR ''.'') s). c \<in> set p)"
      using that set_join_subset[of c "''.''" "split (CHR ''.'') s"] by (simp add: join_split)
    then have "c = CHR ''.'' \<or> is_alnum c \<or> c = CHR ''-''"
      using s(2) by (auto simp: label_ok_def list_all_iff)
    then show ?thesis using alnum_plain(8) by (elim disjE) (simp_all add: is_ws_def)
  qed
  with s(1) show ?thesis by (simp add: token_def list_all_iff)
qed

section \<open>Properties\<close>

text \<open>C27. No accepted path leaves the directory it is joined onto: a time zone stays under the
  zone database and a plain relative path under its tree, and an apt source name, a keyring
  name or a board profile names a file directly in its directory.\<close>

theorem accepted_paths_stay_inside:
  "(validate_timezone p = Inr () \<longrightarrow> inside root p) \<and>
   (is_plain_relative_path p \<longrightarrow> inside root p) \<and>
   (apt_file_stem p \<longrightarrow> join_path root p = root @ [p]) \<and>
   (validate_board_profile p = Inr () \<longrightarrow> join_path root p = root @ [p])"
  using zone_guard.stays_inside plain_guard.stays_inside stem_guard.lands_directly board_guard.lands_directly
  by blast

theorem accepted_paths_stay_inside_witness:
  "inside [''usr'', ''share'', ''zoneinfo''] ''America/New_York''
   \<and> join_path [''blobs'', ''keyrings''] ''jellyfin.gpg'' = [''blobs'', ''keyrings'', ''jellyfin.gpg'']
   \<and> validate_timezone ''../../etc/shadow'' \<noteq> Inr () \<and> \<not> apt_file_stem ''..''"
proof -
  have "validate_timezone ''America/New_York'' = Inr ()" by code_simp
  moreover have "apt_file_stem ''jellyfin.gpg''" by code_simp
  moreover have "validate_timezone ''../../etc/shadow'' \<noteq> Inr ()" by code_simp
  moreover have "\<not> apt_file_stem ''..''" by code_simp
  ultimately show ?thesis
    using accepted_paths_stay_inside[of "''America/New_York''" "[''usr'', ''share'', ''zoneinfo'']"]
      accepted_paths_stay_inside[of "''jellyfin.gpg''" "[''blobs'', ''keyrings'']"] by simp
qed

text \<open>C28. A value written between double quotes into a file the shell reads comes back as
  written, with nothing expanded and nothing left over: the kernel command line (the trimmed
  one, which holds no newline), a locale name, and each of the four keyboard values.\<close>

theorem shell_values_inert:
  "(validate_kernel_cmdline (Some raw) = Inr v \<longrightarrow>
      dq_read (v @ CHR 0x22 # rest) = Some (v, rest) \<and> CHR 0x0A \<notin> set v \<and> v = trim raw) \<and>
   (validate_locale v = Inr () \<longrightarrow> dq_read (v @ CHR 0x22 # rest) = Some (v, rest) \<and> CHR 0x0A \<notin> set v) \<and>
   (validate_keymap k = Inr () \<longrightarrow>
      km_layout k \<noteq> [] \<and>
      (\<forall>x \<in> {km_layout k, km_model k, km_variant k, km_options k}.
         dq_read (x @ CHR 0x22 # rest) = Some (x, rest) \<and> CHR 0x0A \<notin> set x))"
proof (intro conjI impI)
  assume c: "validate_kernel_cmdline (Some raw) = Inr v"
  show "dq_read (v @ CHR 0x22 # rest) = Some (v, rest)" "CHR 0x0A \<notin> set v"
    using c by (rule cmdline_guard.reads_back, rule cmdline_guard.single_line)
  show "v = trim raw" using c by (auto simp: validate_kernel_cmdline_def Let_def split: if_splits)
next
  assume "validate_locale v = Inr ()"
  then show "dq_read (v @ CHR 0x22 # rest) = Some (v, rest)" "CHR 0x0A \<notin> set v"
    by (rule locale_guard.reads_back, rule locale_guard.single_line)
next
  assume k: "validate_keymap k = Inr ()"
  then show "km_layout k \<noteq> []" by (auto simp: validate_keymap_def)
  have "keymap_value x" if "x \<in> {km_layout k, km_model k, km_variant k, km_options k}" for x
    using k that by (auto simp: validate_keymap_def check_keymap_values_Inr split: if_splits)
  then show "\<forall>x \<in> {km_layout k, km_model k, km_variant k, km_options k}.
         dq_read (x @ CHR 0x22 # rest) = Some (x, rest) \<and> CHR 0x0A \<notin> set x"
    using keymap_guard.reads_back keymap_guard.single_line by blast
qed

theorem shell_values_inert_witness:
  "dq_read (''rootwait quiet'' @ [CHR 0x22]) = Some (''rootwait quiet'', [])
   \<and> validate_kernel_cmdline (Some ''quiet $(reboot)'') = Inl (InvalidField ''kernel cmdline'' ''quiet $(reboot)'' ShellActive)
   \<and> dq_read (''sr_RS.UTF-8@latin'' @ [CHR 0x22]) = Some (''sr_RS.UTF-8@latin'', [])
   \<and> validate_keymap \<lparr>km_layout = ''gb'', km_model = ''pc105'', km_variant = ''extd'', km_options = ''ctrl:nocaps''\<rparr> = Inr ()"
proof -
  have "validate_kernel_cmdline (Some ''  rootwait quiet'') = Inr ''rootwait quiet''" by code_simp
  moreover have "validate_locale ''sr_RS.UTF-8@latin'' = Inr ()" by code_simp
  moreover have "validate_keymap \<lparr>km_layout = ''gb'', km_model = ''pc105'', km_variant = ''extd'', km_options = ''ctrl:nocaps''\<rparr> = Inr ()"
    by code_simp
  moreover have "validate_kernel_cmdline (Some ''quiet $(reboot)'') = Inl (InvalidField ''kernel cmdline'' ''quiet $(reboot)'' ShellActive)"
    by code_simp
  ultimately show ?thesis
    using shell_values_inert[of "''  rootwait quiet''" "''rootwait quiet''" "[]"]
      shell_values_inert[of "''x''" "''sr_RS.UTF-8@latin''" "[]"] by blast
qed

text \<open>The host name check is the RFC 1123 shape exactly: at most 64 characters, made of
  labels joined by dots, each of 1 to 63 letters, digits and hyphens with no hyphen at either
  end. An accepted name is one field of a line of \<open>/etc/hosts\<close>.\<close>

theorem hostname_check_exact:
  "(hostname_check s = Inr () \<longleftrightarrow>
     length s \<le> 64 \<and> (\<exists>labels. labels \<noteq> [] \<and> list_all label_ok labels \<and> s = join ''.'' labels)) \<and>
   (hostname_check s = Inr () \<longrightarrow> split_whitespace (join '' '' [''127.0.1.1'', s]) = [''127.0.1.1'', s])"
proof (intro conjI impI)
  show "hostname_check s = Inr () \<longleftrightarrow>
     length s \<le> 64 \<and> (\<exists>labels. labels \<noteq> [] \<and> list_all label_ok labels \<and> s = join ''.'' labels)"
  proof
    assume "hostname_check s = Inr ()"
    then show "length s \<le> 64 \<and> (\<exists>labels. labels \<noteq> [] \<and> list_all label_ok labels \<and> s = join ''.'' labels)"
      using join_split[of "CHR ''.''" s] split_not_Nil[of "CHR ''.''" s] unfolding hostname_check_Inr by metis
  next
    assume r: "length s \<le> 64 \<and> (\<exists>labels. labels \<noteq> [] \<and> list_all label_ok labels \<and> s = join ''.'' labels)"
    then obtain labels where l: "labels \<noteq> []" "list_all label_ok labels" "s = join ''.'' labels" by blast
    then have "split (CHR ''.'') s = labels"
      by (simp add: split_join label_no_dot list_all_iff)
    moreover have "s \<noteq> []" using calculation l(1,2) by (auto simp: label_ok_def)
    ultimately show "hostname_check s = Inr ()" unfolding hostname_check_Inr using r l by simp
  qed
  assume h: "hostname_check s = Inr ()"
  then have "token s" by (rule hostname_token)
  then show "split_whitespace (join '' '' [''127.0.1.1'', s]) = [''127.0.1.1'', s]"
    by (intro split_whitespace_join) (auto simp: token_def is_ws_def)
qed

theorem hostname_check_exact_witness:
  "hostname_check ''turing-rk1.lan'' = Inr () \<and> hostname_check ''rk1-.lan'' = Inl HyphenEdge
   \<and> split_whitespace (join '' '' [''127.0.1.1'', ''turing-rk1.lan'']) = [''127.0.1.1'', ''turing-rk1.lan'']"
proof -
  have "hostname_check ''turing-rk1.lan'' = Inr ()" by code_simp
  moreover have "hostname_check ''rk1-.lan'' = Inl HyphenEdge" by code_simp
  ultimately show ?thesis using hostname_check_exact[of "''turing-rk1.lan''"] by blast
qed

end
