(* ===== verification/Expect.thy ===== *)
theory Expect
  imports Paths
begin

text \<open>
  \<open>crates/core/src/expect.rs\<close>: the runtime checks a configuration layer declares, from the
  authored table (\<open>ExpectRaw\<close>) through its validation to the \<open>.checks\<close> file the image carries.
  The reader of that file is the shell loop of \<open>base/overlay/usr/lib/boot2deb/selftest\<close>:
  empty and comment lines are skipped, the kind ends at the first blank, and the argument text
  is the rest without its leading blanks.
\<close>

section \<open>Data\<close>

datatype Expectation =
    File string
  | Dtb string
  | Firmware string
  | DriverBound string string
  | Devnode string
  | SoundCard string
  | NoDmesgMatch string

record ExpectRaw =
  xr_check :: string
  xr_path :: "string option"
  xr_device :: "string option"
  xr_driver :: "string option"
  xr_name :: "string option"
  xr_pattern :: "string option"

datatype expect_error =
    DerivedCheck string
  | UnknownCheck string
  | NotTaken string string "string list"
  | RequiresField string string
  | NotUnderDev string
  | NotDtb string
  | NotAbsolute string string
  | NotRelativePath string string
  | ParentStep string string
  | NotWord string string
  | NotLine string string

datatype ExpectScope = ExSoc | ExBootMethod | ExDevice | ExKernel | ExFeature | ExKmod

record ExpectationGroup =
  eg_scope :: ExpectScope
  eg_name :: string
  eg_expect :: "Expectation list"

section \<open>Validation\<close>

definition check_word :: "string \<Rightarrow> string \<Rightarrow> expect_error + unit" where
  "check_word what value0 =
     (if value0 = [] \<or> list_ex is_ws value0 then Inl (NotWord what value0) else Inr ())"

definition check_line :: "string \<Rightarrow> string \<Rightarrow> expect_error + unit" where
  "check_line what value0 =
     (if value0 = [] \<or> CHR 0x0A \<in> set value0 \<or> value0 \<noteq> trim value0 then Inl (NotLine what value0) else Inr ())"

definition check_no_parent :: "string \<Rightarrow> string \<Rightarrow> expect_error + unit" where
  "check_no_parent k path =
     (if list_ex (\<lambda>seg. seg = ''..'') (split (CHR ''/'') path) then Inl (ParentStep k path) else Inr ())"

definition absolute_path :: "string \<Rightarrow> string \<Rightarrow> expect_error + unit" where
  "absolute_path k path =
     (if \<not> starts_with ''/'' path then Inl (NotAbsolute k path)
      else bind_r (check_word (k @ '' path'') path) (\<lambda>_. check_no_parent k path))"

definition relative_path :: "string \<Rightarrow> string \<Rightarrow> expect_error + unit" where
  "relative_path k path =
     (if path = [] \<or> starts_with ''/'' path then Inl (NotRelativePath k path)
      else bind_r (check_word (k @ '' path'') path) (\<lambda>_. check_no_parent k path))"

fun expect_kind :: "Expectation \<Rightarrow> string" where
  "expect_kind (File _) = ''file''"
| "expect_kind (Dtb _) = ''dtb''"
| "expect_kind (Firmware _) = ''firmware''"
| "expect_kind (DriverBound _ _) = ''driver-bound''"
| "expect_kind (Devnode _) = ''devnode''"
| "expect_kind (SoundCard _) = ''sound-card''"
| "expect_kind (NoDmesgMatch _) = ''no-dmesg-match''"

fun expect_validate :: "Expectation \<Rightarrow> expect_error + unit" where
  "expect_validate (File path) = absolute_path ''file'' path"
| "expect_validate (Devnode path) =
     bind_r (absolute_path ''devnode'' path) (\<lambda>_.
       if \<not> starts_with ''/dev/'' path then Inl (NotUnderDev path) else Inr ())"
| "expect_validate (Dtb path) =
     bind_r (relative_path ''dtb'' path) (\<lambda>_.
       if \<not> ends_with ''.dtb'' path then Inl (NotDtb path) else Inr ())"
| "expect_validate (Firmware path) = relative_path ''firmware'' path"
| "expect_validate (DriverBound device driver) =
     bind_r (check_word ''driver-bound device'' device) (\<lambda>_. check_word ''driver-bound driver'' driver)"
| "expect_validate (SoundCard n) = check_line ''sound-card name'' n"
| "expect_validate (NoDmesgMatch pattern) = check_line ''no-dmesg-match pattern'' pattern"

section \<open>The authored table\<close>

definition DERIVED_KINDS :: "string list" where
  "DERIVED_KINDS = [''kernel-release'', ''kernel-flavor'', ''single-kernel'', ''initramfs-module'']"

definition raw_fields :: "ExpectRaw \<Rightarrow> (string \<times> string option) list" where
  "raw_fields raw =
     [(''path'', xr_path raw), (''device'', xr_device raw), (''driver'', xr_driver raw),
      (''name'', xr_name raw), (''pattern'', xr_pattern raw)]"

definition provided :: "ExpectRaw \<Rightarrow> string list" where
  "provided raw = map fst (filter (\<lambda>(_, v). v \<noteq> None) (raw_fields raw))"

definition check_takes :: "string \<Rightarrow> expect_error + string list" where
  "check_takes k =
     (if k \<in> {''file'', ''dtb'', ''firmware'', ''devnode''} then Inr [''path'']
      else if k = ''driver-bound'' then Inr [''device'', ''driver'']
      else if k = ''sound-card'' then Inr [''name'']
      else if k = ''no-dmesg-match'' then Inr [''pattern'']
      else if k \<in> set DERIVED_KINDS then Inl (DerivedCheck k)
      else Inl (UnknownCheck k))"

definition take_field :: "string \<Rightarrow> string \<Rightarrow> string option \<Rightarrow> expect_error + string" where
  "take_field k field v = ok_or (RequiresField k field) v"

definition build_expect :: "ExpectRaw \<Rightarrow> expect_error + Expectation" where
  "build_expect raw =
     (let k = xr_check raw; path = take_field k ''path'' (xr_path raw) in
      if k = ''file'' then bind_r path (\<lambda>p. Inr (File p))
      else if k = ''dtb'' then bind_r path (\<lambda>p. Inr (Dtb p))
      else if k = ''firmware'' then bind_r path (\<lambda>p. Inr (Firmware p))
      else if k = ''driver-bound'' then
        bind_r (take_field k ''device'' (xr_device raw)) (\<lambda>device.
        bind_r (take_field k ''driver'' (xr_driver raw)) (\<lambda>driver. Inr (DriverBound device driver)))
      else if k = ''devnode'' then bind_r path (\<lambda>p. Inr (Devnode p))
      else if k = ''sound-card'' then bind_r (take_field k ''name'' (xr_name raw)) (\<lambda>n. Inr (SoundCard n))
      else bind_r (take_field k ''pattern'' (xr_pattern raw)) (\<lambda>p. Inr (NoDmesgMatch p)))"

definition expect_try_from :: "ExpectRaw \<Rightarrow> expect_error + Expectation" where
  "expect_try_from raw =
     bind_r (check_takes (xr_check raw)) (\<lambda>takes.
     case find (\<lambda>f. f \<notin> set takes) (provided raw) of
       Some extra \<Rightarrow> Inl (NotTaken (xr_check raw) extra takes)
     | None \<Rightarrow>
         bind_r (build_expect raw) (\<lambda>expect.
         bind_r (expect_validate expect) (\<lambda>_. Inr expect)))"

section \<open>The generated file\<close>

fun expect_args :: "Expectation \<Rightarrow> string" where
  "expect_args (File path) = path"
| "expect_args (Dtb path) = path"
| "expect_args (Firmware path) = path"
| "expect_args (Devnode path) = path"
| "expect_args (DriverBound device driver) = device @ '' '' @ driver"
| "expect_args (SoundCard n) = n"
| "expect_args (NoDmesgMatch pattern) = pattern"

definition render_line :: "string \<Rightarrow> string \<Rightarrow> string" where
  "render_line k args = trim_end (k @ replicate (17 - length k) (CHR '' '') @ '' '' @ args)"

definition expect_render :: "Expectation \<Rightarrow> string" where
  "expect_render e = render_line (expect_kind e) (expect_args e)"

fun expect_scope_as_str :: "ExpectScope \<Rightarrow> string" where
  "expect_scope_as_str ExSoc = ''soc''"
| "expect_scope_as_str ExBootMethod = ''boot-method''"
| "expect_scope_as_str ExDevice = ''device''"
| "expect_scope_as_str ExKernel = ''kernel''"
| "expect_scope_as_str ExFeature = ''feature''"
| "expect_scope_as_str ExKmod = ''kmod''"

definition group_file_name :: "ExpectationGroup \<Rightarrow> string" where
  "group_file_name g = expect_scope_as_str (eg_scope g) @ ''-'' @ eg_name g @ ''.checks''"

definition group_render :: "ExpectationGroup \<Rightarrow> string" where
  "group_render g =
     ''# Expectations declared by the '' @ expect_scope_as_str (eg_scope g) @ '' layer '' @ [CHR 0x27] @ eg_name g
     @ [CHR 0x27] @ ''.'' @ [CHR 0x0A]
     @ ''# Run by boot2deb-selftest; see the boot2deb manual (reference/self-test).'' @ [CHR 0x0A]
     @ concat (map (\<lambda>check. expect_render check @ [CHR 0x0A]) (eg_expect g))"

text \<open>What the image's shell loop reads back: one (kind, argument text) pair per check line.\<close>

definition is_blank :: "char \<Rightarrow> bool" where
  "is_blank c \<longleftrightarrow> c = CHR '' '' \<or> c = CHR 0x09"

definition read_check :: "string \<Rightarrow> (string \<times> string) list" where
  "read_check l =
     (if l = [] \<or> hd l = CHR ''#'' then []
      else [(takeWhile (\<lambda>c. \<not> is_blank c) l, dropWhile is_blank (dropWhile (\<lambda>c. \<not> is_blank c) l))])"

definition read_checks :: "string \<Rightarrow> (string \<times> string) list" where
  "read_checks text0 = concat (map read_check (split (CHR 0x0A) text0))"

section \<open>Lemmas\<close>

lemma check_word_Inr: "check_word what v = Inr () \<longleftrightarrow> token v"
  by (auto simp: check_word_def token_def list_ex_iff list_all_iff)

lemma check_line_Inr: "check_line what v = Inr () \<longleftrightarrow> v \<noteq> [] \<and> CHR 0x0A \<notin> set v \<and> trim v = v"
  by (auto simp: check_line_def)

lemma blank_ws: "is_blank c \<Longrightarrow> is_ws c"
  by (auto simp: is_blank_def is_ws_def)

lemma newline_ws: "is_ws (CHR 0x0A)"
  by (simp add: is_ws_def)

text \<open>What a validated argument text is: one line, with no white space at its edges.\<close>

definition args_ok :: "string \<Rightarrow> bool" where
  "args_ok s \<longleftrightarrow> s \<noteq> [] \<and> CHR 0x0A \<notin> set s \<and> \<not> is_ws (hd s) \<and> \<not> is_ws (last s)"

lemma token_args_ok: "token v \<Longrightarrow> args_ok v"
  using newline_ws by (auto simp: token_def args_ok_def list_all_iff)

lemma line_args_ok: "check_line what v = Inr () \<Longrightarrow> args_ok v"
  by (auto simp: check_line_Inr args_ok_def trim_eq_self)

lemma two_words_args_ok: "token a \<Longrightarrow> token b \<Longrightarrow> args_ok (a @ '' '' @ b)"
  using newline_ws by (auto simp: token_def args_ok_def list_all_iff hd_append)

lemma absolute_path_token: "absolute_path k p = Inr () \<Longrightarrow> token p"
  by (auto simp: absolute_path_def check_word_Inr split: if_splits)

lemma relative_path_token: "relative_path k p = Inr () \<Longrightarrow> token p"
  by (auto simp: relative_path_def check_word_Inr split: if_splits)

interpretation relative_guard: path_guard "\<lambda>p. relative_path k p = Inr ()"
  by unfold_locales
    (auto simp: relative_path_def check_no_parent_def is_absolute_def has_parent_dir_split list_ex_iff split: if_splits)

lemma expect_args_ok: "expect_validate e = Inr () \<Longrightarrow> args_ok (expect_args e)"
  by (cases e)
    (auto intro: token_args_ok line_args_ok two_words_args_ok[simplified] absolute_path_token relative_path_token
      simp: check_word_Inr)

lemma kind_plain: "expect_kind e \<noteq> [] \<and> list_all (\<lambda>c. c \<noteq> CHR 0x0A \<and> \<not> is_blank c \<and> c \<noteq> CHR ''#'') (expect_kind e)"
  by (cases e) (simp_all add: is_blank_def)

lemma render_line_eq:
  "args_ok s \<Longrightarrow> render_line k s = k @ replicate (17 - length k) (CHR '' '') @ '' '' @ s"
  unfolding render_line_def by (rule trim_end_id) (simp add: args_ok_def)

lemma read_rendered:
  assumes "args_ok s" and k: "k \<noteq> []" "list_all (\<lambda>c. c \<noteq> CHR 0x0A \<and> \<not> is_blank c \<and> c \<noteq> CHR ''#'') k"
  shows "read_check (render_line k s) = [(k, s)] \<and> CHR 0x0A \<notin> set (render_line k s)"
proof -
  let ?b = "replicate (17 - length k) (CHR '' '') @ '' ''"
  have r: "render_line k s = k @ ?b @ s" using render_line_eq[OF assms(1)] by simp
  have b: "\<forall>c \<in> set ?b. is_blank c" by (auto simp: is_blank_def)
  have nb: "\<forall>c \<in> set k. \<not> is_blank c \<and> c \<noteq> CHR ''#'' \<and> c \<noteq> CHR 0x0A" using k(2) by (auto simp: list_all_iff)
  have hb: "is_blank (hd (?b @ s))" using b by (cases "17 - length k") (auto simp: is_blank_def)
  have s: "s \<noteq> []" "\<not> is_blank (hd s)" "CHR 0x0A \<notin> set s" using assms(1) blank_ws by (auto simp: args_ok_def)
  obtain y ys where y: "?b @ s = y # ys" "is_blank y" using hb by (cases "?b @ s") auto
  have t: "takeWhile (\<lambda>c. \<not> is_blank c) (k @ ?b @ s) = k" "dropWhile (\<lambda>c. \<not> is_blank c) (k @ ?b @ s) = ?b @ s"
    unfolding y(1) using nb y(2) by (simp_all add: takeWhile_append dropWhile_append)
  have "dropWhile is_blank (?b @ s) = s"
    using b s(1,2) by (cases s) (simp_all add: dropWhile_append)
  moreover have "hd (k @ ?b @ s) \<noteq> CHR ''#''" using nb k(1) by (cases k) auto
  ultimately show ?thesis using t k(1) s(3) nb unfolding r read_check_def by (auto simp: r)
qed

lemma read_line: "CHR 0x0A \<notin> set l \<Longrightarrow> read_checks (l @ [CHR 0x0A] @ rest) = read_check l @ read_checks rest"
  by (simp add: read_checks_def split_append_sep)

lemma read_body:
  "\<forall>e \<in> set es. expect_validate e = Inr () \<Longrightarrow>
   read_checks (concat (map (\<lambda>e. expect_render e @ [CHR 0x0A]) es)) = map (\<lambda>e. (expect_kind e, expect_args e)) es"
proof (induction es)
  case Nil
  then show ?case by (simp add: read_checks_def read_check_def)
next
  case (Cons e es)
  have "read_check (expect_render e) = [(expect_kind e, expect_args e)] \<and> CHR 0x0A \<notin> set (expect_render e)"
    unfolding expect_render_def using read_rendered[OF expect_args_ok] kind_plain Cons.prems by auto
  with Cons read_line[of "expect_render e"] show ?case by simp
qed

section \<open>Properties\<close>

text \<open>C16. The image reads back exactly the checks a layer declared: from the file rendered for a
  group of validated checks, the shell's line reader recovers each check's kind and argument
  text, in order, and splits the two names of a driver check apart again.\<close>

theorem checks_file_roundtrip:
  assumes "\<forall>e \<in> set (eg_expect g). expect_validate e = Inr ()" "CHR 0x0A \<notin> set (eg_name g)"
  shows "read_checks (group_render g) = map (\<lambda>e. (expect_kind e, expect_args e)) (eg_expect g) \<and>
    (\<forall>d w. DriverBound d w \<in> set (eg_expect g) \<longrightarrow> split_whitespace (expect_args (DriverBound d w)) = [d, w])"
proof
  let ?h = "''# Expectations declared by the '' @ expect_scope_as_str (eg_scope g) @ '' layer '' @ [CHR 0x27] @ eg_name g
     @ [CHR 0x27] @ ''.''"
  let ?r = "''# Run by boot2deb-selftest; see the boot2deb manual (reference/self-test).''"
  let ?b = "concat (map (\<lambda>check. expect_render check @ [CHR 0x0A]) (eg_expect g))"
  have s: "CHR 0x0A \<notin> set (expect_scope_as_str (eg_scope g))" by (cases "eg_scope g") simp_all
  have "read_checks (group_render g) = read_checks (?h @ [CHR 0x0A] @ ?r @ [CHR 0x0A] @ ?b)"
    by (simp add: group_render_def)
  also have "\<dots> = read_check ?h @ read_checks (?r @ [CHR 0x0A] @ ?b)"
    by (rule read_line) (use assms(2) s in simp)
  also have "\<dots> = read_check ?h @ read_check ?r @ read_checks ?b"
    by (subst read_line) simp_all
  also have "read_check ?h = []" by (simp add: read_check_def)
  also have "read_check ?r = []" by (simp add: read_check_def)
  also have "read_checks ?b = map (\<lambda>e. (expect_kind e, expect_args e)) (eg_expect g)"
    by (rule read_body[OF assms(1)])
  finally show "read_checks (group_render g) = map (\<lambda>e. (expect_kind e, expect_args e)) (eg_expect g)" by simp
  show "\<forall>d w. DriverBound d w \<in> set (eg_expect g) \<longrightarrow> split_whitespace (expect_args (DriverBound d w)) = [d, w]"
    using assms(1) split_whitespace_join[of "[_, _]"] by (force simp: check_word_Inr)
qed

definition gpu_checks :: ExpectationGroup where
  "gpu_checks = \<lparr>eg_scope = ExSoc, eg_name = ''rk3588'',
     eg_expect = [Firmware ''arm/mali/arch10.8/mali_csffw.bin'', DriverBound ''fb000000.gpu'' ''panthor'',
       SoundCard ''H96 Analog'', NoDmesgMatch ''SError|panic'']\<rparr>"

theorem checks_file_roundtrip_witness:
  "read_checks (group_render gpu_checks) =
     [(''firmware'', ''arm/mali/arch10.8/mali_csffw.bin''), (''driver-bound'', ''fb000000.gpu panthor''),
      (''sound-card'', ''H96 Analog''), (''no-dmesg-match'', ''SError|panic'')]"
proof -
  have "\<forall>e \<in> set (eg_expect gpu_checks). expect_validate e = Inr ()" "CHR 0x0A \<notin> set (eg_name gpu_checks)"
    by code_simp+
  from checks_file_roundtrip[OF this] have
    "read_checks (group_render gpu_checks) = map (\<lambda>e. (expect_kind e, expect_args e)) (eg_expect gpu_checks)" by blast
  then show ?thesis by (simp add: gpu_checks_def)
qed

text \<open>The fields a check of each kind is written with.\<close>

fun authored_fields :: "Expectation \<Rightarrow> (string \<times> string option) list" where
  "authored_fields (DriverBound d w) =
     [(''path'', None), (''device'', Some d), (''driver'', Some w), (''name'', None), (''pattern'', None)]"
| "authored_fields (SoundCard n) =
     [(''path'', None), (''device'', None), (''driver'', None), (''name'', Some n), (''pattern'', None)]"
| "authored_fields (NoDmesgMatch p) =
     [(''path'', None), (''device'', None), (''driver'', None), (''name'', None), (''pattern'', Some p)]"
| "authored_fields e =
     [(''path'', Some (expect_args e)), (''device'', None), (''driver'', None), (''name'', None), (''pattern'', None)]"

text \<open>C33. An authored check is admitted exactly as its kind says: the check built has the
  authored kind, every field of that kind is given and no other field is, the check passes its
  own validation, and none of the kinds the build derives can be authored.\<close>

theorem authored_check_typed:
  "expect_try_from raw = Inr e \<longleftrightarrow>
     expect_kind e = xr_check raw \<and> expect_validate e = Inr () \<and>
     raw_fields raw = authored_fields e"
  by (cases e; cases "xr_path raw"; cases "xr_device raw"; cases "xr_driver raw"; cases "xr_name raw"; cases "xr_pattern raw")
    (auto simp: expect_try_from_def check_takes_def build_expect_def take_field_def provided_def raw_fields_def Let_def
      DERIVED_KINDS_def split: if_splits)

end
