(* ===== verification/Boards.thy ===== *)
theory Boards
  imports Field_Checks Expect
begin

text \<open>
  The checks \<open>crates/core/src/resolve.rs\<close> makes on what a hardware layer names: out-of-tree
  modules (\<open>validate_kmod\<close>), loose device-tree sources (\<open>validate_device_dts\<close>), the
  Rockchip blob set (\<open>resolve_rkbin\<close>), and on pinned packages the check of
  \<open>crates/core/src/model.rs\<close> (\<open>ExtraDeb::validate\<close>). The records hold the fields these
  functions read.
\<close>

section \<open>Out-of-tree modules\<close>

record KmodFirmware =
  fw_subdir :: string
  fw_install :: string

record KmodLayer =
  kl_description :: string
  kl_git :: string
  kl_git_ref :: string
  kl_subdir :: string
  kl_patch_dir :: string
  kl_repo_patches :: "string list"
  kl_local_patches :: "string list"
  kl_make_args :: "string list"
  kl_modules :: "string list"
  kl_firmware :: "KmodFirmware option"
  kl_expect :: "Expectation list"

datatype kmod_why =
    PathEmpty | PathAbsolute | PathEscapes | EntryEmpty | EntrySeparator | EntryDirectory
  | NameNotDpkgSafe | GitEmpty | RefEmpty | UnsafeMakeArg

datatype kmod_error = InvalidKmod string kmod_why

definition contained :: "string \<Rightarrow> kmod_why + unit" where
  "contained p =
     (if trim p = [] then Inl PathEmpty
      else if is_absolute p then Inl PathAbsolute
      else if has_parent_dir p then Inl PathEscapes
      else Inr ())"

definition bare_entry :: "string \<Rightarrow> kmod_why + unit" where
  "bare_entry p =
     (if trim p = [] then Inl EntryEmpty
      else if CHR ''/'' \<in> set p then Inl EntrySeparator
      else if p = ''.'' \<or> p = ''..'' then Inl EntryDirectory
      else Inr ())"

definition dpkg_safe_name :: "string \<Rightarrow> bool" where
  "dpkg_safe_name name0 \<longleftrightarrow>
     (case name0 of [] \<Rightarrow> False | c # _ \<Rightarrow> is_alnum c) \<and>
     list_all (\<lambda>c. is_lower c \<or> is_digit c \<or> c \<in> {CHR ''-'', CHR ''+'', CHR ''.''}) name0"

definition unsafe_make_arg :: "string \<Rightarrow> bool" where
  "unsafe_make_arg a \<longleftrightarrow>
     CHR ''='' \<notin> set a \<or> starts_with ''-'' a \<or>
     list_ex (\<lambda>c. is_ws c \<or> c \<in> {CHR '';'', CHR ''&'', CHR ''|'', CHR ''$'', CHR 0x60, CHR ''<'', CHR ''>'',
       CHR ''('', CHR '')'', CHR 0x27, CHR 0x22, CHR 0x5C}) a"

fun each :: "('a \<Rightarrow> 'e + unit) \<Rightarrow> 'a list \<Rightarrow> 'e + unit" where
  "each f [] = Inr ()"
| "each f (x # xs) = bind_r (f x) (\<lambda>_. each f xs)"

definition validate_kmod :: "KmodLayer \<Rightarrow> string \<Rightarrow> kmod_error + unit" where
  "validate_kmod k name0 =
     (case
        (if \<not> dpkg_safe_name name0 then Inl NameNotDpkgSafe
         else if trim (kl_git k) = [] then Inl GitEmpty
         else if trim (kl_git_ref k) = [] then Inl RefEmpty
         else
           bind_r (contained (kl_subdir k)) (\<lambda>_.
           bind_r (contained (kl_patch_dir k)) (\<lambda>_.
           bind_r (each bare_entry (kl_repo_patches k)) (\<lambda>_.
           bind_r (each bare_entry (kl_local_patches k)) (\<lambda>_.
           bind_r (each (\<lambda>a. if unsafe_make_arg a then Inl UnsafeMakeArg else Inr ()) (kl_make_args k)) (\<lambda>_.
           bind_r (each bare_entry (kl_modules k)) (\<lambda>_.
           case kl_firmware k of
             None \<Rightarrow> Inr ()
           | Some fw \<Rightarrow> bind_r (contained (fw_subdir fw)) (\<lambda>_. contained (fw_install fw))))))))) of
        Inl w \<Rightarrow> Inl (InvalidKmod name0 w)
      | Inr u \<Rightarrow> Inr u)"

section \<open>Device-tree sources\<close>

datatype dts_why = DtsEmpty | DtsAbsolute | DtsEscapes | DtsNotSource

datatype dts_error =
    InvalidDeviceDts string string dts_why
  | KernelDtbNotInDeviceDts string string "string list" string

definition check_dts_entry :: "string \<Rightarrow> string \<Rightarrow> dts_error + unit" where
  "check_dts_entry device_name entry =
     (if trim entry = [] then Inl (InvalidDeviceDts device_name entry DtsEmpty)
      else if is_absolute entry then Inl (InvalidDeviceDts device_name entry DtsAbsolute)
      else if has_parent_dir entry then Inl (InvalidDeviceDts device_name entry DtsEscapes)
      else if extension entry \<noteq> Some ''dts'' \<and> extension entry \<noteq> Some ''dtsi''
      then Inl (InvalidDeviceDts device_name entry DtsNotSource)
      else Inr ())"

definition validate_device_dts :: "string list \<Rightarrow> string \<Rightarrow> string \<Rightarrow> dts_error + unit" where
  "validate_device_dts device_dts kernel_dtb device_name =
     bind_r (each (check_dts_entry device_name) device_dts) (\<lambda>_.
       if device_dts = [] then Inr ()
       else
         let stem = (case file_stem kernel_dtb of Some s \<Rightarrow> s | None \<Rightarrow> []);
             expected = stem @ ''.dts'';
             built = list_ex (\<lambda>e. file_name e = Some expected) device_dts
         in if built then Inr ()
            else Inl (KernelDtbNotInDeviceDts device_name kernel_dtb device_dts expected))"

section \<open>Rockchip blobs\<close>

record RkbinUpstream =
  up_git :: string
  up_dir :: string

record RkbinLayer =
  rl_atf :: "string option"
  rl_tpl :: "string option"
  rl_bl32 :: "string option"
  rl_upstream :: "RkbinUpstream option"

record Rkbin =
  rk_atf :: string
  rk_tpl :: string
  rk_bl32 :: "string option"
  rk_upstream :: "RkbinUpstream option"

datatype up_why = UpGitEmpty | UpNotRelative | UpSteps

datatype rkbin_error = MissingBlob string string | BadRkbinUpstream string up_why

definition or_else :: "'a option \<Rightarrow> 'a option \<Rightarrow> 'a option" where
  "or_else a b = (case a of Some x \<Rightarrow> Some x | None \<Rightarrow> b)"

definition clean :: "string option \<Rightarrow> string option" where
  "clean v = (case v of Some s \<Rightarrow> if trim s = [] then None else Some s | None \<Rightarrow> None)"

definition pick :: "string option \<Rightarrow> string option \<Rightarrow> string option" where
  "pick dev soc = or_else (clean dev) (clean soc)"

definition bad_upstream :: "RkbinUpstream \<Rightarrow> up_why option" where
  "bad_upstream up =
     (if trim (up_git up) = [] then Some UpGitEmpty
      else if up_dir up = [] \<or> starts_with ''/'' (up_dir up) then Some UpNotRelative
      else if list_ex (\<lambda>step. step = ''..'' \<or> step = ''.'') (split (CHR ''/'') (up_dir up)) then Some UpSteps
      else None)"

definition resolve_rkbin :: "RkbinLayer \<Rightarrow> RkbinLayer \<Rightarrow> string \<Rightarrow> rkbin_error + Rkbin" where
  "resolve_rkbin soc device device_name =
     (let upstream = or_else (rl_upstream device) (rl_upstream soc) in
      case Option.bind upstream bad_upstream of
        Some w \<Rightarrow> Inl (BadRkbinUpstream device_name w)
      | None \<Rightarrow>
          bind_r (ok_or (MissingBlob device_name ''rkbin.atf'') (pick (rl_atf device) (rl_atf soc))) (\<lambda>atf.
          bind_r (ok_or (MissingBlob device_name ''rkbin.tpl'') (pick (rl_tpl device) (rl_tpl soc))) (\<lambda>tpl.
          Inr \<lparr>rk_atf = atf, rk_tpl = tpl, rk_bl32 = pick (rl_bl32 device) (rl_bl32 soc),
               rk_upstream = upstream\<rparr>)))"

section \<open>Pinned packages\<close>

datatype ExtraDebTarget = TargetImage | TargetFfmpeg

record ExtraDeb =
  ed_url :: "string option"
  ed_path :: "string option"
  ed_sha256 :: string
  ed_targets :: "ExtraDebTarget list"

datatype ExtraDebLocator = LocUrl string | LocPath string

datatype extra_deb_error =
    ExtraDebLocatorErr string | ExtraDebNoTarget string | ExtraDebBadHash string | ExtraDebUnsafePath string

definition extra_deb_locator :: "ExtraDeb \<Rightarrow> extra_deb_error + ExtraDebLocator" where
  "extra_deb_locator d =
     (case (ed_url d, ed_path d) of
        (Some u, None) \<Rightarrow> Inr (LocUrl u)
      | (None, Some p) \<Rightarrow> Inr (LocPath p)
      | _ \<Rightarrow> Inl (ExtraDebLocatorErr (ed_sha256 d)))"

definition locator_label :: "ExtraDeb \<Rightarrow> string" where
  "locator_label d =
     (case (ed_url d, ed_path d) of
        (Some u, _) \<Rightarrow> u | (None, Some p) \<Rightarrow> p | (None, None) \<Rightarrow> ''extra_deb '' @ ed_sha256 d)"

definition reject_unsafe_path :: "string \<Rightarrow> extra_deb_error + unit" where
  "reject_unsafe_path rel =
     (if is_absolute rel \<or> has_parent_dir rel then Inl (ExtraDebUnsafePath rel) else Inr ())"

definition is_lower_hex_char :: "char \<Rightarrow> bool" where
  "is_lower_hex_char c \<longleftrightarrow> is_digit c \<or> (97 \<le> (of_char c :: nat) \<and> (of_char c :: nat) \<le> 102)"

definition extra_deb_validate :: "ExtraDeb \<Rightarrow> extra_deb_error + unit" where
  "extra_deb_validate d =
     bind_r (extra_deb_locator d) (\<lambda>loc.
     bind_r (case loc of LocPath rel \<Rightarrow> reject_unsafe_path rel | LocUrl _ \<Rightarrow> Inr ()) (\<lambda>_.
     if ed_targets d = [] then Inl (ExtraDebNoTarget (locator_label d))
     else if length (ed_sha256 d) = 64 \<and> list_all is_lower_hex_char (ed_sha256 d) then Inr ()
     else Inl (ExtraDebBadHash (ed_sha256 d))))"

section \<open>Lemmas\<close>

lemma each_Inr: "each f xs = Inr () \<longleftrightarrow> (\<forall>x \<in> set xs. f x = Inr ())"
  by (induction xs) auto

interpretation contained_guard: path_guard "\<lambda>p. contained p = Inr ()"
  by unfold_locales (auto simp: contained_def split: if_splits)

interpretation entry_guard: name_guard "\<lambda>p. bare_entry p = Inr ()"
  by unfold_locales (auto simp: bare_entry_def split: if_splits)

interpretation kmod_name_guard: name_guard dpkg_safe_name
proof unfold_locales
  fix p
  have c: "\<not> is_lower (CHR ''/'')" "\<not> is_digit (CHR ''/'')" "\<not> is_alnum (CHR ''.'')"
    by (simp_all add: char_class_defs)
  show "dpkg_safe_name p \<Longrightarrow> CHR ''/'' \<notin> set p"
    using c(1,2) unfolding dpkg_safe_name_def list_all_iff by auto
  show "dpkg_safe_name p \<Longrightarrow> p \<noteq> [] \<and> p \<noteq> ''.'' \<and> p \<noteq> ''..''"
    using c(3) unfolding dpkg_safe_name_def by auto
qed

interpretation dts_guard: path_guard "\<lambda>p. check_dts_entry device_name p = Inr ()"
  by unfold_locales (auto simp: check_dts_entry_def split: if_splits)

interpretation upstream_guard: path_guard "\<lambda>p. bad_upstream \<lparr>up_git = git, up_dir = p\<rparr> = None"
  by unfold_locales
    (auto simp: bad_upstream_def is_absolute_def has_parent_dir_split list_ex_iff split: if_splits)

interpretation deb_path_guard: path_guard "\<lambda>p. reject_unsafe_path p = Inr ()"
  by unfold_locales (auto simp: reject_unsafe_path_def split: if_splits)

lemma make_arg_token: "\<not> unsafe_make_arg a \<Longrightarrow> token a"
  unfolding unsafe_make_arg_def token_def list_ex_iff list_all_iff de_Morgan_disj by (metis empty_iff list.set(1))

lemma validate_kmod_Inr:
  "validate_kmod k name0 = Inr () \<longleftrightarrow>
     dpkg_safe_name name0 \<and> trim (kl_git k) \<noteq> [] \<and> trim (kl_git_ref k) \<noteq> [] \<and>
     contained (kl_subdir k) = Inr () \<and> contained (kl_patch_dir k) = Inr () \<and>
     (\<forall>p \<in> set (kl_repo_patches k @ kl_local_patches k @ kl_modules k). bare_entry p = Inr ()) \<and>
     (\<forall>a \<in> set (kl_make_args k). \<not> unsafe_make_arg a) \<and>
     (\<forall>fw \<in> set_option (kl_firmware k). contained (fw_subdir fw) = Inr () \<and> contained (fw_install fw) = Inr ())"
proof -
  have u: "(if unsafe_make_arg a then Inl UnsafeMakeArg else Inr ()) = (Inr () :: kmod_why + unit) \<longleftrightarrow> \<not> unsafe_make_arg a" for a
    by simp
  have "(case r of Inl w \<Rightarrow> Inl (InvalidKmod name0 w) | Inr u \<Rightarrow> Inr u) = Inr () \<longleftrightarrow> r = Inr ()" for r :: "kmod_why + unit"
    by (cases r) auto
  then show ?thesis
    unfolding validate_kmod_def
    by (cases "kl_firmware k") (auto simp: each_Inr u)
qed

lemma pick_Some: "pick dev soc = Some v \<longleftrightarrow>
    (dev = Some v \<and> trim v \<noteq> []) \<or> (clean dev = None \<and> soc = Some v \<and> trim v \<noteq> [])"
  by (auto simp: pick_def or_else_def clean_def split: option.splits if_splits)

section \<open>Properties\<close>

text \<open>C19. An accepted module declaration cannot reach outside its trees: the name and every
  patch and module file land directly in the directory they are looked up in, the build,
  patch and firmware directories stay inside the tree they are joined onto, and the extra
  \<open>make\<close> arguments are read back from a space-separated command line one for one, none of them
  an option.\<close>

theorem kmod_contained:
  assumes "validate_kmod k name0 = Inr ()"
  shows "join_path root name0 = root @ [name0] \<and>
    (\<forall>p \<in> set (kl_repo_patches k @ kl_local_patches k @ kl_modules k). join_path root p = root @ [p]) \<and>
    (\<forall>p \<in> {kl_subdir k, kl_patch_dir k} \<union> fw_subdir ` set_option (kl_firmware k) \<union> fw_install ` set_option (kl_firmware k).
       inside root p) \<and>
    split_whitespace (join '' '' (kl_make_args k)) = kl_make_args k \<and>
    (\<forall>a \<in> set (kl_make_args k). CHR ''='' \<in> set a \<and> \<not> starts_with ''-'' a)"
proof (intro conjI ballI)
  note k = assms[unfolded validate_kmod_Inr]
  show "join_path root name0 = root @ [name0]" using k kmod_name_guard.lands_directly by blast
  show "join_path root p = root @ [p]"
    if "p \<in> set (kl_repo_patches k @ kl_local_patches k @ kl_modules k)" for p
    using k that entry_guard.lands_directly by blast
  show "inside root p"
    if "p \<in> {kl_subdir k, kl_patch_dir k} \<union> fw_subdir ` set_option (kl_firmware k) \<union> fw_install ` set_option (kl_firmware k)" for p
  proof -
    have "contained p = Inr ()" using k that by auto
    then show ?thesis by (rule contained_guard.stays_inside)
  qed
  show "split_whitespace (join '' '' (kl_make_args k)) = kl_make_args k"
    using k make_arg_token by (intro split_whitespace_join) blast
  show "CHR ''='' \<in> set a" "\<not> starts_with ''-'' a" if "a \<in> set (kl_make_args k)" for a
    using k that unfolding unsafe_make_arg_def by blast+
qed

definition aic8800 :: KmodLayer where
  "aic8800 = \<lparr>kl_description = ''AIC8800 Wi-Fi'', kl_git = ''https://example.org/aic8800.git'', kl_git_ref = ''main'', kl_subdir = ''src/SDIO'',
     kl_patch_dir = ''debian/patches'', kl_repo_patches = [''fix.patch''], kl_local_patches = [],
     kl_make_args = [''A=y'', ''B=n''], kl_modules = [''aic8800.ko''],
     kl_firmware = Some \<lparr>fw_subdir = ''fw'', fw_install = ''usr/lib/firmware''\<rparr>, kl_expect = []\<rparr>"

theorem kmod_contained_witness:
  "validate_kmod aic8800 ''aic8800'' = Inr () \<and> inside [''build''] ''src/SDIO''
   \<and> validate_kmod (aic8800\<lparr>kl_subdir := ''src/../../x''\<rparr>) ''aic8800'' = Inl (InvalidKmod ''aic8800'' PathEscapes)"
proof -
  have "validate_kmod aic8800 ''aic8800'' = Inr ()" by code_simp
  moreover have "validate_kmod (aic8800\<lparr>kl_subdir := ''src/../../x''\<rparr>) ''aic8800'' = Inl (InvalidKmod ''aic8800'' PathEscapes)"
    by code_simp
  moreover have "inside [''build''] (kl_subdir aic8800)"
    using kmod_contained[OF calculation(1), of "[''build'']"] by blast
  ultimately show ?thesis by (simp add: aic8800_def)
qed

text \<open>An accepted list of device-tree sources stays inside the config root, names only
  \<open>.dts\<close> and \<open>.dtsi\<close> files, and when it is not empty one of its files is the source of the
  kernel's device tree: its file name is the tree's name with \<open>.dts\<close>.\<close>

theorem device_dts_sound:
  assumes "validate_device_dts device_dts kernel_dtb device_name = Inr ()"
  shows "(\<forall>e \<in> set device_dts. inside root e \<and> extension e \<in> {Some ''dts'', Some ''dtsi''}) \<and>
    (device_dts \<noteq> [] \<longrightarrow>
       (\<exists>e \<in> set device_dts. file_name e = Some ((case file_stem kernel_dtb of Some s \<Rightarrow> s | None \<Rightarrow> []) @ ''.dts'')))"
proof (intro conjI ballI impI)
  have e: "\<forall>e \<in> set device_dts. check_dts_entry device_name e = Inr ()"
    using assms by (auto simp: validate_device_dts_def each_Inr)
  show "inside root x" if "x \<in> set device_dts" for x
    using e that dts_guard.stays_inside by blast
  show "extension x \<in> {Some ''dts'', Some ''dtsi''}" if "x \<in> set device_dts" for x
    using e that by (fastforce simp: check_dts_entry_def split: if_splits)
  show "\<exists>e \<in> set device_dts. file_name e = Some ((case file_stem kernel_dtb of Some s \<Rightarrow> s | None \<Rightarrow> []) @ ''.dts'')"
    if "device_dts \<noteq> []"
    using assms that by (auto simp: validate_device_dts_def Let_def list_ex_iff split: if_splits)
qed

theorem device_dts_sound_witness:
  "validate_device_dts [''dts/board.dts'', ''dts/common.dtsi''] ''rockchip/board.dtb'' ''dev'' = Inr ()
   \<and> inside [''root''] ''dts/board.dts''
   \<and> validate_device_dts [''dts/bord.dts''] ''rockchip/board.dtb'' ''dev'' \<noteq> Inr ()"
proof -
  have a: "validate_device_dts [''dts/board.dts'', ''dts/common.dtsi''] ''rockchip/board.dtb'' ''dev'' = Inr ()"
    by code_simp
  have "validate_device_dts [''dts/bord.dts''] ''rockchip/board.dtb'' ''dev'' \<noteq> Inr ()" by code_simp
  with a device_dts_sound[OF a, of "[''root'']"] show ?thesis by simp
qed

text \<open>Blob resolution is per field and device first: each blob is the device's when that is
  not blank, otherwise the SoC's when that is not blank; a blob neither layer names is
  missing, named for the two required ones, and a declared upstream directory stays inside
  its repository.\<close>

theorem rkbin_layers:
  assumes "Option.bind (or_else (rl_upstream device) (rl_upstream soc)) bad_upstream = None"
  shows "(case resolve_rkbin soc device d of
      Inr r \<Rightarrow>
        Some (rk_atf r) = pick (rl_atf device) (rl_atf soc) \<and> Some (rk_tpl r) = pick (rl_tpl device) (rl_tpl soc) \<and>
        rk_bl32 r = pick (rl_bl32 device) (rl_bl32 soc) \<and> trim (rk_atf r) \<noteq> [] \<and> trim (rk_tpl r) \<noteq> [] \<and>
        (\<forall>up \<in> set_option (rk_upstream r). inside root (up_dir up))
    | Inl e \<Rightarrow>
        e = MissingBlob d ''rkbin.atf'' \<and> clean (rl_atf device) = None \<and> clean (rl_atf soc) = None \<or>
        e = MissingBlob d ''rkbin.tpl'' \<and> clean (rl_tpl device) = None \<and> clean (rl_tpl soc) = None)"
proof (cases "resolve_rkbin soc device d")
  case (Inl e)
  then show ?thesis
    using assms
    by (auto simp: resolve_rkbin_def Let_def bind_r_def ok_or_def pick_def or_else_def split: option.splits sum.splits)
next
  case (Inr r)
  have "inside root (up_dir up)" if "up \<in> set_option (rk_upstream r)" for up
    using Inr assms that upstream_guard.stays_inside[of "up_git up" "up_dir up"]
    by (cases up) (auto simp: resolve_rkbin_def Let_def split: option.splits)
  moreover have "pick (rl_atf device) (rl_atf soc) = Some (rk_atf r)" "pick (rl_tpl device) (rl_tpl soc) = Some (rk_tpl r)"
    "rk_bl32 r = pick (rl_bl32 device) (rl_bl32 soc)"
    using Inr assms by (auto simp: resolve_rkbin_def Let_def)
  moreover have "trim (rk_atf r) \<noteq> []" "trim (rk_tpl r) \<noteq> []"
    using calculation(2,3) by (auto simp: pick_Some)
  ultimately show ?thesis unfolding Inr by simp
qed

theorem rkbin_layers_witness:
  "\<exists>r. resolve_rkbin
     \<lparr>rl_atf = Some ''bl31.elf'', rl_tpl = Some ''ddr.bin'', rl_bl32 = None, rl_upstream = Some \<lparr>up_git = ''https://x'', up_dir = ''bin/rk35''\<rparr>\<rparr>
     \<lparr>rl_atf = Some ''  '', rl_tpl = Some ''ddr-lp5.bin'', rl_bl32 = None, rl_upstream = None\<rparr> ''dev'' = Inr r
     \<and> rk_atf r = ''bl31.elf'' \<and> rk_tpl r = ''ddr-lp5.bin'' \<and> inside [''repo''] ''bin/rk35''"
proof -
  let ?s = "\<lparr>rl_atf = Some ''bl31.elf'', rl_tpl = Some ''ddr.bin'', rl_bl32 = None, rl_upstream = Some \<lparr>up_git = ''https://x'', up_dir = ''bin/rk35''\<rparr>\<rparr>"
  let ?d = "\<lparr>rl_atf = Some ''  '', rl_tpl = Some ''ddr-lp5.bin'', rl_bl32 = None, rl_upstream = None\<rparr>"
  let ?r = "\<lparr>rk_atf = ''bl31.elf'', rk_tpl = ''ddr-lp5.bin'', rk_bl32 = None, rk_upstream = Some \<lparr>up_git = ''https://x'', up_dir = ''bin/rk35''\<rparr>\<rparr>"
  have r: "resolve_rkbin ?s ?d ''dev'' = Inr ?r" by code_simp
  have "Option.bind (or_else (rl_upstream ?d) (rl_upstream ?s)) bad_upstream = None" by code_simp
  from rkbin_layers[OF this, of "''dev''" "[''repo'']"] have "inside [''repo''] ''bin/rk35''"
    unfolding r by simp
  with r show ?thesis by simp
qed

end
