(* ===== verification/Datavolume.thy ===== *)
theory Datavolume
  imports Paths
begin

text \<open>
  \<open>crates/core/src/datavolume.rs\<close>: the data volumes a recipe declares, their validation one by
  one and across the list, the \<open>/etc/fstab\<close> line and the configuration file the first-boot hook
  reads (\<open>features/data-volume/overlay/etc/boot2deb/first-boot.d/50-data-volume\<close>: comment and
  empty lines skipped, fields separated by tabs).
\<close>

section \<open>Data\<close>

definition MAX_LABEL_BYTES :: nat where "MAX_LABEL_BYTES = 16"
definition FEATURE :: string where "FEATURE = ''data-volume''"

datatype DiskKind = Nvme | Sata | Usb | Mmc
datatype VolumeMatch = Kind DiskKind | Device string
datatype VolumeFs = Ext4
datatype CreatePolicy = IfBlank | Never

record DataVolume =
  dv_match :: VolumeMatch
  dv_label :: string
  dv_fstype :: VolumeFs
  dv_mount :: string
  dv_create :: CreatePolicy

datatype volume_why =
    MountNotAbsolute | MountRoot | MountTrailingSlash | LabelEmpty | LabelLong nat | LabelChar
  | NotDevNode | LabelTwice | MountTwice

datatype volume_error =
    DataVolumeMount string volume_why
  | DataVolumeLabel string volume_why
  | DataVolumeMatch string volume_why

fun disk_kind_as_str :: "DiskKind \<Rightarrow> string" where
  "disk_kind_as_str Nvme = ''nvme''"
| "disk_kind_as_str Sata = ''sata''"
| "disk_kind_as_str Usb = ''usb''"
| "disk_kind_as_str Mmc = ''mmc''"

fun fstab_type :: "VolumeFs \<Rightarrow> string" where
  "fstab_type Ext4 = ''ext4''"

section \<open>Validation\<close>

definition volume_validate :: "DataVolume \<Rightarrow> volume_error + unit" where
  "volume_validate v =
     (if \<not> starts_with ''/'' (dv_mount v) then Inl (DataVolumeMount (dv_mount v) MountNotAbsolute)
      else if dv_mount v = ''/'' then Inl (DataVolumeMount (dv_mount v) MountRoot)
      else if length (dv_mount v) > 1 \<and> ends_with ''/'' (dv_mount v)
      then Inl (DataVolumeMount (dv_mount v) MountTrailingSlash)
      else if dv_label v = [] then Inl (DataVolumeLabel (dv_label v) LabelEmpty)
      else if length (dv_label v) > MAX_LABEL_BYTES
      then Inl (DataVolumeLabel (dv_label v) (LabelLong (length (dv_label v))))
      else if \<not> list_all (\<lambda>c. is_alnum c \<or> c = CHR ''-'' \<or> c = CHR ''_'' \<or> c = CHR ''.'') (dv_label v)
      then Inl (DataVolumeLabel (dv_label v) LabelChar)
      else case dv_match v of
             Device dev \<Rightarrow> if \<not> starts_with ''/dev/'' dev then Inl (DataVolumeMatch dev NotDevNode) else Inr ()
           | Kind _ \<Rightarrow> Inr ())"

fun validate_each :: "DataVolume list \<Rightarrow> volume_error + unit" where
  "validate_each [] = Inr ()"
| "validate_each (v # vs) = bind_r (volume_validate v) (\<lambda>_. validate_each vs)"

fun clash_with :: "DataVolume \<Rightarrow> DataVolume list \<Rightarrow> volume_error + unit" where
  "clash_with v [] = Inr ()"
| "clash_with v (other # others) =
     (if dv_label v = dv_label other then Inl (DataVolumeLabel (dv_label v) LabelTwice)
      else if dv_mount v = dv_mount other then Inl (DataVolumeMount (dv_mount v) MountTwice)
      else clash_with v others)"

fun validate_pairs :: "DataVolume list \<Rightarrow> volume_error + unit" where
  "validate_pairs [] = Inr ()"
| "validate_pairs (v # vs) = bind_r (clash_with v vs) (\<lambda>_. validate_pairs vs)"

definition validate_all :: "DataVolume list \<Rightarrow> volume_error + unit" where
  "validate_all volumes = bind_r (validate_each volumes) (\<lambda>_. validate_pairs volumes)"

section \<open>Rendering\<close>

abbreviation TAB :: char where "TAB \<equiv> CHR 0x09"
abbreviation NL :: char where "NL \<equiv> CHR 0x0A"

definition fstab_line :: "DataVolume \<Rightarrow> string" where
  "fstab_line v =
     ''LABEL='' @ dv_label v @ [TAB] @ dv_mount v @ [TAB] @ fstab_type (dv_fstype v) @ [TAB]
     @ ''defaults,nofail,x-systemd.device-timeout=10s'' @ [TAB] @ ''0 2''"

definition match_text :: "VolumeMatch \<Rightarrow> string" where
  "match_text m = (case m of Kind k \<Rightarrow> disk_kind_as_str k | Device dev \<Rightarrow> dev)"

definition create_text :: "CreatePolicy \<Rightarrow> string" where
  "create_text c = (case c of IfBlank \<Rightarrow> ''if-blank'' | Never \<Rightarrow> ''never'')"

definition config_line :: "DataVolume \<Rightarrow> string" where
  "config_line v =
     match_text (dv_match v) @ [TAB] @ dv_label v @ [TAB] @ fstab_type (dv_fstype v) @ [TAB]
     @ dv_mount v @ [TAB] @ create_text (dv_create v)"

definition render_config :: "DataVolume list \<Rightarrow> string" where
  "render_config volumes =
     ''# Generated by boot2deb; read once by the data-volume first-boot hook.'' @ [NL]
     @ ''# <match>'' @ [TAB] @ ''<label>'' @ [TAB] @ ''<fstype>'' @ [TAB] @ ''<mount>'' @ [TAB] @ ''<create>'' @ [NL]
     @ concat (map (\<lambda>v. config_line v @ [NL]) volumes)"

text \<open>What the hook's loop reads: the tab-separated fields of every line that is neither empty
  nor a comment.\<close>

definition read_volume :: "string \<Rightarrow> string list list" where
  "read_volume l = (if l = [] \<or> hd l = CHR ''#'' then [] else [split TAB l])"

definition read_config :: "string \<Rightarrow> string list list" where
  "read_config text0 = concat (map read_volume (split NL text0))"

definition volume_fields :: "DataVolume \<Rightarrow> string list" where
  "volume_fields v =
     [match_text (dv_match v), dv_label v, fstab_type (dv_fstype v), dv_mount v, create_text (dv_create v)]"

section \<open>Lemmas\<close>

lemma validate_each_Inr: "validate_each vs = Inr () \<longleftrightarrow> (\<forall>v \<in> set vs. volume_validate v = Inr ())"
  by (induction vs) auto

lemma clash_with_Inr:
  "clash_with v vs = Inr () \<longleftrightarrow> dv_label v \<notin> dv_label ` set vs \<and> dv_mount v \<notin> dv_mount ` set vs"
  by (induction vs) auto

lemma validate_pairs_Inr:
  "validate_pairs vs = Inr () \<longleftrightarrow> distinct (map dv_label vs) \<and> distinct (map dv_mount vs)"
  by (induction vs) (auto simp: clash_with_Inr)

lemma label_char: "is_alnum c \<or> c = CHR ''-'' \<or> c = CHR ''_'' \<or> c = CHR ''.'' \<Longrightarrow> c \<noteq> TAB \<and> c \<noteq> NL"
  by (elim disjE) (auto simp: char_class_defs)

lemma valid_label:
  "volume_validate v = Inr () \<Longrightarrow> TAB \<notin> set (dv_label v) \<and> NL \<notin> set (dv_label v)"
  using label_char by (fastforce simp: volume_validate_def list_all_iff split: if_splits)

text \<open>The two fields the validation leaves free to hold a separator.\<close>

definition plain_fields :: "DataVolume \<Rightarrow> bool" where
  "plain_fields v \<longleftrightarrow> (\<forall>s \<in> {dv_mount v, match_text (dv_match v)}. TAB \<notin> set s \<and> NL \<notin> set s)"

lemma match_text_start:
  "volume_validate v = Inr () \<Longrightarrow> match_text (dv_match v) \<noteq> [] \<and> hd (match_text (dv_match v)) \<noteq> CHR ''#''"
  by (cases "dv_match v"; cases "case dv_match v of Kind k \<Rightarrow> k | _ \<Rightarrow> Nvme")
    (auto simp: volume_validate_def match_text_def starts_with_iff split: if_splits)

lemma fixed_fields:
  "TAB \<notin> set (fstab_type f)" "NL \<notin> set (fstab_type f)" "TAB \<notin> set (create_text c)" "NL \<notin> set (create_text c)"
  by (cases f; cases c; simp add: create_text_def)+

lemma read_config_line:
  assumes "volume_validate v = Inr ()" "plain_fields v"
  shows "read_volume (config_line v) = [volume_fields v] \<and> NL \<notin> set (config_line v)"
proof -
  have "split TAB (config_line v) = volume_fields v"
    using valid_label[OF assms(1)] assms(2) fixed_fields
    by (simp add: config_line_def volume_fields_def plain_fields_def split_append_sep[where s = "_", simplified] split_no_sep)
  moreover have "config_line v \<noteq> []" "hd (config_line v) \<noteq> CHR ''#''"
    using match_text_start[OF assms(1)] by (simp_all add: config_line_def hd_append)
  ultimately show ?thesis
    using valid_label[OF assms(1)] assms(2) fixed_fields
    by (simp add: read_volume_def) (simp add: config_line_def plain_fields_def)
qed

lemma read_config_cons: "NL \<notin> set l \<Longrightarrow> read_config (l @ [NL] @ rest) = read_volume l @ read_config rest"
  by (simp add: read_config_def split_append_sep)

section \<open>Properties\<close>

text \<open>A recipe's volume list is accepted exactly when every declaration passes on its own and
  no two share a label or a mount point; an accepted volume mounts below the root at an
  absolute path, under a label of 1 to 16 characters that no field separator can be part of.\<close>

theorem volumes_accepted:
  "(validate_all vs = Inr () \<longleftrightarrow>
     (\<forall>v \<in> set vs. volume_validate v = Inr ()) \<and> distinct (map dv_label vs) \<and> distinct (map dv_mount vs)) \<and>
   (volume_validate v = Inr () \<longrightarrow>
     (\<exists>rest. dv_mount v = CHR ''/'' # rest \<and> rest \<noteq> [] \<and> last rest \<noteq> CHR ''/'') \<and>
     0 < length (dv_label v) \<and> length (dv_label v) \<le> 16 \<and>
     (\<forall>c \<in> set (dv_label v). \<not> is_ws c \<and> \<not> is_control c))"
proof -
  have plain: "\<not> is_ws c \<and> \<not> is_control c" if "is_alnum c \<or> c = CHR ''-'' \<or> c = CHR ''_'' \<or> c = CHR ''.''" for c
    using that by (elim disjE) (auto simp: char_class_defs)
  have m: "\<exists>rest. dv_mount v = CHR ''/'' # rest \<and> rest \<noteq> [] \<and> last rest \<noteq> CHR ''/''"
    if "volume_validate v = Inr ()"
  proof (cases "dv_mount v")
    case (Cons c rest)
    with that show ?thesis
      by (cases "rest = []") (auto simp: volume_validate_def starts_with_hd ends_with_last split: if_splits)
  qed (use that in \<open>simp add: volume_validate_def starts_with_hd\<close>)
  have l: "0 < length (dv_label v) \<and> length (dv_label v) \<le> 16 \<and> (\<forall>c \<in> set (dv_label v). \<not> is_ws c \<and> \<not> is_control c)"
    if "volume_validate v = Inr ()"
    using that plain by (auto simp: volume_validate_def MAX_LABEL_BYTES_def list_all_iff split: if_splits)
  have a: "validate_all vs = Inr () \<longleftrightarrow>
     (\<forall>v \<in> set vs. volume_validate v = Inr ()) \<and> distinct (map dv_label vs) \<and> distinct (map dv_mount vs)"
    by (auto simp: validate_all_def validate_each_Inr validate_pairs_Inr)
  show ?thesis using a m l by blast
qed

definition nvme_volume :: DataVolume where
  "nvme_volume = \<lparr>dv_match = Kind Nvme, dv_label = ''b2d-data'', dv_fstype = Ext4, dv_mount = ''/srv'', dv_create = IfBlank\<rparr>"

theorem volumes_accepted_witness:
  "validate_all [nvme_volume, nvme_volume\<lparr>dv_label := ''b2d-media'', dv_mount := ''/media''\<rparr>] = Inr ()
   \<and> validate_all [nvme_volume, nvme_volume\<lparr>dv_label := ''b2d-media''\<rparr>] \<noteq> Inr ()"
proof -
  have "volume_validate nvme_volume = Inr ()"
    "volume_validate (nvme_volume\<lparr>dv_label := ''b2d-media'', dv_mount := ''/media''\<rparr>) = Inr ()" by code_simp+
  then show ?thesis
    using volumes_accepted[of "[nvme_volume, nvme_volume\<lparr>dv_label := ''b2d-media'', dv_mount := ''/media''\<rparr>]" nvme_volume]
      volumes_accepted[of "[nvme_volume, nvme_volume\<lparr>dv_label := ''b2d-media''\<rparr>]" nvme_volume]
    by (simp add: nvme_volume_def)
qed

text \<open>C34. The first-boot hook reads back the declared volumes, in order, from the file rendered for
  an accepted list, provided no mount point or device path holds a tab or a newline; the
  validation itself does not refuse such a mount point, and with one the hook reads a second,
  undeclared volume.\<close>

theorem volume_config_roundtrip:
  "(validate_all vs = Inr () \<and> (\<forall>v \<in> set vs. plain_fields v) \<longrightarrow>
      read_config (render_config vs) = map volume_fields vs) \<and>
   (\<exists>v. validate_all [v] = Inr () \<and> length (read_config (render_config [v])) = 2)"
proof
  have body: "\<forall>v \<in> set vs. volume_validate v = Inr () \<and> plain_fields v \<Longrightarrow>
      read_config (concat (map (\<lambda>v. config_line v @ [NL]) vs)) = map volume_fields vs" for vs
  proof (induction vs)
    case Nil
    then show ?case by (simp add: read_config_def read_volume_def)
  next
    case (Cons v vs)
    with read_config_line[of v] read_config_cons[of "config_line v"] show ?case by simp
  qed
  have "read_config (render_config vs) = read_config (concat (map (\<lambda>v. config_line v @ [NL]) vs))" for vs
    unfolding render_config_def read_config_def
    using split_append_sep by (simp add: read_volume_def)
  with body show "validate_all vs = Inr () \<and> (\<forall>v \<in> set vs. plain_fields v) \<longrightarrow>
      read_config (render_config vs) = map volume_fields vs"
    by (auto simp: validate_all_def validate_each_Inr)
  let ?v = "nvme_volume\<lparr>dv_mount := ''/a'' @ [TAB] @ ''never'' @ [NL] @ ''nvme'' @ [TAB] @ ''x'' @ [TAB] @ ''ext4'' @ [TAB] @ ''/b''\<rparr>"
  have "validate_all [?v] = Inr () \<and> length (read_config (render_config [?v])) = 2" by code_simp
  then show "\<exists>v. validate_all [v] = Inr () \<and> length (read_config (render_config [v])) = 2" by blast
qed

theorem volume_config_roundtrip_witness:
  "read_config (render_config [nvme_volume]) = [[''nvme'', ''b2d-data'', ''ext4'', ''/srv'', ''if-blank'']]"
proof -
  have "validate_all [nvme_volume] = Inr () \<and> (\<forall>v \<in> set [nvme_volume]. plain_fields v)" by code_simp
  with volume_config_roundtrip[of "[nvme_volume]"] have
    "read_config (render_config [nvme_volume]) = map volume_fields [nvme_volume]" by blast
  then show ?thesis by (simp add: volume_fields_def nvme_volume_def match_text_def create_text_def)
qed

end
