(* ===== verification/Model.thy ===== *)
theory Model
  imports Boards Chromeos Datavolume
begin

text \<open>
  The configuration data of \<open>crates/core/src/model.rs\<close>, \<open>feature.rs\<close> and \<open>distro.rs\<close>: the
  axes, the layers a build is resolved from, the overrides and recipes, and the kernel and boot
  halves of a resolved build. Records carry every field of the source's structs; a \<open>u8\<close> that is
  only compared is a natural number, one that is packed into the GPT attribute word an
  \<open>8 word\<close>, and a \<open>BTreeMap\<close> the association list of its iteration order.
\<close>

section \<open>Axes\<close>

datatype Arch = Arm64 | Armv7 | Riscv64
datatype Soc = Rk3588 | Rk3576 | Rk3566 | Rk3288
datatype BootMethod = RockchipRkbin | Depthcharge
datatype Layout = Combined | Split
datatype SudoPolicy = Nopasswd | Password
datatype KernelFlavor = Mainline | Vendor | DistroPackage
datatype InitramfsGenerator = InitramfsTools | Dracut
datatype Deliverable = Image | Uboot
datatype SupportStatus = Validated | Expected | Experimental
datatype CaveatScope = ScopeSoc | ScopeDevice | ScopeFeature | ScopeRecipe
datatype InitramfsCompress = Xz | Zstd

fun debian_arch :: "Arch \<Rightarrow> string" where
  "debian_arch Arm64 = ''arm64''"
| "debian_arch Armv7 = ''armhf''"
| "debian_arch Riscv64 = ''riscv64''"

fun soc_as_str :: "Soc \<Rightarrow> string" where
  "soc_as_str Rk3588 = ''rk3588''"
| "soc_as_str Rk3576 = ''rk3576''"
| "soc_as_str Rk3566 = ''rk3566''"
| "soc_as_str Rk3288 = ''rk3288''"

fun boot_method_as_str :: "BootMethod \<Rightarrow> string" where
  "boot_method_as_str RockchipRkbin = ''rockchip-rkbin''"
| "boot_method_as_str Depthcharge = ''depthcharge''"

fun generator_package :: "InitramfsGenerator \<Rightarrow> string" where
  "generator_package InitramfsTools = ''initramfs-tools''"
| "generator_package Dracut = ''dracut''"

definition ROOMY_KPART_BYTES :: nat where "ROOMY_KPART_BYTES = 32 * 1024 * 1024"

definition for_kpart_size :: "nat \<Rightarrow> InitramfsCompress" where
  "for_kpart_size kpart_bytes = (if ROOMY_KPART_BYTES \<le> kpart_bytes then Zstd else Xz)"

definition CONSOLE_LOGLEVEL_ARG :: string where "CONSOLE_LOGLEVEL_ARG = ''loglevel=4''"
definition ANY_SUITE :: string where "ANY_SUITE = ''*''"
definition MIN_PASSWORD_LENGTH :: nat where "MIN_PASSWORD_LENGTH = 8"
definition MAX_PASSWORD_LENGTH :: nat where "MAX_PASSWORD_LENGTH = 64"
definition DEFAULT_PATCHES_REF :: string where "DEFAULT_PATCHES_REF = ''main''"

section \<open>Parts of layers\<close>

record Caveat =
  cv_text :: string
  cv_scope :: CaveatScope

record ConditionalPackage =
  cp_name :: string
  cp_suites :: "string list option"
  cp_distros :: "string list option"

datatype PackageEntry = Plain string | Conditional ConditionalPackage

record AptSource =
  as_name :: string
  as_uri :: string
  as_suite :: string
  as_components :: "string list"
  as_signed_by :: string

record FfmpegLib =
  fl_flag :: string
  fl_links :: "string list"

record GitSource =
  gs_git :: string
  gs_git_ref :: string

record UserspaceTree =
  ut_name :: string
  ut_git :: string
  ut_git_ref :: string
  ut_debs :: "string list"
  ut_links :: "string list"
  ut_ffmpeg_flag :: "string option"
  ut_ffmpeg_requires :: "string list"
  ut_patched :: bool
  ut_optional :: bool
  ut_build_deps :: "string list"
  ut_targets_filter :: "string option"

record FfmpegSources =
  fs_base :: GitSource
  fs_rockchip :: "GitSource option"

record DotnetSdk =
  sk_version :: string
  sk_sha512 :: "(string \<times> string) list"

record DotnetDebBuild =
  dn_packaging :: GitSource
  dn_source_dir :: string
  dn_project :: string
  dn_sdk :: DotnetSdk

datatype AppBuild = DotnetDeb DotnetDebBuild

record App =
  ap_name :: string
  ap_git :: string
  ap_git_ref :: string
  ap_deb :: string
  ap_patch_series :: "string list"
  ap_patches_url :: "string option"
  ap_patches_ref :: "string option"
  ap_build :: AppBuild

section \<open>Layers\<close>

record ArchLayer =
  al_kernel_arch :: string
  al_kbuild_image :: string
  al_cross_compile :: string

record InitramfsLayer =
  il_modules :: "string list"

record SocLayer =
  sl_description :: string
  sl_arch :: Arch
  sl_dt_dir :: string
  sl_rkbin :: RkbinLayer
  sl_modules :: "string list"
  sl_initramfs :: InitramfsLayer
  sl_packages :: "PackageEntry list"
  sl_groups :: "string list"
  sl_nonfree_firmware_packages :: "PackageEntry list"
  sl_exclude :: "string list"
  sl_caveats :: "string list"
  sl_extra_debs :: "ExtraDeb list"
  sl_userspace :: "UserspaceTree list"
  sl_ffmpeg :: "FfmpegSources option"
  sl_expect :: "Expectation list"

record RockchipRkbinLayer =
  rr_description :: string
  rr_uboot_source :: string
  rr_uboot_ref :: string
  rr_patches_url :: "string option"
  rr_patches_ref :: "string option"
  rr_idbloader_offset :: string
  rr_uboot_itb_offset :: string
  rr_rootfs_offset :: string
  rr_packages :: "PackageEntry list"
  rr_groups :: "string list"
  rr_exclude :: "string list"
  rr_extra_debs :: "ExtraDeb list"
  rr_expect :: "Expectation list"

record DepthchargeLayer =
  dl_description :: string
  dl_kpart_offset :: string
  dl_kpart_size :: string
  dl_kpart_slots :: nat
  dl_kpart_priority :: "8 word"
  dl_kpart_tries :: "8 word"
  dl_kpart_successful :: bool
  dl_cmdline :: string
  dl_packages :: "PackageEntry list"
  dl_groups :: "string list"
  dl_exclude :: "string list"
  dl_extra_debs :: "ExtraDeb list"
  dl_expect :: "Expectation list"

datatype BootMethodLayer = RkbinLayerOf RockchipRkbinLayer | DepthchargeLayerOf DepthchargeLayer

definition bm_method :: "BootMethodLayer \<Rightarrow> BootMethod" where
  "bm_method bm = (case bm of RkbinLayerOf _ \<Rightarrow> RockchipRkbin | DepthchargeLayerOf _ \<Rightarrow> Depthcharge)"

definition bm_packages :: "BootMethodLayer \<Rightarrow> PackageEntry list" where
  "bm_packages bm = (case bm of RkbinLayerOf l \<Rightarrow> rr_packages l | DepthchargeLayerOf l \<Rightarrow> dl_packages l)"

definition bm_groups :: "BootMethodLayer \<Rightarrow> string list" where
  "bm_groups bm = (case bm of RkbinLayerOf l \<Rightarrow> rr_groups l | DepthchargeLayerOf l \<Rightarrow> dl_groups l)"

definition bm_exclude :: "BootMethodLayer \<Rightarrow> string list" where
  "bm_exclude bm = (case bm of RkbinLayerOf l \<Rightarrow> rr_exclude l | DepthchargeLayerOf l \<Rightarrow> dl_exclude l)"

definition bm_extra_debs :: "BootMethodLayer \<Rightarrow> ExtraDeb list" where
  "bm_extra_debs bm = (case bm of RkbinLayerOf l \<Rightarrow> rr_extra_debs l | DepthchargeLayerOf l \<Rightarrow> dl_extra_debs l)"

definition bm_expect :: "BootMethodLayer \<Rightarrow> Expectation list" where
  "bm_expect bm = (case bm of RkbinLayerOf l \<Rightarrow> rr_expect l | DepthchargeLayerOf l \<Rightarrow> dl_expect l)"

record DeviceDepthcharge =
  dd_board :: string
  dd_supported_boards :: "string list"
  dd_kpart_size :: "string option"

record DeviceLayer =
  dev_extends :: "string option"
  dev_description :: string
  dev_soc :: Soc
  dev_boot_method :: BootMethod
  dev_supported_boot_methods :: "BootMethod list"
  dev_uboot_defconfig :: "string option"
  dev_depthcharge :: "DeviceDepthcharge option"
  dev_kernel_dtb :: string
  dev_device_dts :: "string list"
  dev_kernel_cmdline :: "string option"
  dev_config_fragments :: "string list"
  dev_patch_series :: "string list"
  dev_kmods :: "string list"
  dev_supported_kernels :: "string list"
  dev_default_kernel :: string
  dev_supported_uboot_series :: "string list"
  dev_default_uboot_series :: "string option"
  dev_supported_suites :: "string list"
  dev_default_suite :: string
  dev_default_layout :: Layout
  dev_hostname :: string
  dev_image_size :: string
  dev_keymap :: "Keymap option"
  dev_rkbin :: RkbinLayer
  dev_packages :: "PackageEntry list"
  dev_groups :: "string list"
  dev_initramfs :: InitramfsLayer
  dev_nonfree_firmware_packages :: "PackageEntry list"
  dev_exclude :: "string list"
  dev_caveats :: "string list"
  dev_extra_debs :: "ExtraDeb list"
  dev_expect :: "Expectation list"

record BaseLayer =
  bl_locale :: string
  bl_locales_generate :: "string list"
  bl_timezone :: string
  bl_ntp_servers :: "string list"
  bl_packages :: "PackageEntry list"
  bl_exclude :: "string list"
  bl_extra_debs :: "ExtraDeb list"
  bl_sudo :: SudoPolicy
  bl_first_boot_password_length :: nat
  bl_ssh_authorized_keys :: "string list"
  bl_groups :: "string list"

record Feature =
  ft_description :: string
  ft_packages :: "PackageEntry list"
  ft_exclude :: "string list"
  ft_requires_soc :: "Soc list"
  ft_requires_arch :: "Arch list"
  ft_apt_sources :: "AptSource list"
  ft_extra_debs :: "ExtraDeb list"
  ft_ffmpeg_libs :: "FfmpegLib list"
  ft_apps :: "App list"
  ft_conflicts :: "string list"
  ft_provides :: "string list"
  ft_requires_capability :: "string list"
  ft_requires_media_accel :: bool
  ft_ffmpeg_nonfree :: bool
  ft_config_fragments :: "string list"
  ft_patch_series :: "string list"
  ft_caveats :: "string list"
  ft_expect :: "Expectation list"

section \<open>Kernels\<close>

datatype KernelSource = Named string | Git string string

record DistroKernelDef =
  dk_flavor :: KernelFlavor
  dk_package :: string
  dk_supported_socs :: "Soc list"
  dk_expect :: "Expectation list"

record CompiledKernelDef =
  ck_flavor :: KernelFlavor
  ck_source :: KernelSource
  ck_track :: "string option"
  ck_base_defconfig :: string
  ck_config_fragments :: "string list"
  ck_patch_series :: "string list"
  ck_patches_url :: "string option"
  ck_patches_ref :: "string option"
  ck_supported_socs :: "Soc list"
  ck_libre :: bool
  ck_expect :: "Expectation list"

datatype KernelDef = CompiledDef CompiledKernelDef | DistroDef DistroKernelDef

definition kdef_supported_socs :: "KernelDef \<Rightarrow> Soc list" where
  "kdef_supported_socs kd = (case kd of CompiledDef k \<Rightarrow> ck_supported_socs k | DistroDef k \<Rightarrow> dk_supported_socs k)"

definition kdef_expect :: "KernelDef \<Rightarrow> Expectation list" where
  "kdef_expect kd = (case kd of CompiledDef k \<Rightarrow> ck_expect k | DistroDef k \<Rightarrow> dk_expect k)"

record ResolvedCompiledKernel =
  rck_id :: string
  rck_flavor :: KernelFlavor
  rck_source :: KernelSource
  rck_track :: "string option"
  rck_base_defconfig :: string
  rck_patch_series :: "string list"
  rck_patches_url :: "string option"
  rck_patches_ref :: "string option"
  rck_config_fragments :: "string list"
  rck_libre :: bool

record ResolvedDistroKernel =
  rdk_id :: string
  rdk_package :: string

datatype ResolvedKernel = CompiledKernel ResolvedCompiledKernel | DistroKernel ResolvedDistroKernel

definition kernel_id :: "ResolvedKernel \<Rightarrow> string" where
  "kernel_id k = (case k of CompiledKernel k \<Rightarrow> rck_id k | DistroKernel k \<Rightarrow> rdk_id k)"

definition kernel_libre :: "ResolvedKernel \<Rightarrow> bool" where
  "kernel_libre k = (case k of CompiledKernel k \<Rightarrow> rck_libre k | DistroKernel _ \<Rightarrow> False)"

section \<open>Recipes and overrides\<close>

record Support =
  su_status :: SupportStatus
  su_commit :: "string option"
  su_date :: string
  su_caveats :: "string list"

record Recipe =
  rc_device :: string
  rc_deliverable :: Deliverable
  rc_kernel :: "string option"
  rc_uboot_series :: "string option"
  rc_board :: "string option"
  rc_suite :: "string option"
  rc_initramfs_generator :: "InitramfsGenerator option"
  rc_features :: "string list"
  rc_layout :: "Layout option"
  rc_image_size :: "string option"
  rc_locale :: "string option"
  rc_locales_generate :: "string list option"
  rc_timezone :: "string option"
  rc_ntp_servers :: "string list option"
  rc_keymap :: "Keymap option"
  rc_sudo :: "SudoPolicy option"
  rc_first_boot_password_length :: "nat option"
  rc_ssh_authorized_keys :: "string list option"
  rc_groups :: "string list option"
  rc_data_volumes :: "DataVolume list"
  rc_selftest_on_boot :: bool
  rc_support :: "Support option"

record Overrides =
  ov_deliverable :: Deliverable
  ov_kernel :: "string option"
  ov_uboot_series :: "string option"
  ov_suite :: "string option"
  ov_initramfs_generator :: "InitramfsGenerator option"
  ov_layout :: "Layout option"
  ov_boot_method :: "BootMethod option"
  ov_board :: "string option"
  ov_features :: "string list option"
  ov_image_size :: "string option"
  ov_locale :: "string option"
  ov_locales_generate :: "string list option"
  ov_timezone :: "string option"
  ov_ntp_servers :: "string list option"
  ov_keymap :: "Keymap option"
  ov_sudo :: "SudoPolicy option"
  ov_first_boot_password_length :: "nat option"
  ov_ssh_authorized_keys :: "string list option"
  ov_groups :: "string list option"

section \<open>Resolved boot\<close>

record Offsets =
  off_idbloader :: string
  off_uboot_itb :: string
  off_rootfs :: string

record Kpart =
  kp_offset :: string
  kp_size :: string
  kp_slots :: nat
  kp_priority :: "8 word"
  kp_tries :: "8 word"
  kp_successful :: bool
  kp_flags :: "64 word"

record ResolvedRkbinBoot =
  rrb_uboot_defconfig :: string
  rrb_uboot_source :: string
  rrb_uboot_ref :: string
  rrb_uboot_series :: "string option"
  rrb_uboot_patches_url :: "string option"
  rrb_uboot_patches_ref :: "string option"
  rrb_rkbin :: Rkbin
  rrb_offsets :: Offsets

record ResolvedDepthchargeBoot =
  rdb_board :: string
  rdb_kpart :: Kpart
  rdb_cmdline :: string
  rdb_rootfs_offset :: string
  rdb_initramfs_compress :: InitramfsCompress

datatype ResolvedBoot = RkbinBoot ResolvedRkbinBoot | DepthchargeBoot ResolvedDepthchargeBoot

definition boot_rootfs_offset :: "ResolvedBoot \<Rightarrow> string" where
  "boot_rootfs_offset boot =
     (case boot of RkbinBoot b \<Rightarrow> off_rootfs (rrb_offsets b) | DepthchargeBoot b \<Rightarrow> rdb_rootfs_offset b)"

end
