(* ===== verification/Geometry.thy ===== *)
theory Geometry
  imports Size Model
begin

text \<open>
  \<open>crates/engine/src/image/geometry.rs\<close>: the byte and LBA layout of an image, resolved
  from a whole-disk size (\<open>geometry_resolve\<close>) or around a formatted filesystem
  (\<open>around_rootfs\<close>), and the payload check. The resolved boot configuration is that of
  \<open>Model\<close>. Offsets are \<open>u64\<close>: every
  addition and subtraction the code checks is checked here; the others cannot leave the
  range, since each operand is a part of a checked sum. The formatter's greatest share
  (\<open>ferrosys::Slack::MAX_SHARE\<close>) is the parameter of \<open>fit_slack\<close>.
\<close>

section \<open>Data\<close>

record KpartSlot =
  slot_offset :: nat
  slot_first_lba :: nat
  slot_length_lba :: nat
  slot_flags :: "64 word"

datatype BootGeometry = RawGap nat nat | KpartSlots "KpartSlot list"

record BootRegion =
  br_boot :: BootGeometry
  br_seed_off :: nat
  br_rootfs_off :: nat

record Geometry =
  g_total_size :: nat
  g_boot :: BootGeometry
  g_seed_off :: nat
  g_rootfs_off :: nat
  g_rootfs_first_lba :: nat
  g_rootfs_length_lba :: nat
  g_rootfs_bytes :: nat

datatype geom_error =
    GeomSize size_error
  | GeomKpartAttr kpart_attr_error
  | NotSectorMultiple string nat
  | NotBlockMultiple string nat
  | BootPastRootfs nat nat
  | NoSeedRoom nat
  | SeedSwallowsUboot nat nat
  | NoKernelSlots
  | NoSeedRoomBelowSlots nat
  | OverlapsPrimaryGpt string nat
  | OffsetsMustIncrease nat nat nat
  | KpartSizeZero
  | SlotOverflow nat nat
  | PayloadOverflow string nat
  | PayloadOverruns string nat nat nat
  | WrongPayloadCount nat
  | ImageTooSmall nat
  | RootfsBelowMinimum nat
  | RootfsOverflow nat
  | RootfsPastUsable nat nat
  | SlackTooLarge nat
  | ShareTooLarge nat

section \<open>Constants\<close>

definition SECTOR :: nat where "SECTOR = 512"
definition EXT4_BLOCK :: nat where "EXT4_BLOCK = 4096"
definition MIN_ROOTFS_BYTES :: nat where "MIN_ROOTFS_BYTES = EXT4_BLOCK * 8 * EXT4_BLOCK"
definition GPT_FRONT_SECTORS :: nat where "GPT_FRONT_SECTORS = 34"
definition GPT_BACK_SECTORS :: nat where "GPT_BACK_SECTORS = 33"
definition SEED_PARTITION_BYTES :: nat where "SEED_PARTITION_BYTES = 2 ^ 20"
definition MAX_SLACK_BYTES :: nat where "MAX_SLACK_BYTES = 64 * 2 ^ 30"

lemmas geom_consts =
  SECTOR_def EXT4_BLOCK_def MIN_ROOTFS_BYTES_def GPT_FRONT_SECTORS_def GPT_BACK_SECTORS_def
  SEED_PARTITION_BYTES_def

section \<open>The boot region\<close>

definition geom_size :: "string \<Rightarrow> geom_error + nat" where
  "geom_size s = (case parse_size s of Inl e \<Rightarrow> Inl (GeomSize e) | Inr n \<Rightarrow> Inr n)"

definition check :: "bool \<Rightarrow> geom_error \<Rightarrow> geom_error + unit" where
  "check b e = (if b then Inr () else Inl e)"

definition raw_gap :: "Offsets \<Rightarrow> nat \<Rightarrow> geom_error + BootGeometry \<times> nat" where
  "raw_gap offsets rootfs_off =
     bind_r (geom_size (off_idbloader offsets)) (\<lambda>idbloader_off.
     bind_r (geom_size (off_uboot_itb offsets)) (\<lambda>uboot_itb_off.
     bind_r (check (idbloader_off mod SECTOR = 0) (NotSectorMultiple ''idbloader offset'' idbloader_off)) (\<lambda>_.
     bind_r (check (uboot_itb_off mod SECTOR = 0) (NotSectorMultiple ''u-boot.itb offset'' uboot_itb_off)) (\<lambda>_.
     bind_r (check (\<not> idbloader_off < GPT_FRONT_SECTORS * SECTOR)
               (OverlapsPrimaryGpt ''idbloader offset'' idbloader_off)) (\<lambda>_.
     bind_r (check (idbloader_off < uboot_itb_off \<and> uboot_itb_off < rootfs_off)
               (OffsetsMustIncrease idbloader_off uboot_itb_off rootfs_off)) (\<lambda>_.
     Inr (RawGap idbloader_off uboot_itb_off, uboot_itb_off)))))))"

fun kpart_loop ::
  "nat \<Rightarrow> nat \<Rightarrow> nat \<Rightarrow> 64 word \<Rightarrow> nat \<Rightarrow> geom_error + KpartSlot list \<times> nat" where
  "kpart_loop 0 i sz payload_flags start = Inr ([], start)"
| "kpart_loop (Suc n) i sz payload_flags start =
     bind_r (ok_or (SlotOverflow i start) (checked_add u64_max start sz)) (\<lambda>stop.
     bind_r (kpart_loop n (i + 1) sz payload_flags stop) (\<lambda>(slots, stop).
     Inr (\<lparr>slot_offset = start, slot_first_lba = start div SECTOR, slot_length_lba = sz div SECTOR,
           slot_flags = (if i = 0 then payload_flags else SPARE_KPART_FLAGS)\<rparr> # slots, stop)))"

definition kpart :: "Kpart \<Rightarrow> geom_error + BootGeometry \<times> nat" where
  "kpart kp =
     bind_r (geom_size (kp_offset kp)) (\<lambda>offset.
     bind_r (geom_size (kp_size kp)) (\<lambda>sz.
     bind_r (check (offset mod SECTOR = 0) (NotSectorMultiple ''kpart offset'' offset)) (\<lambda>_.
     bind_r (check (sz mod SECTOR = 0) (NotSectorMultiple ''kpart size'' sz)) (\<lambda>_.
     bind_r (check (sz \<noteq> 0) KpartSizeZero) (\<lambda>_.
     bind_r (check (\<not> offset < GPT_FRONT_SECTORS * SECTOR)
               (OverlapsPrimaryGpt ''kpart offset'' offset)) (\<lambda>_.
     bind_r (case kpart_flags (kp_priority kp) (kp_tries kp) (kp_successful kp) of
               Inl e \<Rightarrow> Inl (GeomKpartAttr e) | Inr w \<Rightarrow> Inr w) (\<lambda>payload_flags.
     bind_r (kpart_loop (kp_slots kp) 0 sz payload_flags offset) (\<lambda>(slots, stop).
     Inr (KpartSlots slots, stop)))))))))"

definition place_seed :: "BootGeometry \<Rightarrow> nat \<Rightarrow> geom_error + nat" where
  "place_seed boot_geom rootfs_off =
     (case boot_geom of
        RawGap _ uboot_itb_off \<Rightarrow>
          bind_r (ok_or (NoSeedRoom rootfs_off) (checked_sub rootfs_off SEED_PARTITION_BYTES)) (\<lambda>seed_off.
          bind_r (check (\<not> seed_off \<le> uboot_itb_off) (SeedSwallowsUboot uboot_itb_off rootfs_off)) (\<lambda>_.
          Inr seed_off))
      | KpartSlots slots \<Rightarrow>
          (case slots of
             [] \<Rightarrow> Inl NoKernelSlots
           | first_slot # _ \<Rightarrow>
               ok_or (NoSeedRoomBelowSlots (slot_offset first_slot))
                 (case checked_sub (slot_offset first_slot) SEED_PARTITION_BYTES of
                    Some off \<Rightarrow> if GPT_FRONT_SECTORS * SECTOR \<le> off then Some off else None
                  | None \<Rightarrow> None)))"

definition boot_head :: "ResolvedBoot \<Rightarrow> nat \<Rightarrow> geom_error + BootGeometry \<times> nat" where
  "boot_head boot rootfs_off =
     (case boot of
        RkbinBoot b \<Rightarrow> raw_gap (rrb_offsets b) rootfs_off
      | DepthchargeBoot b \<Rightarrow> kpart (rdb_kpart b))"

definition region_resolve :: "ResolvedBoot \<Rightarrow> geom_error + BootRegion" where
  "region_resolve boot =
     bind_r (geom_size (boot_rootfs_offset boot)) (\<lambda>rootfs_off.
     bind_r (boot_head boot rootfs_off) (\<lambda>(boot_geom, boot_end).
     bind_r (check (rootfs_off mod SECTOR = 0) (NotSectorMultiple ''rootfs offset'' rootfs_off)) (\<lambda>_.
     bind_r (check (rootfs_off mod EXT4_BLOCK = 0) (NotBlockMultiple ''rootfs offset'' rootfs_off)) (\<lambda>_.
     bind_r (check (\<not> rootfs_off < boot_end) (BootPastRootfs boot_end rootfs_off)) (\<lambda>_.
     bind_r (place_seed boot_geom rootfs_off) (\<lambda>seed_off.
     Inr \<lparr>br_boot = boot_geom, br_seed_off = seed_off, br_rootfs_off = rootfs_off\<rparr>))))))"

section \<open>Payloads\<close>

definition fits :: "string \<Rightarrow> nat \<Rightarrow> nat \<Rightarrow> nat \<Rightarrow> geom_error + unit" where
  "fits what len start limit =
     bind_r (ok_or (PayloadOverflow what len) (checked_add u64_max start len)) (\<lambda>stop.
     check (\<not> limit < stop) (PayloadOverruns what len start limit))"

definition check_payload_fit :: "BootRegion \<Rightarrow> (string \<times> nat) list \<Rightarrow> geom_error + unit" where
  "check_payload_fit region payloads =
     (case br_boot region of
        RawGap idbloader_off uboot_itb_off \<Rightarrow>
          (case payloads of
             [(_, idb_len), (_, itb_len)] \<Rightarrow>
               bind_r (fits ''idbloader.img'' idb_len idbloader_off uboot_itb_off) (\<lambda>_.
               fits ''u-boot.itb'' itb_len uboot_itb_off (br_seed_off region))
           | _ \<Rightarrow> Inl (WrongPayloadCount (length payloads)))
      | KpartSlots slots \<Rightarrow>
          (case payloads of
             [(what, len)] \<Rightarrow>
               (case slots of
                  [] \<Rightarrow> Inl NoKernelSlots
                | payload # _ \<Rightarrow>
                    fits what len (slot_offset payload)
                      (slot_offset payload + slot_length_lba payload * SECTOR))
           | _ \<Rightarrow> Inl (WrongPayloadCount (length payloads))))"

section \<open>The whole layout\<close>

definition assemble :: "BootRegion \<Rightarrow> nat \<Rightarrow> nat \<Rightarrow> geom_error + Geometry" where
  "assemble region total_size rootfs_bytes =
     (let rootfs_off = br_rootfs_off region in
      bind_r (check (rootfs_bytes mod EXT4_BLOCK = 0) (NotBlockMultiple ''rootfs filesystem'' rootfs_bytes)) (\<lambda>_.
      bind_r (check (total_size mod SECTOR = 0) (NotSectorMultiple ''image size'' total_size)) (\<lambda>_.
      let rootfs_first_lba = rootfs_off div SECTOR;
          rootfs_length_lba = rootfs_bytes div SECTOR in
      bind_r (ok_or (RootfsOverflow rootfs_bytes)
                (checked_add u64_max rootfs_first_lba rootfs_length_lba)) (\<lambda>end_lba.
      bind_r (ok_or (RootfsPastUsable end_lba total_size)
                (case checked_sub (total_size div SECTOR) GPT_BACK_SECTORS of
                   Some usable \<Rightarrow> if end_lba \<le> usable then Some usable else None
                 | None \<Rightarrow> None)) (\<lambda>usable_end_lba.
      Inr \<lparr>g_total_size = total_size, g_boot = br_boot region, g_seed_off = br_seed_off region,
           g_rootfs_off = rootfs_off, g_rootfs_first_lba = rootfs_first_lba,
           g_rootfs_length_lba = rootfs_length_lba, g_rootfs_bytes = rootfs_bytes\<rparr>)))))"

definition geometry_resolve :: "ResolvedBoot \<Rightarrow> nat \<Rightarrow> geom_error + Geometry" where
  "geometry_resolve boot total_size =
     bind_r (check (total_size mod SECTOR = 0) (NotSectorMultiple ''image size'' total_size)) (\<lambda>_.
     bind_r (region_resolve boot) (\<lambda>region.
     let rootfs_off = br_rootfs_off region;
         total_lba = total_size div SECTOR;
         rootfs_first_lba = rootfs_off div SECTOR in
     bind_r (ok_or (ImageTooSmall total_size)
               (case checked_sub total_lba (GPT_BACK_SECTORS + 1) of
                  Some lba \<Rightarrow> if rootfs_first_lba \<le> lba then Some lba else None
                | None \<Rightarrow> None)) (\<lambda>last_usable_lba.
     let available_bytes = (last_usable_lba - rootfs_first_lba + 1) * SECTOR;
         partition_bytes = available_bytes div EXT4_BLOCK * EXT4_BLOCK in
     bind_r (check (\<not> partition_bytes < MIN_ROOTFS_BYTES) (RootfsBelowMinimum available_bytes)) (\<lambda>_.
     assemble region total_size partition_bytes))))"

definition around_rootfs :: "ResolvedBoot \<Rightarrow> nat \<Rightarrow> geom_error + Geometry" where
  "around_rootfs boot rootfs_bytes =
     bind_r (region_resolve boot) (\<lambda>region.
     bind_r (ok_or (RootfsOverflow rootfs_bytes)
               (Option.bind (checked_add u64_max (br_rootfs_off region) rootfs_bytes) (\<lambda>stop.
                checked_add u64_max stop (GPT_BACK_SECTORS * SECTOR)))) (\<lambda>total_size.
     assemble region total_size rootfs_bytes))"

definition fit_slack :: "nat \<Rightarrow> Slack \<Rightarrow> geom_error + Slack" where
  "fit_slack max_share slack =
     (case slack of
        SlackBytes bytes \<Rightarrow> if MAX_SLACK_BYTES < bytes then Inl (SlackTooLarge bytes) else Inr (SlackBytes bytes)
      | SlackShare h \<Rightarrow> if max_share < h then Inl (ShareTooLarge h) else Inr (SlackShare h))"

section \<open>The extents of a layout\<close>

text \<open>
  What a layout occupies, as half-open byte extents in disk order: the primary table, what
  the boot method owns, the seed partition, the root filesystem and the backup table.
\<close>

type_synonym extent = "nat \<times> nat"

definition slot_extent :: "KpartSlot \<Rightarrow> extent" where
  "slot_extent s = (slot_offset s, slot_offset s + slot_length_lba s * SECTOR)"

definition head_extents :: "BootGeometry \<Rightarrow> nat \<Rightarrow> extent list" where
  "head_extents boot seed_off =
     (let seed = (seed_off, seed_off + SEED_PARTITION_BYTES) in
      case boot of
        RawGap idb itb \<Rightarrow> [(idb, itb), (itb, seed_off), seed]
      | KpartSlots slots \<Rightarrow> seed # map slot_extent slots)"

definition extents :: "Geometry \<Rightarrow> extent list" where
  "extents g =
     (0, GPT_FRONT_SECTORS * SECTOR) # head_extents (g_boot g) (g_seed_off g)
       @ [(g_rootfs_off g, g_rootfs_off g + g_rootfs_bytes g),
          (g_total_size g - GPT_BACK_SECTORS * SECTOR, g_total_size g)]"

fun chain :: "nat \<Rightarrow> extent list \<Rightarrow> nat \<Rightarrow> bool" where
  "chain lo [] hi \<longleftrightarrow> lo \<le> hi"
| "chain lo ((a, b) # xs) hi \<longleftrightarrow> lo \<le> a \<and> a \<le> b \<and> chain b xs hi"

lemma chain_le: "chain lo xs hi \<Longrightarrow> lo \<le> hi"
  by (induction lo xs hi rule: chain.induct) auto

lemma chain_weaken: "chain lo xs mid \<Longrightarrow> mid \<le> hi \<Longrightarrow> chain lo xs hi"
  by (induction lo xs mid rule: chain.induct) auto

lemma chain_append: "chain lo (xs @ ys) hi \<longleftrightarrow> (\<exists>mid. chain lo xs mid \<and> chain mid ys hi)"
proof (induction xs arbitrary: lo)
  case Nil
  then show ?case
    by (cases ys) (auto intro: le_trans dest: chain_le)
next
  case (Cons x xs)
  then show ?case by (cases x) auto
qed

lemma chain_bounds: "chain lo xs hi \<Longrightarrow> (a, b) \<in> set xs \<Longrightarrow> lo \<le> a \<and> a \<le> b \<and> b \<le> hi"
  by (induction lo xs hi rule: chain.induct) (auto dest: chain_le)

lemma chain_sorted: "chain lo xs hi \<Longrightarrow> sorted_wrt (\<lambda>e f. snd e \<le> fst f) xs"
  by (induction lo xs hi rule: chain.induct) (auto dest: chain_bounds)

section \<open>The boot region\<close>

lemma geom_size_Inr [simp]: "geom_size s = Inr n \<longleftrightarrow> parse_size s = Inr n"
  by (simp add: geom_size_def split: sum.splits)

lemma map_err_Inr [simp]: "(case r of Inl e \<Rightarrow> Inl (h e) | Inr w \<Rightarrow> Inr w) = Inr x \<longleftrightarrow> r = Inr x"
  by (cases r) auto

lemma check_simps [simp]:
  "check b e = Inr u \<longleftrightarrow> b"
  "check b e = Inl e' \<longleftrightarrow> \<not> b \<and> e' = e"
  "check True e = Inr ()"
  "check False e = Inl e"
  by (auto simp: check_def)

lemma kpart_loop_slots:
  assumes "kpart_loop n i sz f start = Inr (slots, stop)" "SECTOR dvd sz"
  shows "chain start (map slot_extent slots) stop"
    and "\<forall>s \<in> set slots. slot_length_lba s = sz div SECTOR \<and> slot_first_lba s = slot_offset s div SECTOR"
    and "\<forall>s \<in> set (if i = 0 then tl slots else slots). slot_flags s = SPARE_KPART_FLAGS"
    and "SECTOR dvd start \<Longrightarrow> (\<forall>s \<in> set slots. SECTOR dvd slot_offset s)"
    and "slots \<noteq> [] \<Longrightarrow> slot_offset (hd slots) = start"
  using assms
proof (induction n arbitrary: i start slots)
  case (Suc n)
  {
    case 1
    then show ?case using Suc.IH(1) by (auto simp: slot_extent_def)
  next
    case 2
    then show ?case using Suc.IH(2) by auto
  next
    case 3
    then show ?case using Suc.IH(3) by auto
  next
    case 4
    then show ?case using Suc.IH(4)[of "start + sz" "Suc i"] by auto
  next
    case 5
    then show ?case by auto
  }
qed auto

lemma raw_gap_Inr:
  "raw_gap offsets rootfs_off = Inr (bg, stop) \<Longrightarrow>
     \<exists>idb. bg = RawGap idb stop \<and> SECTOR dvd idb \<and> SECTOR dvd stop
       \<and> GPT_FRONT_SECTORS * SECTOR \<le> idb \<and> idb < stop \<and> stop < rootfs_off"
  by (auto simp: raw_gap_def)

lemma kpart_Inr:
  assumes "kpart kp = Inr (bg, stop)"
  shows "\<exists>slots start sz f. bg = KpartSlots slots \<and> kpart_loop (kp_slots kp) 0 sz f start = Inr (slots, stop)
       \<and> SECTOR dvd start \<and> SECTOR dvd sz \<and> sz \<noteq> 0 \<and> GPT_FRONT_SECTORS * SECTOR \<le> start
       \<and> kpart_flags (kp_priority kp) (kp_tries kp) (kp_successful kp) = Inr f"
proof -
  from assms obtain start sz f slots where
    "SECTOR dvd start" "SECTOR dvd sz" "sz \<noteq> 0" "\<not> start < GPT_FRONT_SECTORS * SECTOR"
    "kpart_flags (kp_priority kp) (kp_tries kp) (kp_successful kp) = Inr f"
    "kpart_loop (kp_slots kp) 0 sz f start = Inr (slots, stop)" "bg = KpartSlots slots"
    unfolding kpart_def bind_r_eq_Inr check_simps by auto
  then show ?thesis by (metis not_less)
qed

lemma place_seed_KpartSlots:
  "place_seed (KpartSlots slots) rootfs_off = Inr off \<longleftrightarrow>
     slots \<noteq> [] \<and> SEED_PARTITION_BYTES \<le> slot_offset (hd slots)
     \<and> off = slot_offset (hd slots) - SEED_PARTITION_BYTES \<and> GPT_FRONT_SECTORS * SECTOR \<le> off"
  by (cases slots) (auto simp: place_seed_def split: option.splits if_splits)

text \<open>A resolved head of the disk is a chain of extents between the table and the rootfs.\<close>

lemma region_resolve_chain:
  assumes "region_resolve boot = Inr region"
  shows "chain (GPT_FRONT_SECTORS * SECTOR) (head_extents (br_boot region) (br_seed_off region))
           (br_rootfs_off region)"
    and "SECTOR dvd br_seed_off region" "EXT4_BLOCK dvd br_rootfs_off region"
proof -
  obtain bg stop where
    head: "boot_head boot (br_rootfs_off region) = Inr (bg, stop)"
    and reg: "br_boot region = bg" "stop \<le> br_rootfs_off region"
      "place_seed bg (br_rootfs_off region) = Inr (br_seed_off region)"
    and al: "EXT4_BLOCK dvd br_rootfs_off region"
    using assms unfolding region_resolve_def bind_r_eq_Inr check_simps
    by auto
  have seed: "SECTOR dvd SEED_PARTITION_BYTES" "EXT4_BLOCK dvd SEED_PARTITION_BYTES" "SECTOR dvd EXT4_BLOCK"
    by (simp_all add: geom_consts)
  have al': "SECTOR dvd br_rootfs_off region" using al seed(3) dvd_trans by blast
  have "chain (GPT_FRONT_SECTORS * SECTOR) (head_extents bg (br_seed_off region)) (br_rootfs_off region)
        \<and> SECTOR dvd br_seed_off region"
  proof (cases boot)
    case (RkbinBoot b)
    then obtain idb where "bg = RawGap idb stop" "GPT_FRONT_SECTORS * SECTOR \<le> idb" "idb < stop"
      using raw_gap_Inr[of "rrb_offsets b" "br_rootfs_off region" bg stop] head by (auto simp: boot_head_def)
    then show ?thesis
      using reg dvd_diff_nat[OF al' seed(1)] by (auto simp: place_seed_def head_extents_def)
  next
    case (DepthchargeBoot b)
    then obtain slots start sz f where
      kp: "bg = KpartSlots slots" "kpart_loop (kp_slots (rdb_kpart b)) 0 sz f start = Inr (slots, stop)"
        "SECTOR dvd start" "SECTOR dvd sz"
      using kpart_Inr[of "rdb_kpart b" bg stop] head by (auto simp: boot_head_def)
    note l = kpart_loop_slots[OF kp(2,4)]
    have sd: "GPT_FRONT_SECTORS * SECTOR \<le> br_seed_off region" "SEED_PARTITION_BYTES \<le> start"
      "br_seed_off region = start - SEED_PARTITION_BYTES"
      using reg(3) l(5) unfolding kp(1) place_seed_KpartSlots by simp_all
    moreover have "chain start (map slot_extent slots) (br_rootfs_off region)"
      using l(1) reg(2) by (rule chain_weaken)
    moreover have "SECTOR dvd br_seed_off region"
      unfolding sd(3) using kp(3) seed(1) by (rule dvd_diff_nat)
    ultimately show ?thesis by (simp add: head_extents_def kp(1))
  qed
  then show "chain (GPT_FRONT_SECTORS * SECTOR) (head_extents (br_boot region) (br_seed_off region))
           (br_rootfs_off region)"
    and "SECTOR dvd br_seed_off region" "EXT4_BLOCK dvd br_rootfs_off region"
    using reg al by simp_all
qed

lemma region_resolve_bound: "region_resolve boot = Inr region \<Longrightarrow> br_rootfs_off region \<le> u64_max"
  by (auto simp: region_resolve_def dest: parse_size_bound)

section \<open>The whole layout\<close>

lemma assemble_Inr:
  "assemble region total_size rootfs_bytes = Inr g \<longleftrightarrow>
     EXT4_BLOCK dvd rootfs_bytes \<and> SECTOR dvd total_size
     \<and> br_rootfs_off region div SECTOR + rootfs_bytes div SECTOR \<le> u64_max
     \<and> GPT_BACK_SECTORS + (br_rootfs_off region div SECTOR + rootfs_bytes div SECTOR) \<le> total_size div SECTOR
     \<and> g = \<lparr>g_total_size = total_size, g_boot = br_boot region, g_seed_off = br_seed_off region,
           g_rootfs_off = br_rootfs_off region, g_rootfs_first_lba = br_rootfs_off region div SECTOR,
           g_rootfs_length_lba = rootfs_bytes div SECTOR, g_rootfs_bytes = rootfs_bytes\<rparr>"
  unfolding assemble_def Let_def bind_r_eq_Inr
  by (auto split: option.splits if_splits)

lemma assembled:
  assumes "region_resolve boot = Inr region" "assemble region total_size rootfs_bytes = Inr g"
  shows "chain 0 (extents g) (g_total_size g)"
    and "EXT4_BLOCK dvd g_rootfs_off g" "EXT4_BLOCK dvd g_rootfs_bytes g" "SECTOR dvd g_seed_off g"
      "g_rootfs_off g = g_rootfs_first_lba g * SECTOR" "g_rootfs_bytes g = g_rootfs_length_lba g * SECTOR"
proof -
  note r = region_resolve_chain[OF assms(1)] and a = assms(2)[unfolded assemble_Inr]
  have s: "SECTOR dvd EXT4_BLOCK" "SECTOR > 0" by (simp_all add: geom_consts)
  then obtain p q n where k: "br_rootfs_off region = SECTOR * p" "rootfs_bytes = SECTOR * q" "total_size = SECTOR * n"
    using r(3) a by (meson dvd_def dvd_trans)
  with a s(2) have "p + q + GPT_BACK_SECTORS \<le> n" by auto
  then have "SECTOR * (p + q + GPT_BACK_SECTORS) \<le> SECTOR * n" by (rule mult_le_mono2)
  then have "br_rootfs_off region + rootfs_bytes \<le> total_size - GPT_BACK_SECTORS * SECTOR"
    unfolding k by (simp add: algebra_simps)
  then show "chain 0 (extents g) (g_total_size g)"
    using r(1) a by (auto simp: extents_def chain_append)
  show "EXT4_BLOCK dvd g_rootfs_off g" "EXT4_BLOCK dvd g_rootfs_bytes g" "SECTOR dvd g_seed_off g"
      "g_rootfs_off g = g_rootfs_first_lba g * SECTOR" "g_rootfs_bytes g = g_rootfs_length_lba g * SECTOR"
    using r a s k by (auto simp: dvd_mult_div_cancel)
qed

lemma geometry_resolve_Inr:
  "geometry_resolve boot total_size = Inr g \<longleftrightarrow>
     (\<exists>region. region_resolve boot = Inr region \<and> SECTOR dvd total_size
      \<and> br_rootfs_off region div SECTOR + (GPT_BACK_SECTORS + 1) \<le> total_size div SECTOR
      \<and> (let bytes = (total_size div SECTOR - (GPT_BACK_SECTORS + 1) - br_rootfs_off region div SECTOR + 1) * SECTOR
                      div EXT4_BLOCK * EXT4_BLOCK in
         MIN_ROOTFS_BYTES \<le> bytes \<and> assemble region total_size bytes = Inr g))"
  unfolding geometry_resolve_def Let_def bind_r_eq_Inr check_simps
  by (auto split: option.splits if_splits)


text \<open>Two layouts of real boards: the raw gap of an RK3588 board and a two-slot ChromeOS board.\<close>

definition rk1_boot :: ResolvedBoot where
  "rk1_boot = RkbinBoot
     \<lparr>rrb_uboot_defconfig = ''turing-rk1-rk3588_defconfig'', rrb_uboot_source = ''https://example.org/u-boot.git'',
      rrb_uboot_ref = ''v2026.01'', rrb_uboot_series = None, rrb_uboot_patches_url = None, rrb_uboot_patches_ref = None,
      rrb_rkbin = \<lparr>rk_atf = ''bl31.elf'', rk_tpl = ''ddr.bin'', rk_bl32 = None, rk_upstream = None\<rparr>,
      rrb_offsets = \<lparr>off_idbloader = ''32KiB'', off_uboot_itb = ''8MiB'', off_rootfs = ''16MiB''\<rparr>\<rparr>"

definition chromebook_boot :: ResolvedBoot where
  "chromebook_boot = DepthchargeBoot
     \<lparr>rdb_board = ''speedy'',
      rdb_kpart = \<lparr>kp_offset = ''12MiB'', kp_size = ''64MiB'', kp_slots = 2, kp_priority = 1, kp_tries = 0,
                 kp_successful = True, kp_flags = 0x0101000000000000\<rparr>,
      rdb_cmdline = ''console=tty1 loglevel=4'', rdb_rootfs_offset = ''140MiB'', rdb_initramfs_compress = Zstd\<rparr>"

lemma chromebook_kpart:
  "\<exists>slots. kpart \<lparr>kp_offset = ''12MiB'', kp_size = ''64MiB'', kp_slots = 2, kp_priority = 1, kp_tries = 0,
      kp_successful = True, kp_flags = 0x0101000000000000\<rparr> = Inr (KpartSlots slots, 146800640) \<and> slots \<noteq> [] \<and> slot_offset (hd slots) = 12582912"
proof -
  have "parse_size ''12MiB'' = Inr 12582912" "parse_size ''64MiB'' = Inr 67108864" by code_simp+
  then show ?thesis
    by (auto simp: geom_size_def kpart_def geom_consts kpart_flags_eq max_values
        kpart_loop.simps(2) [of "pred_numeral k" for k, folded numeral_eq_Suc])
qed

lemma chromebook_resolves: "\<exists>g. geometry_resolve chromebook_boot (2 ^ 31) = Inr g"
proof -
  have p: "parse_size ''140MiB'' = Inr 146800640" by code_simp
  obtain slots where "kpart \<lparr>kp_offset = ''12MiB'', kp_size = ''64MiB'', kp_slots = 2, kp_priority = 1,
      kp_tries = 0, kp_successful = True, kp_flags = 0x0101000000000000\<rparr> = Inr (KpartSlots slots, 146800640)"
    "slots \<noteq> []" "slot_offset (hd slots) = 12582912"
    using chromebook_kpart by blast
  then obtain region where "region_resolve chromebook_boot = Inr region" "br_rootfs_off region = 146800640"
    by (simp add: region_resolve_def boot_head_def chromebook_boot_def boot_rootfs_offset_def p
        place_seed_KpartSlots geom_consts)
  then show ?thesis
    by (simp add: geometry_resolve_Inr Let_def assemble_Inr geom_consts max_values)
qed


text \<open>An authored size gives a filesystem of at least 128 MiB that leaves less than one
  4096-byte block of the usable disk, the part in front of the backup table, unused.\<close>

theorem resolve_fills_disk:
  assumes "geometry_resolve boot total_size = Inr g"
  shows "g_total_size g = total_size \<and> MIN_ROOTFS_BYTES \<le> g_rootfs_bytes g
     \<and> total_size < g_rootfs_off g + g_rootfs_bytes g + GPT_BACK_SECTORS * SECTOR + EXT4_BLOCK"
proof -
  obtain region where r: "region_resolve boot = Inr region" and dv: "SECTOR dvd total_size"
    and le: "br_rootfs_off region div SECTOR + (GPT_BACK_SECTORS + 1) \<le> total_size div SECTOR"
    and m: "MIN_ROOTFS_BYTES \<le> g_rootfs_bytes g"
    and b: "g_rootfs_bytes g
        = (total_size div SECTOR - (GPT_BACK_SECTORS + 1) - br_rootfs_off region div SECTOR + 1) * SECTOR
            div EXT4_BLOCK * EXT4_BLOCK"
    and g: "assemble region total_size (g_rootfs_bytes g) = Inr g"
    using assms by (auto simp: geometry_resolve_Inr Let_def assemble_Inr)
  have off: "g_rootfs_off g = br_rootfs_off region" "g_total_size g = total_size"
    using g[unfolded assemble_Inr] by auto
  have "EXT4_BLOCK dvd br_rootfs_off region" by (rule region_resolve_chain(3)[OF r])
  then obtain p n where k: "br_rootfs_off region = SECTOR * p" "total_size = SECTOR * n"
    using dv by (auto simp: geom_consts dvd_def) 
  have "g_rootfs_bytes g = (n - p - 33) * 512 div 4096 * 4096" "p + 34 \<le> n"
    using b le by (simp_all add: k geom_consts)
  then show ?thesis using m unfolding off k by (simp add: geom_consts)
qed

theorem resolve_fills_disk_witness:
  "\<exists>g. geometry_resolve chromebook_boot (2 ^ 31) = Inr g
     \<and> 2 ^ 31 < g_rootfs_off g + g_rootfs_bytes g + GPT_BACK_SECTORS * SECTOR + EXT4_BLOCK"
  using chromebook_resolves resolve_fills_disk[of chromebook_boot "2 ^ 31"] by blast

text \<open>Sizing the disk around a filesystem and then resolving that disk size gives the
  same layout back, as long as the filesystem is not below the authored minimum: a fitted
  image can be re-declared with the size it came out at.\<close>

theorem around_then_resolve:
  assumes "around_rootfs boot rootfs_bytes = Inr g" "MIN_ROOTFS_BYTES \<le> rootfs_bytes"
  shows "geometry_resolve boot (g_total_size g) = Inr g"
proof -
  obtain region where r: "region_resolve boot = Inr region"
    and a: "assemble region (br_rootfs_off region + rootfs_bytes + GPT_BACK_SECTORS * SECTOR) rootfs_bytes = Inr g"
    using assms(1) by (auto simp: around_rootfs_def bind_eq_Some_conv)
  have "EXT4_BLOCK dvd br_rootfs_off region" by (rule region_resolve_chain(3)[OF r])
  moreover have "EXT4_BLOCK dvd rootfs_bytes" using a by (simp add: assemble_Inr)
  ultimately obtain p q where k: "br_rootfs_off region = 4096 * p" "rootfs_bytes = 4096 * q"
    by (auto simp: geom_consts dvd_def)
  have t: "g_total_size g = br_rootfs_off region + rootfs_bytes + GPT_BACK_SECTORS * SECTOR"
    using a by (simp add: assemble_Inr)
  have d: "br_rootfs_off region div SECTOR = 8 * p" "g_total_size g div SECTOR = 8 * p + 8 * q + 33"
    unfolding t k by (simp_all add: geom_consts)
  have "q > 0" using assms(2) by (simp add: k geom_consts)
  then have "(g_total_size g div SECTOR - (GPT_BACK_SECTORS + 1) - br_rootfs_off region div SECTOR + 1) * SECTOR
      div EXT4_BLOCK * EXT4_BLOCK = rootfs_bytes"
    and "br_rootfs_off region div SECTOR + (GPT_BACK_SECTORS + 1) \<le> g_total_size g div SECTOR"
    unfolding d by (simp_all add: k geom_consts)
  moreover have "SECTOR dvd g_total_size g" using a by (auto simp: assemble_Inr t)
  ultimately show ?thesis
    using a r assms(2) unfolding geometry_resolve_Inr Let_def t[symmetric] by metis
qed

theorem around_then_resolve_witness:
  "\<exists>g. around_rootfs rk1_boot (2 ^ 28) = Inr g \<and> geometry_resolve rk1_boot (g_total_size g) = Inr g"
proof -
  have "ok (around_rootfs rk1_boot (2 ^ 28)) \<noteq> None" by code_simp
  then obtain g where "around_rootfs rk1_boot (2 ^ 28) = Inr g"
    by (cases "around_rootfs rk1_boot (2 ^ 28)") auto
  with around_then_resolve[of rk1_boot "2 ^ 28" g] show ?thesis
    by (simp add: MIN_ROOTFS_BYTES_def EXT4_BLOCK_def)
qed

section \<open>Payloads\<close>

text \<open>The extent each payload of a boot method may fill, in the order the payloads are given.\<close>

definition payload_slots :: "BootRegion \<Rightarrow> extent list" where
  "payload_slots region =
     (case br_boot region of
        RawGap idb itb \<Rightarrow> [(idb, itb), (itb, br_seed_off region)]
      | KpartSlots slots \<Rightarrow> map slot_extent (take 1 slots))"

lemma fits_Inr: "limit \<le> u64_max \<Longrightarrow> fits what len start limit = Inr () \<longleftrightarrow> start + len \<le> limit"
  by (auto simp: fits_def)

lemma payload_slots_bound:
  assumes "region_resolve boot = Inr region" "(a, b) \<in> set (payload_slots region)"
  shows "b \<le> u64_max"
proof -
  have "(a, b) \<in> set (head_extents (br_boot region) (br_seed_off region))"
    using assms(2) by (auto simp: payload_slots_def head_extents_def Let_def split: BootGeometry.splits dest: in_set_takeD)
  then show ?thesis
    using chain_bounds[OF region_resolve_chain(1)[OF assms(1)]] region_resolve_bound[OF assms(1)] by fastforce
qed

text \<open>The payload check passes exactly when there is one payload per slot of the boot
  method and each ends within its slot, whatever the lengths: an end past \<open>u64::MAX\<close> is
  refused like any other overrun. For the raw gap the slots end at \<open>u-boot.itb\<close> and at the
  seed partition; for ChromeOS there is the first kernel slot.\<close>

theorem payload_fit_exact:
  assumes "region_resolve boot = Inr region"
  shows "check_payload_fit region payloads = Inr () \<longleftrightarrow>
    list_all2 (\<lambda>(_, len) (start, limit). start + len \<le> limit) payloads (payload_slots region)"
proof (cases "br_boot region")
  case (RawGap idb itb)
  with payload_slots_bound[OF assms] have "itb \<le> u64_max" "br_seed_off region \<le> u64_max"
    by (auto simp: payload_slots_def)
  with RawGap show ?thesis
    by (auto simp: check_payload_fit_def payload_slots_def fits_Inr list_all2_Cons2
        split: list.splits)
next
  case (KpartSlots slots)
  with assms have "slots \<noteq> []"
    by (auto simp: region_resolve_def place_seed_KpartSlots)
  then obtain s ss where s: "slots = s # ss" by (cases slots) auto
  with KpartSlots payload_slots_bound[OF assms] have "slot_offset s + slot_length_lba s * SECTOR \<le> u64_max"
    by (auto simp: payload_slots_def slot_extent_def)
  with KpartSlots s show ?thesis
    by (auto simp: check_payload_fit_def payload_slots_def slot_extent_def fits_Inr list_all2_Cons2
        split: list.splits)
qed

theorem payload_fit_exact_witness:
  "\<exists>region. region_resolve rk1_boot = Inr region
     \<and> check_payload_fit region [(''idbloader.img'', 200000), (''u-boot.itb'', 1200000)] = Inr ()
     \<and> check_payload_fit region [(''idbloader.img'', 200000), (''u-boot.itb'', 7340033)] \<noteq> Inr ()"
proof -
  have "region_resolve rk1_boot
      = Inr \<lparr>br_boot = RawGap 32768 8388608, br_seed_off = 15728640, br_rootfs_off = 16777216\<rparr>"
    by code_simp
  note f = payload_fit_exact[OF this] and r = this
  show ?thesis by (intro exI conjI, rule r) (simp_all add: f payload_slots_def)
qed

end
