(* ===== verification/Base64.thy ===== *)
theory Base64
  imports Strings
begin

text \<open>
  \<open>crates/core/src/base64.rs\<close>: padded standard base64. A byte is a \<open>nat\<close> below 256; the
  24-bit group accumulator is kept in the code's bit operations on \<open>nat\<close>, which agree with
  \<open>u32\<close> since no group reaches bit 24. The \<open>codec\<close> interface is interpreted on the pair.
\<close>

unbundle bit_operations_syntax

section \<open>Operations\<close>

definition ALPHABET :: string where
  "ALPHABET = ''ABCDEFGHIJKLMNOPQRSTUVWXYZabcdefghijklmnopqrstuvwxyz0123456789+/''"

text \<open>\<open>slice::chunks\<close>.\<close>

function chunks :: "nat \<Rightarrow> 'a list \<Rightarrow> 'a list list" where
  "chunks n [] = []"
| "chunks n (x # xs) = (x # take (n - 1) xs) # chunks n (drop (n - 1) xs)"
  by pat_completeness auto
termination by (relation "measure (\<lambda>(n, xs). length xs)") auto

definition group_acc :: "nat list \<Rightarrow> nat" where
  "group_acc g = foldl (\<lambda>acc (i, b). acc OR push_bit (16 - 8 * i) b) 0 (enumerate 0 g)"

definition encode_group :: "nat list \<Rightarrow> string" where
  "encode_group g =
     map (\<lambda>i. ALPHABET ! (drop_bit (18 - 6 * i) (group_acc g) AND 63)) [0..<Suc (length g)]
     @ replicate (3 - length g) (CHR ''='')"

definition base64_encode :: "nat list \<Rightarrow> string" where
  "base64_encode bytes = concat (map encode_group (chunks 3 bytes))"

definition sextet :: "char \<Rightarrow> nat option" where
  "sextet c =
     (let v = (of_char c :: nat) in
      if 65 \<le> v \<and> v \<le> 90 then Some (v - 65)
      else if 97 \<le> v \<and> v \<le> 122 then Some (v - 97 + 26)
      else if 48 \<le> v \<and> v \<le> 57 then Some (v - 48 + 52)
      else if v = 43 then Some 62
      else if v = 47 then Some 63
      else None)"

fun read_group :: "nat \<Rightarrow> string \<Rightarrow> nat option" where
  "read_group acc [] = Some acc"
| "read_group acc (c # g) =
     (case sextet c of None \<Rightarrow> None | Some s \<Rightarrow> read_group (push_bit 6 acc OR s) g)"

definition decode_group :: "string \<Rightarrow> nat list option" where
  "decode_group g =
     (if length g = 1 then None
      else case read_group 0 g of
             None \<Rightarrow> None
           | Some acc0 \<Rightarrow>
               (let acc = push_bit (6 * (4 - length g)) acc0;
                    full = [take_bit 8 (drop_bit 16 acc), take_bit 8 (drop_bit 8 acc), take_bit 8 acc]
                in Some (take (length g - 1) full)))"

fun decode_groups :: "string list \<Rightarrow> nat list option" where
  "decode_groups [] = Some []"
| "decode_groups (g # gs) =
     (case decode_group g of None \<Rightarrow> None | Some b \<Rightarrow> map_option ((@) b) (decode_groups gs))"

definition base64_decode :: "string \<Rightarrow> nat list option" where
  "base64_decode s =
     (let pad = length (takeWhile (\<lambda>c. c = CHR ''='') (rev s)) in
      if pad > 2 \<or> length s mod 4 \<noteq> 0 then None
      else decode_groups (chunks 4 (take (length s - pad) s)))"

section \<open>The alphabet\<close>

lemma sextet_ALPHABET: "k < 64 \<Longrightarrow> sextet (ALPHABET ! k) = Some k"
proof -
  have "list_all (\<lambda>k. sextet (ALPHABET ! k) = Some k) [0..<64]" by code_simp
  then show "k < 64 \<Longrightarrow> ?thesis" by (simp add: list_all_iff)
qed

lemma ALPHABET_not_pad: "k < 64 \<Longrightarrow> ALPHABET ! k \<noteq> CHR ''=''"
  using sextet_ALPHABET[of k] by (auto simp: sextet_def Let_def)

section \<open>Group arithmetic\<close>

lemma push_or: "s < 2 ^ n \<Longrightarrow> push_bit n a OR s = a * 2 ^ n + s" for a s :: nat
proof -
  assume s: "s < 2 ^ n"
  then have t: "take_bit n s = s" by (simp add: take_bit_nat_eq_self)
  have "push_bit n a AND s = 0"
    by (rule bit_eqI) (metis bit_and_iff bit_push_bit_iff_nat bit_take_bit_iff t not_less bit_0_eq bot_apply bot_bool_def)
  then have "push_bit n a OR s = push_bit n a + s" by (metis disjunctive_add bit_and_iff bit_0_eq bot_apply bot_bool_def)
  then show ?thesis by (simp add: push_bit_eq_mult)
qed

lemma and63: "x AND 63 = x mod 64" for x :: nat
proof -
  have "x AND mask 6 = take_bit 6 x" by (simp add: take_bit_eq_mask)
  then show ?thesis by (simp add: mask_eq_exp_minus_1 take_bit_eq_mod)
qed

lemma group_acc_bytes:
  assumes "a < 256" "b < 256" "c < 256"
  shows "group_acc [a] = a * 65536"
    and "group_acc [a, b] = a * 65536 + b * 256"
    and "group_acc [a, b, c] = a * 65536 + b * 256 + c"
proof -
  have p: "push_bit 16 a OR push_bit 8 b = a * 65536 + b * 256"
    using assms push_or[of "push_bit 8 b" 16 a] by (simp add: push_bit_eq_mult)
  have "a * 65536 + b * 256 = push_bit 8 (a * 256 + b)" by (simp add: push_bit_eq_mult)
  then have q: "(a * 65536 + b * 256) OR c = a * 65536 + b * 256 + c"
    using assms push_or[of c 8 "a * 256 + b"] by simp
  show "group_acc [a] = a * 65536" by (simp add: group_acc_def push_bit_eq_mult)
  show "group_acc [a, b] = a * 65536 + b * 256" using p by (simp add: group_acc_def)
  show "group_acc [a, b, c] = a * 65536 + b * 256 + c" using p q by (simp add: group_acc_def)
qed

definition digit64 :: "nat \<Rightarrow> char" where
  "digit64 k = ALPHABET ! (k mod 64)"

lemma sextet_digit64 [simp]: "sextet (digit64 k) = Some (k mod 64)"
  by (simp add: digit64_def sextet_ALPHABET)

lemma digit64_not_pad [simp]: "digit64 k \<noteq> CHR ''=''"
  by (simp add: digit64_def ALPHABET_not_pad)

lemma read_digits:
  "read_group acc [] = Some acc"
  "read_group acc (digit64 k # g) = read_group (acc * 64 + k mod 64) g"
  by (simp_all add: push_or[of _ 6])

lemma upt_groups:
  "[0..<Suc (length [x])] = [0, 1]" "[0..<Suc (length [x, y])] = [0, 1, 2]"
  "[0..<Suc (length [x, y, z])] = [0, 1, 2, 3]"
  "replicate (3 - length [x]) p = [p, p]" "replicate (3 - length [x, y]) p = [p]" "replicate (3 - length [x, y, z]) p = []"
  by (simp_all add: upt_rec eval_nat_numeral)

lemma group_digits:
  assumes "b < 256" "c < (256 :: nat)"
  shows "(a * 65536 + b * 256 + c) div 262144 = a div 4"
    and "(a * 65536 + b * 256 + c) div 4096 = a * 16 + b div 16"
    and "(a * 65536 + b * 256 + c) div 64 = (a * 16) * 64 + b * 4 + c div 64"
proof -
  have h: "(a * 65536 + b * 256 + c) div 65536 = a" "(a * 65536 + b * 256 + c) div 256 = a * 256 + b"
    using assms by simp_all
  show "(a * 65536 + b * 256 + c) div 262144 = a div 4"
    using h(1) div_mult2_eq[of "a * 65536 + b * 256 + c" 65536 4] by simp
  show "(a * 65536 + b * 256 + c) div 4096 = a * 16 + b div 16"
    using h(2) div_mult2_eq[of "a * 65536 + b * 256 + c" 256 16] by simp
  show "(a * 65536 + b * 256 + c) div 64 = (a * 16) * 64 + b * 4 + c div 64"
    by simp
qed

lemma encode_group_bytes:
  assumes "a < 256" "b < 256" "c < 256"
  shows "encode_group [a] = [digit64 (a div 4), digit64 (a * 16), CHR ''='', CHR ''='']"
    and "encode_group [a, b] = [digit64 (a div 4), digit64 (a * 16 + b div 16), digit64 (b * 4), CHR ''='']"
    and "encode_group [a, b, c]
      = [digit64 (a div 4), digit64 (a * 16 + b div 16), digit64 (b * 4 + c div 64), digit64 c]"
proof -
  note g = group_acc_bytes[OF assms] and d = group_digits[OF assms(2,3), of a] group_digits[OF assms(2), of 0 a]
      group_digits[of 0 0 a]
  note s = and63 drop_bit_eq_div digit64_def
  have m: "(1024 * a + x) mod 64 = x mod 64" for x
    using mod_mult_self3[of "16 * a" 64 x] by (simp add: mult.commute)
  have m': "(a * 65536 + b * 256 + c) mod 64 = c mod 64"
    using mod_mult_self3[of "a * 1024 + b * 4" 64 c] by (simp add: algebra_simps)
  show "encode_group [a] = [digit64 (a div 4), digit64 (a * 16), CHR ''='', CHR ''='']"
    using d g unfolding encode_group_def upt_groups by (simp add: s mult.commute)
  show "encode_group [a, b] = [digit64 (a div 4), digit64 (a * 16 + b div 16), digit64 (b * 4), CHR ''='']"
    using d g m[of "4 * b"] unfolding encode_group_def upt_groups by (simp add: s mult.commute[of b])
  show "encode_group [a, b, c]
      = [digit64 (a div 4), digit64 (a * 16 + b div 16), digit64 (b * 4 + c div 64), digit64 c]"
    using d g m' m[of "b * 4 + c div 64"] unfolding encode_group_def upt_groups by (simp add: s add.assoc[symmetric])
qed

section \<open>Whole messages\<close>

text \<open>The characters of a message before its padding.\<close>

fun body :: "nat list \<Rightarrow> string" where
  "body [] = []"
| "body [a] = [digit64 (a div 4), digit64 (a * 16)]"
| "body [a, b] = [digit64 (a div 4), digit64 (a * 16 + b div 16), digit64 (b * 4)]"
| "body (a # b # c # bs) =
     digit64 (a div 4) # digit64 (a * 16 + b div 16) # digit64 (b * 4 + c div 64) # digit64 c # body bs"

definition padding :: "nat list \<Rightarrow> nat" where
  "padding bs = (3 - length bs mod 3) mod 3"

abbreviation bytes :: "nat list \<Rightarrow> bool" where
  "bytes bs \<equiv> \<forall>b \<in> set bs. b < 256"

lemma chunks_3: "chunks 3 [] = []" "chunks 3 [a] = [[a]]" "chunks 3 [a, b] = [[a, b]]"
  "chunks 3 (a # b # c # bs) = [a, b, c] # chunks 3 bs"
  by (simp_all add: numeral_2_eq_2)

lemma encode_body: "bytes bs \<Longrightarrow> base64_encode bs = body bs @ replicate (padding bs) (CHR ''='')"
proof (induction bs rule: body.induct)
  case (4 a b c bs)
  then show ?case by (simp add: base64_encode_def chunks_3 encode_group_bytes padding_def)
next
  case (2 a)
  then show ?case using encode_group_bytes(1)[of a 0 0]
    by (simp add: base64_encode_def chunks_3 padding_def numeral_2_eq_2)
next
  case (3 a b)
  then show ?case using encode_group_bytes(2)[of a b 0]
    by (simp add: base64_encode_def chunks_3 padding_def)
qed (simp add: base64_encode_def padding_def)

lemma body_no_pad: "CHR ''='' \<notin> set (body bs)"
  using digit64_not_pad by (induction bs rule: body.induct) (auto simp del: digit64_not_pad dest: sym)

lemma body_length: "(length (body bs) + padding bs) mod 4 = 0"
proof (induction bs rule: body.induct)
  case (4 a b c bs)
  have "padding (a # b # c # bs) = padding bs" by (simp add: padding_def)
  with 4 show ?case by simp
qed (simp_all add: padding_def)

lemma chunks_4: "chunks 4 [] = []" "chunks 4 [a, b] = [[a, b]]" "chunks 4 [a, b, c] = [[a, b, c]]"
  "chunks 4 (a # b # c # d # bs) = [a, b, c, d] # chunks 4 bs"
  by (simp_all add: numeral_3_eq_3)

lemma four_digits:
  fixes x :: nat
  assumes "x < 16777216"
  shows "((x div 262144 mod 64 * 64 + x div 4096 mod 64) * 64 + x div 64 mod 64) * 64 + x mod 64 = x"
proof -
  define y z w where "y = x div 64" and "z = y div 64" and "w = z div 64"
  have "z = x div 4096" unfolding y_def z_def using div_mult2_eq[of x 64 64] by simp
  moreover have "w = x div 262144" unfolding w_def calculation using div_mult2_eq[of x 4096 64] by simp
  moreover have "w < 64" unfolding calculation(2) using assms by (simp add: less_mult_imp_div_less)
  moreover have "64 * y + x mod 64 = x" "64 * z + y mod 64 = y" "64 * w + z mod 64 = z"
    unfolding w_def z_def y_def by (rule mult_div_mod_eq)+
  ultimately show ?thesis by (simp add: y_def[symmetric] flip: y_def)
qed

lemma group_mods:
  fixes a b c :: nat
  shows "(1024 * a + b) mod 64 = b mod 64" "(a * 65536 + b * 256 + c) mod 64 = c mod 64"
    "(a * 256 + b) mod 256 = b mod 256" "(a * 65536 + b * 256 + c) mod 256 = c mod 256"
  using mod_mult_self3[of "16 * a" 64 b] mod_mult_self3[of "a * 1024 + b * 4" 64 c]
    mod_mult_self3[of a 256 b] mod_mult_self3[of "a * 256 + b" 256 c]
  by (simp_all add: algebra_simps)

lemma group_value:
  fixes a b c :: nat
  assumes "a < 256" "b < 256" "c < 256"
  shows "((a div 4 mod 64 * 64 + (a * 16 + b div 16) mod 64) * 64 + (b * 4 + c div 64) mod 64) * 64 + c mod 64
    = a * 65536 + b * 256 + c"
proof -
  have "a * 65536 + b * 256 + c < 16777216" using assms by simp
  note f = four_digits[OF this, unfolded group_digits[OF assms(2,3)] group_mods(2)]
  have "(a * 16 * 64 + b * 4 + c div 64) mod 64 = (b * 4 + c div 64) mod 64"
    using group_mods(1)[of a "b * 4 + c div 64"] by (simp add: add.assoc)
  with f show ?thesis by simp
qed

lemma decode_group_digits:
  assumes "a < 256" "b < 256" "c < 256"
  shows "decode_group [digit64 (a div 4), digit64 (a * 16)] = Some [a]"
    and "decode_group [digit64 (a div 4), digit64 (a * 16 + b div 16), digit64 (b * 4)] = Some [a, b]"
    and "decode_group [digit64 (a div 4), digit64 (a * 16 + b div 16), digit64 (b * 4 + c div 64), digit64 c]
      = Some [a, b, c]"
proof -
  note s = decode_group_def Let_def read_digits push_bit_eq_mult drop_bit_eq_div take_bit_eq_mod
  have h: "(a * 65536 + b * 256 + c) div 65536 mod 256 = a" "(a * 65536 + b * 256 + c) div 256 mod 256 = b"
    "(a * 65536 + b * 256 + c) mod 256 = c" if "b < 256" "c < 256" for b c
  proof -
    have "(a * 65536 + b * 256 + c) div 256 = a * 256 + b" using that by simp
    then show "(a * 65536 + b * 256 + c) div 256 mod 256 = b" using that by (simp add: group_mods(3))
    show "(a * 65536 + b * 256 + c) div 65536 mod 256 = a" using that assms by simp
    show "(a * 65536 + b * 256 + c) mod 256 = c" using that by (simp add: group_mods(4))
  qed
  show "decode_group [digit64 (a div 4), digit64 (a * 16)] = Some [a]"
    using group_value[of a 0 0] h[of 0 0] assms by (simp add: s del: read_group.simps(2))
  show "decode_group [digit64 (a div 4), digit64 (a * 16 + b div 16), digit64 (b * 4)] = Some [a, b]"
    using group_value[of a b 0] h[of b 0] assms by (simp add: s del: read_group.simps(2))
  show "decode_group [digit64 (a div 4), digit64 (a * 16 + b div 16), digit64 (b * 4 + c div 64), digit64 c]
      = Some [a, b, c]"
    using group_value[of a b c] h[of b c] assms by (simp add: s del: read_group.simps(2))
qed

lemma decode_body: "bytes bs \<Longrightarrow> decode_groups (chunks 4 (body bs)) = Some bs"
proof (induction bs rule: body.induct)
  case (2 a)
  then show ?case using decode_group_digits(1)[of a 0 0] by (simp add: chunks_4)
next
  case (3 a b)
  then show ?case using decode_group_digits(2)[of a b 0] by (simp add: chunks_4)
next
  case (4 a b c bs)
  then show ?case using decode_group_digits(3)[of a b c] by (simp add: chunks_4)
qed simp

lemma decode_encode_bytes:
  assumes "bytes bs"
  shows "base64_decode (base64_encode bs) = Some bs"
proof -
  have "takeWhile (\<lambda>c. c = CHR ''='') (rev xs) = []" if "CHR ''='' \<notin> set xs" for xs
    using that by (cases xs rule: rev_cases) auto
  from this[OF body_no_pad, of bs] have "length (takeWhile (\<lambda>c. c = CHR ''='') (rev (base64_encode bs))) = padding bs"
    by (simp add: encode_body[OF assms] takeWhile_append set_replicate_conv_if)
  moreover have "padding bs \<le> 2" by (simp add: padding_def)
  moreover have "length (base64_encode bs) mod 4 = 0"
    using body_length[of bs] by (simp add: encode_body[OF assms])
  ultimately show ?thesis
    using decode_body[OF assms] by (simp add: base64_decode_def Let_def) (simp add: encode_body[OF assms])
qed

interpretation base64_codec: codec base64_encode base64_decode "\<lambda>bs. bytes bs"
  by unfold_locales (rule decode_encode_bytes)

section \<open>Properties\<close>

text \<open>C25. Base64 decoding inverts encoding on every byte sequence, so distinct sequences have
  distinct encodings, and an encoding is whole groups of four characters.\<close>

theorem base64_roundtrip:
  assumes "bytes bs"
  shows "base64_decode (base64_encode bs) = Some bs
    \<and> (\<forall>bs'. bytes bs' \<and> base64_encode bs' = base64_encode bs \<longrightarrow> bs' = bs)
    \<and> length (base64_encode bs) = 4 * ((length bs + 2) div 3)"
proof (intro conjI allI impI)
  show "base64_decode (base64_encode bs) = Some bs" by (rule base64_codec.decode_encode[OF assms])
  show "bs' = bs" if "bytes bs' \<and> base64_encode bs' = base64_encode bs" for bs'
    using base64_codec.encode_inj[OF conjunct1[OF that] assms] conjunct2[OF that] by (rule iffD1)
  have "length (body bs) + padding bs = 4 * ((length bs + 2) div 3)"
  proof (induction bs rule: body.induct)
    case (4 a b c bs)
    have "padding (a # b # c # bs) = padding bs" by (simp add: padding_def)
    moreover have "(length (a # b # c # bs) + 2) div 3 = Suc ((length bs + 2) div 3)"
      using div_add_self2[of 3 "length bs + 2"] by (simp add: ac_simps)
    ultimately show ?case using 4 by simp
  qed (simp_all add: padding_def)
  then show "length (base64_encode bs) = 4 * ((length bs + 2) div 3)"
    by (simp add: encode_body[OF assms])
qed

theorem base64_roundtrip_witness:
  "base64_decode (base64_encode [109, 97, 110, 0, 255]) = Some [109, 97, 110, 0, 255]
   \<and> base64_encode [109, 97, 110] = ''bWFu''"
proof
  show "base64_decode (base64_encode [109, 97, 110, 0, 255]) = Some [109, 97, 110, 0, 255]"
    using base64_roundtrip[of "[109, 97, 110, 0, 255]"] by auto
  show "base64_encode [109, 97, 110] = ''bWFu''" by code_simp
qed

end
