(* ===== verification/Authkeys.thy ===== *)
theory Authkeys
  imports Base64 Paths
begin

text \<open>
  \<open>crates/core/src/authkeys.rs\<close>: the shape of an \<open>authorized_keys\<close> entry. The refusals keep
  the code's order; each message is a constructor of \<open>key_why\<close>. A key type is compared with
  the type name the decoded blob carries, byte for byte.
\<close>

section \<open>Operations\<close>

definition KEY_TYPES :: "string list" where
  "KEY_TYPES = [''ssh-ed25519'', ''ssh-rsa'', ''ecdsa-sha2-nistp256'', ''ecdsa-sha2-nistp384'',
     ''ecdsa-sha2-nistp521'', ''sk-ssh-ed25519@openssh.com'', ''sk-ecdsa-sha2-nistp256@openssh.com'']"

datatype key_why =
    PrivateKey | Newline | KeyEmpty | EdgeWhitespace | OptionsPrefix | MissingFields
  | UnknownType | NotBase64 | Truncated | TypeMismatch | CommentControl

definition str_bytes :: "string \<Rightarrow> nat list" where
  "str_bytes s = map of_char s"

text \<open>\<open>split_at_checked(4)\<close>, the big-endian length, and the bounded slice after it.\<close>

definition embedded_type :: "nat list \<Rightarrow> nat list option" where
  "embedded_type decoded =
     (if length decoded < 4 then None
      else
        let len = decoded ! 0 * 2 ^ 24 + decoded ! 1 * 2 ^ 16 + decoded ! 2 * 2 ^ 8 + decoded ! 3;
            rest = drop 4 decoded
        in if len = 0 \<or> len > 64 then None
           else if len \<le> length rest then Some (take len rest) else None)"

definition splitn3 :: "char \<Rightarrow> string \<Rightarrow> string \<times> string \<times> string option" where
  "splitn3 c s =
     (case split_once c s of
        None \<Rightarrow> (s, [], None)
      | Some (a, r) \<Rightarrow> (case split_once c r of None \<Rightarrow> (a, r, None) | Some (b, r') \<Rightarrow> (a, b, Some r')))"

definition check_blob :: "string \<Rightarrow> string \<Rightarrow> string option \<Rightarrow> key_why + unit" where
  "check_blob key_type blob comment =
     (case base64_decode blob of
        None \<Rightarrow> Inl NotBase64
      | Some decoded \<Rightarrow>
          if decoded = [] then Inl NotBase64
          else case embedded_type decoded of
                 None \<Rightarrow> Inl Truncated
               | Some embedded \<Rightarrow>
                   if embedded \<noteq> str_bytes key_type then Inl TypeMismatch
                   else case comment of
                          Some c \<Rightarrow> if list_ex is_control c then Inl CommentControl else Inr ()
                        | None \<Rightarrow> Inr ())"

definition check_authorized_key :: "string \<Rightarrow> key_why + unit" where
  "check_authorized_key entry =
     (if contains_str ''PRIVATE KEY'' entry then Inl PrivateKey
      else if CHR 0x0A \<in> set entry \<or> CHR 0x0D \<in> set entry then Inl Newline
      else if trim entry = [] then Inl KeyEmpty
      else if entry \<noteq> trim entry then Inl EdgeWhitespace
      else case splitn3 (CHR '' '') entry of
             (key_type, blob, comment) \<Rightarrow>
               if blob = [] then
                 (if CHR ''='' \<in> set key_type \<or> CHR '','' \<in> set key_type then Inl OptionsPrefix
                  else Inl MissingFields)
               else if key_type \<notin> set KEY_TYPES then Inl UnknownType
               else check_blob key_type blob comment)"

section \<open>Lemmas\<close>

text \<open>The wire encoding of a key: a length-prefixed type name, then the key's own fields.\<close>

definition wire :: "string \<Rightarrow> nat list \<Rightarrow> nat list" where
  "wire key_type payload = [0, 0, 0, length key_type] @ str_bytes key_type @ payload"

lemma length_str_bytes [simp]: "length (str_bytes s) = length s"
  by (simp add: str_bytes_def)

lemma bytes_str_bytes: "bytes (str_bytes s)"
  by (auto simp: str_bytes_def)

lemma embedded_type_wire:
  "key_type \<noteq> [] \<Longrightarrow> length key_type \<le> 64 \<Longrightarrow> embedded_type (wire key_type payload) = Some (str_bytes key_type)"
  by (simp add: embedded_type_def wire_def Let_def)

lemma KEY_TYPES_shape: "list_all (\<lambda>t. t \<noteq> [] \<and> length t \<le> 64 \<and> list_all (\<lambda>c. \<not> is_ws c \<and> \<not> is_control c) t) KEY_TYPES"
  by code_simp

definition with_comment :: "string \<Rightarrow> string \<Rightarrow> string option \<Rightarrow> string" where
  "with_comment t b c = t @ CHR '' '' # b @ (case c of None \<Rightarrow> [] | Some r \<Rightarrow> CHR '' '' # r)"

lemma split_once_make: "c \<notin> set a \<Longrightarrow> split_once c (a @ c # b) = Some (a, b)"
  by (simp add: split_once_Some)

lemma splitn3_fields:
  assumes "splitn3 (CHR '' '') s = (t, b, c)" "b \<noteq> []"
  shows "s = with_comment t b c \<and> CHR '' '' \<notin> set t \<and> CHR '' '' \<notin> set b"
  using assms by (auto simp: splitn3_def with_comment_def split_once_None split_once_Some split: option.splits)

lemma splitn3_make:
  "CHR '' '' \<notin> set t \<Longrightarrow> CHR '' '' \<notin> set b \<Longrightarrow> splitn3 (CHR '' '') (with_comment t b c) = (t, b, c)"
  by (cases c) (simp_all add: splitn3_def with_comment_def split_once_make split_once_None[THEN iffD2])

lemma embedded_type_Some:
  assumes "embedded_type decoded = Some n"
  shows "\<exists>payload. decoded = take 4 decoded @ n @ payload \<and> length n \<le> 64
    \<and> length n = decoded ! 0 * 2 ^ 24 + decoded ! 1 * 2 ^ 16 + decoded ! 2 * 2 ^ 8 + decoded ! 3"
proof -
  define len where "len = decoded ! 0 * 2 ^ 24 + decoded ! 1 * 2 ^ 16 + decoded ! 2 * 2 ^ 8 + decoded ! 3"
  have "len \<le> 64" "len \<le> length (drop 4 decoded)" "n = take len (drop 4 decoded)"
    using assms by (auto simp: embedded_type_def Let_def len_def split: if_splits)
  moreover from this have "decoded = take 4 decoded @ n @ drop len (drop 4 decoded)"
    by (simp only: append_take_drop_id)
  ultimately show ?thesis unfolding len_def[symmetric] by (metis length_take min.absorb2)
qed

lemma ALPHABET_graphic: "list_all (\<lambda>c. is_graphic c) (CHR ''='' # ALPHABET)"
  by code_simp

lemma base64_graphic: "bytes bs \<Longrightarrow> c \<in> set (base64_encode bs) \<Longrightarrow> is_graphic c"
proof -
  have d: "is_graphic (digit64 k)" for k
  proof -
    have "k mod 64 < length ALPHABET" by (simp add: ALPHABET_def)
    then show ?thesis using ALPHABET_graphic nth_mem unfolding digit64_def list_all_iff by auto
  qed
  have "c \<in> set (body bs) \<Longrightarrow> is_graphic c" by (induction bs rule: body.induct) (auto simp: d)
  moreover have "is_graphic (CHR ''='')" by (simp add: is_graphic_def)
  ultimately show "bytes bs \<Longrightarrow> c \<in> set (base64_encode bs) \<Longrightarrow> is_graphic c"
    by (auto simp: encode_body split: if_splits)
qed

lemma graphic_plain: "is_graphic c \<Longrightarrow> \<not> is_ws c \<and> \<not> is_control c \<and> c \<noteq> CHR '' ''"
  by (auto simp: is_graphic_def is_ws_def is_control_def)

section \<open>Properties\<close>

text \<open>C32. An accepted entry is one line of the form \<open>type blob [comment]\<close>, with a known type and
  a base64 blob whose first field, a 32-bit length and that many bytes, is that same type; it
  holds no private key marker, starts and ends without white space, and its comment holds no
  control character.\<close>

theorem authorized_key_sound:
  assumes "check_authorized_key entry = Inr ()"
  shows "\<exists>key_type blob comment decoded payload.
     entry = with_comment key_type blob comment \<and> key_type \<in> set KEY_TYPES
     \<and> base64_decode blob = Some decoded \<and> decoded = take 4 decoded @ str_bytes key_type @ payload
     \<and> length key_type = decoded ! 0 * 2 ^ 24 + decoded ! 1 * 2 ^ 16 + decoded ! 2 * 2 ^ 8 + decoded ! 3
     \<and> (\<forall>c \<in> set_option comment. \<forall>x \<in> set c. \<not> is_control x)
     \<and> CHR 0x0A \<notin> set entry \<and> CHR 0x0D \<notin> set entry \<and> trim entry = entry
     \<and> (\<nexists>a b. entry = a @ ''PRIVATE KEY'' @ b)"
proof -
  obtain t b c where s: "splitn3 (CHR '' '') entry = (t, b, c)" using prod_cases3 by blast
  have e: "\<not> contains_str ''PRIVATE KEY'' entry" "CHR 0x0A \<notin> set entry" "CHR 0x0D \<notin> set entry"
    "trim entry = entry" "b \<noteq> []" "t \<in> set KEY_TYPES" "check_blob t b c = Inr ()"
    using assms by (auto simp: check_authorized_key_def s split: if_splits)
  obtain decoded where d: "base64_decode b = Some decoded" "embedded_type decoded = Some (str_bytes t)"
    "\<forall>c' \<in> set_option c. \<forall>x \<in> set c'. \<not> is_control x"
    using e(7) by (auto simp: check_blob_def list_ex_iff split: option.splits if_splits)
  obtain payload where "decoded = take 4 decoded @ str_bytes t @ payload"
    "length t = decoded ! 0 * 2 ^ 24 + decoded ! 1 * 2 ^ 16 + decoded ! 2 * 2 ^ 8 + decoded ! 3"
    using embedded_type_Some[OF d(2)] by auto
  with e d splitn3_fields[OF s e(5)] show ?thesis unfolding contains_str_iff by blast
qed

text \<open>Every key a tool writes is accepted: a known type, the base64 of its wire encoding
  and no comment pass the check whatever the key's own bytes are.\<close>

theorem authorized_key_complete:
  assumes "key_type \<in> set KEY_TYPES" "bytes payload"
  shows "check_authorized_key (key_type @ '' '' @ base64_encode (wire key_type payload)) = Inr ()"
proof -
  let ?b = "base64_encode (wire key_type payload)"
  let ?e = "with_comment key_type ?b None"
  have t: "key_type \<noteq> []" "length key_type \<le> 64" "\<forall>c \<in> set key_type. \<not> is_ws c \<and> \<not> is_control c"
    using KEY_TYPES_shape assms(1) by (auto simp: list_all_iff)
  have w: "bytes (wire key_type payload)"
    using t(2) assms(2) bytes_str_bytes by (auto simp: wire_def)
  have g: "\<not> is_ws c \<and> \<not> is_control c \<and> c \<noteq> CHR '' ''" if "c \<in> set ?b" for c
    using base64_graphic[OF w that] graphic_plain by blast
  have sp: "CHR '' '' \<notin> set key_type" "CHR '' '' \<notin> set ?b" using t(3) g by (auto simp: is_ws_def)
  have ne: "?b \<noteq> []" using decode_encode_bytes[OF w] by (auto simp: wire_def base64_decode_def)
  have p: "\<not> contains_str ''PRIVATE KEY'' ?e"
  proof
    assume "contains_str ''PRIVATE KEY'' ?e"
    then obtain x y where "key_type @ CHR '' '' # ?b = (x @ ''PRIVATE'') @ CHR '' '' # ''KEY'' @ y"
      by (auto simp: contains_str_iff with_comment_def)
    then have "key_type = x @ ''PRIVATE''" using append_Cons_eq_iff[OF sp] by blast
    then have "last key_type = CHR ''E''" by simp
    then show False using assms(1) by (auto simp: KEY_TYPES_def)
  qed
  have ws: "hd ?e = hd key_type" "last ?e = last ?b" using t(1) ne by (auto simp: with_comment_def)
  have tr: "trim ?e = ?e"
    using ws t(1,3) g[of "last ?b"] ne by (intro trim_id) auto
  have nl: "CHR 0x0A \<notin> set ?e" "CHR 0x0D \<notin> set ?e"
    using t(3) g[of "CHR 0x0A"] g[of "CHR 0x0D"] by (auto simp: with_comment_def is_ws_def)
  have "check_blob key_type ?b None = Inr ()"
    using decode_encode_bytes[OF w] embedded_type_wire[OF t(1,2)] by (simp add: check_blob_def wire_def)
  then have "check_authorized_key ?e = Inr ()"
    using p tr nl ne assms(1) splitn3_make[OF sp, of None]
    by (simp add: check_authorized_key_def) (simp add: with_comment_def)
  then show ?thesis by (simp add: with_comment_def)
qed

theorem authorized_key_complete_witness:
  "check_authorized_key (''ssh-ed25519'' @ '' '' @ base64_encode (wire ''ssh-ed25519'' [0, 0, 0, 1, 200])) = Inr ()
   \<and> check_authorized_key ''restrict ssh-ed25519 AAAA'' = Inl UnknownType"
proof
  show "check_authorized_key (''ssh-ed25519'' @ '' '' @ base64_encode (wire ''ssh-ed25519'' [0, 0, 0, 1, 200])) = Inr ()"
    by (rule authorized_key_complete) (simp_all add: KEY_TYPES_def)
  show "check_authorized_key ''restrict ssh-ed25519 AAAA'' = Inl UnknownType" by code_simp
qed

theorem authorized_key_sound_witness:
  "\<exists>key_type blob comment. ''ssh-rsa AAAAB3NzaC1yc2EA me@host'' = with_comment key_type blob comment \<and> key_type \<in> set KEY_TYPES"
proof -
  have "check_authorized_key ''ssh-rsa AAAAB3NzaC1yc2EA me@host'' = Inr ()" by code_simp
  from authorized_key_sound[OF this] show ?thesis by blast
qed

end
