(* ===== verification/Layers.thy ===== *)
theory Layers
  imports Model Authkeys
begin

text \<open>
  How \<open>crates/core/src/resolve.rs\<close> merges what the layers of a configuration say: package,
  deb, library, source, caveat, group and module lists unioned in layer order with the first
  mention winning, the localization and account axes with their overrides, the suite check and
  the overrides a u-boot build refuses. The data is that of \<open>Model\<close>; a
  feature list is the validated selection in recipe order.

  The unions all rest on one law, stated by the locale \<open>first_wins\<close> and interpreted on each
  of them: the result is the input with every later entry of an already seen key dropped.
\<close>

section \<open>Data\<close>

record PackageFilter =
  pf_distro :: string
  pf_suite :: string
  pf_known_distros :: "string list"

record Account =
  ac_sudo :: SudoPolicy
  ac_password_length :: nat
  ac_authorized_keys :: "string list"
  ac_groups :: "string list"

datatype package_why = BothLists | NeitherList | EmptyList

datatype layer_error =
    LField field_error
  | LDeb extra_deb_error
  | InvalidAuthorizedKey nat string key_why
  | InvalidPasswordLength nat
  | PackageCondition string string package_why
  | UnknownPackageDistro string string string
  | AptSourceBadField string string string string
  | ConflictingAptSource string string string
  | NoSupportedSuites string
  | SuiteWildcardMixed string "string list"
  | UnsupportedSuite string string "string list"
  | OverrideNotApplicable string string

definition field_ok :: "field_error + 'a \<Rightarrow> layer_error + 'a" where
  "field_ok r = (case r of Inl e \<Rightarrow> Inl (LField e) | Inr a \<Rightarrow> Inr a)"

lemma field_ok_Inr [simp]: "field_ok r = Inr a \<longleftrightarrow> r = Inr a"
  by (cases r) (auto simp: field_ok_def)

section \<open>Unions\<close>

text \<open>The code's loop body: a \<open>HashSet\<close> of the keys seen, and a push for a key that is new.\<close>

definition push_new :: "('a \<Rightarrow> 'k) \<Rightarrow> 'k set \<times> 'a list \<Rightarrow> 'a \<Rightarrow> 'k set \<times> 'a list" where
  "push_new key st x =
     (case st of (seen, acc) \<Rightarrow> if key x \<in> seen then (seen, acc) else (insert (key x) seen, acc @ [x]))"

text \<open>The same with a search of the result so far in place of the set.\<close>

definition push_absent :: "('a \<Rightarrow> 'k) \<Rightarrow> 'a list \<Rightarrow> 'a \<Rightarrow> 'a list" where
  "push_absent key out x = (if list_ex (\<lambda>y. key y = key x) out then out else out @ [x])"

definition extend_names :: "string list \<times> string set \<Rightarrow> string list \<Rightarrow> string list \<times> string set" where
  "extend_names st src = (case st of (acc, seen) \<Rightarrow>
     case foldl (push_new (\<lambda>n. n)) (seen, acc) src of (seen', acc') \<Rightarrow> (acc', seen'))"

definition merge_ffmpeg_libs :: "(string \<times> Feature) list \<Rightarrow> FfmpegLib list" where
  "merge_ffmpeg_libs features =
     snd (foldl (\<lambda>st (_, feat). foldl (push_new fl_flag) st (ft_ffmpeg_libs feat)) ({}, []) features)"

definition hardware_caveats :: "string list \<Rightarrow> string list \<Rightarrow> Caveat list" where
  "hardware_caveats soc device =
     foldl (push_absent cv_text) []
       (map (\<lambda>c. \<lparr>cv_text = c, cv_scope = ScopeSoc\<rparr>) soc @ map (\<lambda>c. \<lparr>cv_text = c, cv_scope = ScopeDevice\<rparr>) device)"

definition feature_caveats :: "Caveat list \<Rightarrow> (string \<times> Feature) list \<Rightarrow> Caveat list" where
  "feature_caveats hardware features =
     foldl (\<lambda>out (_, feat).
       foldl (push_absent cv_text) out (map (\<lambda>t. \<lparr>cv_text = t, cv_scope = ScopeFeature\<rparr>) (ft_caveats feat)))
       hardware features"

section \<open>Packages\<close>

definition entry_name :: "PackageEntry \<Rightarrow> string" where
  "entry_name e = (case e of Plain n \<Rightarrow> n | Conditional c \<Rightarrow> cp_name c)"

definition entry_distros :: "PackageEntry \<Rightarrow> string list option" where
  "entry_distros e = (case e of Plain _ \<Rightarrow> None | Conditional c \<Rightarrow> cp_distros c)"

definition entry_applies_to :: "PackageEntry \<Rightarrow> string \<Rightarrow> string \<Rightarrow> bool" where
  "entry_applies_to e distro suite =
     (case e of
        Plain _ \<Rightarrow> True
      | Conditional c \<Rightarrow>
          (case (cp_suites c, cp_distros c) of
             (Some suites, _) \<Rightarrow> suite \<in> set suites
           | (None, Some distros) \<Rightarrow> distro \<in> set distros
           | (None, None) \<Rightarrow> False))"

definition entry_validate :: "string \<Rightarrow> PackageEntry \<Rightarrow> layer_error + unit" where
  "entry_validate layer e =
     (case e of
        Plain _ \<Rightarrow> Inr ()
      | Conditional c \<Rightarrow>
          (case (cp_suites c, cp_distros c) of
             (Some _, Some _) \<Rightarrow> Inl (PackageCondition (cp_name c) layer BothLists)
           | (None, None) \<Rightarrow> Inl (PackageCondition (cp_name c) layer NeitherList)
           | (Some l, None) \<Rightarrow> if l = [] then Inl (PackageCondition (cp_name c) layer EmptyList) else Inr ()
           | (None, Some l) \<Rightarrow> if l = [] then Inl (PackageCondition (cp_name c) layer EmptyList) else Inr ()))"

definition entry_distro_list :: "PackageEntry \<Rightarrow> string list" where
  "entry_distro_list e = (case entry_distros e of Some ds \<Rightarrow> ds | None \<Rightarrow> [])"

definition unknown_distro :: "PackageFilter \<Rightarrow> PackageEntry \<Rightarrow> string option" where
  "unknown_distro flt e = find (\<lambda>d. d \<notin> set (pf_known_distros flt)) (entry_distro_list e)"

fun extend_unique ::
  "string list \<times> string set \<Rightarrow> PackageEntry list \<Rightarrow> PackageFilter \<Rightarrow> string \<Rightarrow> layer_error + string list \<times> string set" where
  "extend_unique st [] flt layer = Inr st"
| "extend_unique (acc, seen) (entry # src) flt layer =
     bind_r (entry_validate layer entry) (\<lambda>_.
     case unknown_distro flt entry of
       Some d \<Rightarrow> Inl (UnknownPackageDistro (entry_name entry) layer d)
     | None \<Rightarrow>
         if \<not> entry_applies_to entry (pf_distro flt) (pf_suite flt) then extend_unique (acc, seen) src flt layer
         else if entry_name entry \<in> seen then extend_unique (acc, seen) src flt layer
         else extend_unique (acc @ [entry_name entry], insert (entry_name entry) seen) src flt layer)"

section \<open>Pinned debs and apt sources\<close>

fun absorb_debs :: "string set \<times> ExtraDeb list \<Rightarrow> ExtraDeb list \<Rightarrow> layer_error + string set \<times> ExtraDeb list" where
  "absorb_debs st [] = Inr st"
| "absorb_debs st (d # ds) =
     (case extra_deb_validate d of
        Inl e \<Rightarrow> Inl (LDeb e)
      | Inr _ \<Rightarrow> absorb_debs (push_new ed_sha256 st d) ds)"

fun absorb_features :: "string set \<times> ExtraDeb list \<Rightarrow> (string \<times> Feature) list \<Rightarrow> layer_error + string set \<times> ExtraDeb list" where
  "absorb_features st [] = Inr st"
| "absorb_features st ((_, feat) # fs) = bind_r (absorb_debs st (ft_extra_debs feat)) (\<lambda>st. absorb_features st fs)"

definition merge_extra_debs ::
  "ExtraDeb list \<Rightarrow> ExtraDeb list \<Rightarrow> ExtraDeb list \<Rightarrow> ExtraDeb list \<Rightarrow> (string \<times> Feature) list \<Rightarrow> layer_error + ExtraDeb list" where
  "merge_extra_debs base soc bm device features =
     bind_r (absorb_debs ({}, []) base) (\<lambda>st.
     bind_r (absorb_debs st soc) (\<lambda>st.
     bind_r (absorb_debs st bm) (\<lambda>st.
     bind_r (absorb_debs st device) (\<lambda>st.
     bind_r (absorb_features st features) (\<lambda>(_, merged). Inr merged)))))"

definition validate_apt_source :: "string \<Rightarrow> AptSource \<Rightarrow> layer_error + unit" where
  "validate_apt_source feature src =
     (let bad = (\<lambda>field value. Inl (AptSourceBadField feature (as_name src) field value)) in
      if \<not> apt_file_stem (as_name src) then bad ''name'' (as_name src)
      else if \<not> apt_line_token (as_uri src)
           \<or> \<not> (starts_with ''https://'' (as_uri src) \<or> starts_with ''http://'' (as_uri src)) then bad ''uri'' (as_uri src)
      else if \<not> apt_line_token (as_suite src) then bad ''suite'' (as_suite src)
      else if as_components src = [] \<and> \<not> ends_with ''/'' (as_suite src) then bad ''components'' ''(empty)''
      else case find (\<lambda>c. \<not> apt_line_token c) (as_components src) of
             Some c \<Rightarrow> bad ''components'' c
           | None \<Rightarrow> if \<not> apt_file_stem (as_signed_by src) then bad ''signed_by'' (as_signed_by src) else Inr ())"

fun merge_sources ::
  "(string \<times> AptSource) list \<Rightarrow> (string \<times> AptSource) list \<Rightarrow> layer_error + (string \<times> AptSource) list" where
  "merge_sources merged [] = Inr merged"
| "merge_sources merged ((feat_name, src) # rest) =
     bind_r (validate_apt_source feat_name src) (\<lambda>_.
     case find (\<lambda>(_, s). as_name s = as_name src) merged of
       Some (owner, existing) \<Rightarrow>
         if existing \<noteq> src then Inl (ConflictingAptSource owner feat_name (as_name src))
         else merge_sources merged rest
     | None \<Rightarrow> merge_sources (merged @ [(feat_name, src)]) rest)"

definition merge_apt_sources :: "(string \<times> Feature) list \<Rightarrow> layer_error + AptSource list" where
  "merge_apt_sources features =
     bind_r (merge_sources [] (concat (map (\<lambda>(n, feat). map (Pair n) (ft_apt_sources feat)) features)))
       (\<lambda>merged. Inr (map snd merged))"

section \<open>Axes\<close>

definition check_suite_supported :: "string \<Rightarrow> string list \<Rightarrow> string \<Rightarrow> layer_error + unit" where
  "check_suite_supported device_name supported suite =
     (let wildcard = ANY_SUITE \<in> set supported in
      if supported = [] then Inl (NoSupportedSuites device_name)
      else if wildcard \<and> length supported > 1 then Inl (SuiteWildcardMixed device_name supported)
      else if wildcard \<or> suite \<in> set supported then Inr ()
      else Inl (UnsupportedSuite device_name suite supported))"

definition reject_rootfs_overrides :: "string \<Rightarrow> Overrides \<Rightarrow> layer_error + unit" where
  "reject_rootfs_overrides device_name ov =
     (let inapplicable =
        [(''--kernel'', ov_kernel ov \<noteq> None), (''--suite'', ov_suite ov \<noteq> None),
         (''initramfs_generator'', ov_initramfs_generator ov \<noteq> None), (''--feature'', ov_features ov \<noteq> None),
         (''--image-size'', ov_image_size ov \<noteq> None), (''--locale'', ov_locale ov \<noteq> None),
         (''--locale-gen'', ov_locales_generate ov \<noteq> None), (''--timezone'', ov_timezone ov \<noteq> None),
         (''--ntp-server'', ov_ntp_servers ov \<noteq> None), (''--keymap'', ov_keymap ov \<noteq> None),
         (''--sudo'', ov_sudo ov \<noteq> None), (''--password-length'', ov_first_boot_password_length ov \<noteq> None),
         (''ssh_authorized_keys'', ov_ssh_authorized_keys ov \<noteq> None), (''groups'', ov_groups ov \<noteq> None)]
      in case find snd inapplicable of
           Some (flag, _) \<Rightarrow> Inl (OverrideNotApplicable device_name flag)
         | None \<Rightarrow> Inr ())"

definition unwrap_or :: "'a option \<Rightarrow> 'a \<Rightarrow> 'a" where
  "unwrap_or v d = (case v of Some x \<Rightarrow> x | None \<Rightarrow> d)"

fun push_locales :: "string set \<times> string list \<Rightarrow> string list \<Rightarrow> layer_error + string set \<times> string list" where
  "push_locales st [] = Inr st"
| "push_locales st (extra # extras) =
     bind_r (field_ok (validate_locale extra)) (\<lambda>_. push_locales (push_new (\<lambda>l. l) st extra) extras)"

definition resolve_l10n ::
  "BaseLayer \<Rightarrow> Keymap option \<Rightarrow> Overrides \<Rightarrow> layer_error + string \<times> string list \<times> string \<times> Keymap option" where
  "resolve_l10n base device_keymap ov =
     (let loc = unwrap_or (ov_locale ov) (bl_locale base) in
      bind_r (field_ok (validate_locale loc)) (\<lambda>_.
      let extras = unwrap_or (ov_locales_generate ov) (bl_locales_generate base) in
      bind_r (push_locales ({loc}, [loc]) extras) (\<lambda>(_, locales_generate).
      let timezone = unwrap_or (ov_timezone ov) (bl_timezone base) in
      bind_r (field_ok (validate_timezone timezone)) (\<lambda>_.
      let keymap = or_else (ov_keymap ov) device_keymap in
      bind_r (case keymap of Some k \<Rightarrow> field_ok (validate_keymap k) | None \<Rightarrow> Inr ()) (\<lambda>_.
      Inr (loc, locales_generate, timezone, keymap))))))"

definition resolve_ntp_servers :: "BaseLayer \<Rightarrow> Overrides \<Rightarrow> layer_error + string list" where
  "resolve_ntp_servers base ov =
     (let servers = unwrap_or (ov_ntp_servers ov) (bl_ntp_servers base) in
      bind_r (each (\<lambda>s. field_ok (validate_ntp_server s)) servers) (\<lambda>_. Inr servers))"

fun check_keys :: "nat \<Rightarrow> string list \<Rightarrow> layer_error + unit" where
  "check_keys i [] = Inr ()"
| "check_keys i (key # keys) =
     (case check_authorized_key key of
        Inl w \<Rightarrow> Inl (InvalidAuthorizedKey (i + 1) key w)
      | Inr _ \<Rightarrow> check_keys (i + 1) keys)"

fun push_groups :: "string list \<Rightarrow> string list \<Rightarrow> layer_error + string list" where
  "push_groups out [] = Inr out"
| "push_groups out (g # gs) =
     bind_r (field_ok (check_group_name g)) (\<lambda>_. push_groups (push_absent (\<lambda>x. x) out g) gs)"

definition resolve_account ::
  "BaseLayer \<Rightarrow> string list \<Rightarrow> string list \<Rightarrow> string list \<Rightarrow> Overrides \<Rightarrow> layer_error + Account" where
  "resolve_account base soc_groups method_groups device_groups ov =
     (let sudo = unwrap_or (ov_sudo ov) (bl_sudo base);
          password_length = unwrap_or (ov_first_boot_password_length ov) (bl_first_boot_password_length base) in
      if \<not> (MIN_PASSWORD_LENGTH \<le> password_length \<and> password_length \<le> MAX_PASSWORD_LENGTH)
      then Inl (InvalidPasswordLength password_length)
      else
        let authorized_keys = unwrap_or (ov_ssh_authorized_keys ov) (bl_ssh_authorized_keys base) in
        bind_r (check_keys 0 authorized_keys) (\<lambda>_.
        let sources = (case ov_groups ov of
                         Some replacement \<Rightarrow> [replacement]
                       | None \<Rightarrow> [bl_groups base, soc_groups, method_groups, device_groups]) in
        bind_r (push_groups [] (concat sources)) (\<lambda>groups.
        Inr \<lparr>ac_sudo = sudo, ac_password_length = password_length,
             ac_authorized_keys = authorized_keys, ac_groups = groups\<rparr>)))"

section \<open>Initramfs modules\<close>

definition check_module_name :: "string \<Rightarrow> layer_error + unit" where
  "check_module_name name0 =
     (let bad = (\<lambda>w. Inl (LField (InvalidField ''initramfs module'' name0 w))) in
      if name0 = [] then bad Empty
      else if ends_with ''.ko'' name0 \<or> contains_str ''.ko.'' name0 then bad KoSuffix
      else if \<not> list_all (\<lambda>c. is_alnum c \<or> c = CHR ''-'' \<or> c = CHR ''_'') name0 then bad BadChar
      else Inr ())"

definition module_key :: "string \<Rightarrow> string" where
  "module_key name0 = map (\<lambda>c. if c = CHR ''-'' then CHR ''_'' else c) name0"

fun push_modules :: "string set \<times> string list \<Rightarrow> string list \<Rightarrow> layer_error + string set \<times> string list" where
  "push_modules st [] = Inr st"
| "push_modules st (m # ms) = bind_r (check_module_name m) (\<lambda>_. push_modules (push_new module_key st m) ms)"

definition resolve_initramfs_modules :: "string list \<Rightarrow> string list \<Rightarrow> layer_error + string list" where
  "resolve_initramfs_modules soc device =
     bind_r (push_modules ({}, []) (soc @ device)) (\<lambda>(_, modules). Inr modules)"

section \<open>First mention wins\<close>

fun dedup_on :: "('a \<Rightarrow> 'k) \<Rightarrow> 'a list \<Rightarrow> 'a list" where
  "dedup_on key [] = []"
| "dedup_on key (x # xs) = x # filter (\<lambda>y. key y \<noteq> key x) (dedup_on key xs)"

lemma set_dedup_on: "set (dedup_on key xs) \<subseteq> set xs"
  by (induction xs) auto

lemma keys_dedup_on: "key ` set (dedup_on key xs) = key ` set xs"
proof (induction xs)
  case (Cons x xs)
  have "insert (key x) (key ` {y \<in> set (dedup_on key xs). key y \<noteq> key x}) = insert (key x) (key ` set (dedup_on key xs))"
    by auto
  with Cons show ?case by simp
qed simp

lemma distinct_dedup_on: "distinct (map key (dedup_on key xs))"
proof (induction xs)
  case (Cons x xs)
  have "distinct (map key (filter P ys))" if "distinct (map key ys)" for P ys
    using that by (induction ys) auto
  with Cons show ?case by auto
qed simp

lemma dedup_on_distinct: "distinct (map key xs) \<Longrightarrow> dedup_on key xs = xs"
  by (induction xs) (auto simp: filter_id_conv image_iff)

lemma dedup_on_first:
  "x \<in> set (dedup_on key xs) \<longleftrightarrow> (\<exists>ys zs. xs = ys @ x # zs \<and> key x \<notin> key ` set ys)"
proof (induction xs)
  case (Cons a xs)
  have "(\<exists>ys zs. a # xs = ys @ x # zs \<and> key x \<notin> key ` set ys) \<longleftrightarrow>
      x = a \<or> (key x \<noteq> key a \<and> (\<exists>ys zs. xs = ys @ x # zs \<and> key x \<notin> key ` set ys))"
  proof
    assume "x = a \<or> (key x \<noteq> key a \<and> (\<exists>ys zs. xs = ys @ x # zs \<and> key x \<notin> key ` set ys))"
    then show "\<exists>ys zs. a # xs = ys @ x # zs \<and> key x \<notin> key ` set ys"
    proof
      assume "key x \<noteq> key a \<and> (\<exists>ys zs. xs = ys @ x # zs \<and> key x \<notin> key ` set ys)"
      then obtain ys zs where "key x \<noteq> key a" "xs = ys @ x # zs" "key x \<notin> key ` set ys" by blast
      then show ?thesis by (intro exI[of _ "a # ys"] exI[of _ zs]) auto
    qed (auto intro: exI[of _ "[]"])
  qed (auto simp: Cons_eq_append_conv)
  with Cons show ?case by auto
qed simp

lemma dedup_on_append:
  "dedup_on key (xs @ ys) = dedup_on key xs @ filter (\<lambda>y. key y \<notin> key ` set xs) (dedup_on key ys)"
  by (induction xs) (auto simp: filter_filter intro: filter_cong)

lemma foldl_push_new:
  "foldl (push_new key) (seen, acc) xs = (seen \<union> key ` set xs, acc @ filter (\<lambda>x. key x \<notin> seen) (dedup_on key xs))"
proof (induction xs arbitrary: seen acc)
  case (Cons x xs)
  show ?case
  proof (cases "key x \<in> seen")
    case True
    then have "filter (\<lambda>y. key y \<notin> seen) (filter (\<lambda>y. key y \<noteq> key x) (dedup_on key xs))
        = filter (\<lambda>y. key y \<notin> seen) (dedup_on key xs)"
      by (auto simp: filter_filter intro: filter_cong)
    moreover have "push_new key (seen, acc) x = (seen, acc)" using True by (simp add: push_new_def)
    ultimately show ?thesis using True by (auto simp: Cons.IH)
  next
    case False
    then have "push_new key (seen, acc) x = (insert (key x) seen, acc @ [x])" by (simp add: push_new_def)
    with False show ?thesis by (auto simp: Cons.IH filter_filter intro: filter_cong)
  qed
qed simp

lemma foldl_push_absent:
  "foldl (push_absent key) acc xs = acc @ filter (\<lambda>x. key x \<notin> key ` set acc) (dedup_on key xs)"
proof (induction xs arbitrary: acc)
  case (Cons x xs)
  show ?case
  proof (cases "key x \<in> key ` set acc")
    case True
    then have "filter (\<lambda>y. key y \<notin> key ` set acc) (filter (\<lambda>y. key y \<noteq> key x) (dedup_on key xs))
        = filter (\<lambda>y. key y \<notin> key ` set acc) (dedup_on key xs)"
      by (auto simp: filter_filter intro: filter_cong)
    moreover have "push_absent key acc x = acc" using True by (auto simp: push_absent_def list_ex_iff)
    ultimately show ?thesis using True by (simp add: Cons.IH)
  next
    case False
    then have "push_absent key acc x = acc @ [x]" by (auto simp: push_absent_def list_ex_iff image_iff)
    with False show ?thesis by (auto simp: Cons.IH filter_filter intro: filter_cong)
  qed
qed simp

locale first_wins =
  fixes key :: "'a \<Rightarrow> 'k" and merged :: "'a list \<Rightarrow> 'a list"
  assumes merged_eq: "merged xs = dedup_on key xs"
begin

lemma keys_distinct: "distinct (map key (merged xs))"
  by (simp add: merged_eq distinct_dedup_on)

lemma keys_kept: "key ` set (merged xs) = key ` set xs"
  by (simp add: merged_eq keys_dedup_on)

lemma first_kept: "x \<in> set (merged xs) \<longleftrightarrow> (\<exists>ys zs. xs = ys @ x # zs \<and> key x \<notin> key ` set ys)"
  by (simp add: merged_eq dedup_on_first)

lemma merged_idem: "merged (merged xs) = merged xs"
  by (simp add: merged_eq dedup_on_distinct distinct_dedup_on)

end

text \<open>Each of the unions, as a function of the entries in layer order.\<close>

interpretation name_union: first_wins "\<lambda>n. n" "\<lambda>xs. fst (extend_names ([], {}) xs)"
  by unfold_locales (simp add: extend_names_def foldl_push_new)

text \<open>A feature that declares nothing, as the manifest's defaults give it.\<close>

definition empty_feature :: Feature where
  "empty_feature = \<lparr>ft_description = [], ft_packages = [], ft_exclude = [], ft_requires_soc = [], ft_requires_arch = [],
     ft_apt_sources = [], ft_extra_debs = [], ft_ffmpeg_libs = [], ft_apps = [], ft_conflicts = [], ft_provides = [],
     ft_requires_capability = [], ft_requires_media_accel = False, ft_ffmpeg_nonfree = False,
     ft_config_fragments = [], ft_patch_series = [], ft_caveats = [], ft_expect = []\<rparr>"

definition feature_of :: "FfmpegLib list \<Rightarrow> string \<times> Feature" where
  "feature_of libs = ([], empty_feature\<lparr>ft_ffmpeg_libs := libs\<rparr>)"

lemma merge_ffmpeg_libs_eq:
  "merge_ffmpeg_libs features = dedup_on fl_flag (concat (map (ft_ffmpeg_libs \<circ> snd) features))"
proof -
  have "foldl (\<lambda>st (_, feat). foldl (push_new fl_flag) st (ft_ffmpeg_libs feat)) st fs
      = foldl (push_new fl_flag) st (concat (map (ft_ffmpeg_libs \<circ> snd) fs))" for st and fs :: "(string \<times> Feature) list"
    by (induction fs arbitrary: st) auto
  then show ?thesis by (simp add: merge_ffmpeg_libs_def foldl_push_new)
qed

interpretation lib_union: first_wins fl_flag "\<lambda>libs. merge_ffmpeg_libs [feature_of libs]"
  by unfold_locales (simp add: merge_ffmpeg_libs_eq feature_of_def)

definition all_caveats :: "string list \<Rightarrow> string list \<Rightarrow> (string \<times> Feature) list \<Rightarrow> Caveat list" where
  "all_caveats soc device features =
     map (\<lambda>c. \<lparr>cv_text = c, cv_scope = ScopeSoc\<rparr>) soc @ map (\<lambda>c. \<lparr>cv_text = c, cv_scope = ScopeDevice\<rparr>) device
     @ map (\<lambda>c. \<lparr>cv_text = c, cv_scope = ScopeFeature\<rparr>) (concat (map (ft_caveats \<circ> snd) features))"

lemma caveats_eq:
  "feature_caveats (hardware_caveats soc device) features = dedup_on cv_text (all_caveats soc device features)"
proof -
  have "foldl (\<lambda>out (_, feat). foldl (push_absent cv_text) out (map (\<lambda>t. \<lparr>cv_text = t, cv_scope = ScopeFeature\<rparr>) (ft_caveats feat))) out fs
      = foldl (push_absent cv_text) out (map (\<lambda>t. \<lparr>cv_text = t, cv_scope = ScopeFeature\<rparr>) (concat (map (ft_caveats \<circ> snd) fs)))"
    for out and fs :: "(string \<times> Feature) list"
    by (induction fs arbitrary: out) auto
  then have "feature_caveats (hardware_caveats soc device) features = foldl (push_absent cv_text) [] (all_caveats soc device features)"
    by (simp add: feature_caveats_def hardware_caveats_def all_caveats_def)
  then show ?thesis by (simp add: foldl_push_absent)
qed

lemma push_modules_Inr:
  "push_modules st ms = Inr st' \<longleftrightarrow> (\<forall>m \<in> set ms. check_module_name m = Inr ()) \<and> st' = foldl (push_new module_key) st ms"
  by (induction ms arbitrary: st) auto

lemma push_locales_Inr:
  "push_locales st ls = Inr st' \<longleftrightarrow> (\<forall>l \<in> set ls. validate_locale l = Inr ()) \<and> st' = foldl (push_new (\<lambda>l. l)) st ls"
  by (induction ls arbitrary: st) auto

lemma push_groups_Inr:
  "push_groups out gs = Inr out' \<longleftrightarrow> (\<forall>g \<in> set gs. check_group_name g = Inr ()) \<and> out' = foldl (push_absent (\<lambda>x. x)) out gs"
  by (induction gs arbitrary: out) auto

lemma absorb_debs_Inr:
  "absorb_debs st ds = Inr st' \<longleftrightarrow> (\<forall>d \<in> set ds. extra_deb_validate d = Inr ()) \<and> st' = foldl (push_new ed_sha256) st ds"
  by (induction ds arbitrary: st) (auto split: sum.splits)

lemma absorb_features_Inr:
  "absorb_features st fs = Inr st' \<longleftrightarrow>
     (\<forall>d \<in> set (concat (map (ft_extra_debs \<circ> snd) fs)). extra_deb_validate d = Inr ())
     \<and> st' = foldl (push_new ed_sha256) st (concat (map (ft_extra_debs \<circ> snd) fs))"
  by (induction st fs rule: absorb_features.induct) (auto simp: absorb_debs_Inr)

definition all_debs :: "ExtraDeb list \<Rightarrow> ExtraDeb list \<Rightarrow> ExtraDeb list \<Rightarrow> ExtraDeb list \<Rightarrow> (string \<times> Feature) list \<Rightarrow> ExtraDeb list" where
  "all_debs base soc bm device features = base @ soc @ bm @ device @ concat (map (ft_extra_debs \<circ> snd) features)"

lemma merge_extra_debs_Inr:
  "merge_extra_debs base soc bm device features = Inr merged \<longleftrightarrow>
     (\<forall>d \<in> set (all_debs base soc bm device features). extra_deb_validate d = Inr ())
     \<and> merged = dedup_on ed_sha256 (all_debs base soc bm device features)"
proof -
  have "merge_extra_debs base soc bm device features = Inr merged \<longleftrightarrow>
     (\<forall>d \<in> set (all_debs base soc bm device features). extra_deb_validate d = Inr ())
     \<and> merged = snd (foldl (push_new ed_sha256) ({}, []) (all_debs base soc bm device features))"
    unfolding merge_extra_debs_def bind_r_eq_Inr absorb_debs_Inr absorb_features_Inr all_debs_def foldl_append set_append
    by (auto simp del: set_concat split: prod.splits)
  then show ?thesis by (simp add: foldl_push_new)
qed

definition entry_ok :: "PackageFilter \<Rightarrow> string \<Rightarrow> PackageEntry \<Rightarrow> bool" where
  "entry_ok flt layer e \<longleftrightarrow> entry_validate layer e = Inr () \<and>
     set (entry_distro_list e) \<subseteq> set (pf_known_distros flt)"

definition applicable :: "PackageFilter \<Rightarrow> PackageEntry list \<Rightarrow> string list" where
  "applicable flt src = map entry_name (filter (\<lambda>e. entry_applies_to e (pf_distro flt) (pf_suite flt)) src)"

lemma extend_unique_Inr:
  "extend_unique (acc, seen) src flt layer = Inr (acc', seen') \<longleftrightarrow>
     list_all (entry_ok flt layer) src \<and> (seen', acc') = foldl (push_new (\<lambda>n. n)) (seen, acc) (applicable flt src)"
proof (induction src arbitrary: acc seen)
  case (Cons e src)
  have f: "unknown_distro flt e = None \<longleftrightarrow> set (entry_distro_list e) \<subseteq> set (pf_known_distros flt)"
    by (auto simp: unknown_distro_def find_None_iff)
  have ap: "applicable flt (e # src) =
      (if entry_applies_to e (pf_distro flt) (pf_suite flt) then [entry_name e] else []) @ applicable flt src"
    by (simp add: applicable_def)
  show ?case
  proof (cases "entry_ok flt layer e")
    case True
    then have "entry_validate layer e = Inr ()" "unknown_distro flt e = None" by (auto simp: entry_ok_def f)
    with True show ?thesis by (simp add: Cons.IH ap push_new_def)
  next
    case False
    then have "\<not> (entry_validate layer e = Inr () \<and> unknown_distro flt e = None)" by (auto simp: entry_ok_def f)
    with False show ?thesis by (auto split: option.splits)
  qed
qed (auto simp: applicable_def)

section \<open>Properties\<close>

text \<open>C21. The package set a layer extends keeps one entry per name in first-mention order: what
  was there before, then the layer's entries that apply to the build's distribution and
  suite and are not already named. An entry that does not apply never reserves its name. The
  extension succeeds exactly when every entry's condition is well formed and names known
  distributions.\<close>

theorem package_union:
  assumes "distinct acc"
  shows "((\<exists>st. extend_unique (acc, set acc) src flt layer = Inr st) \<longleftrightarrow> list_all (entry_ok flt layer) src) \<and>
    (\<forall>acc' seen'. extend_unique (acc, set acc) src flt layer = Inr (acc', seen') \<longrightarrow>
      acc' = acc @ filter (\<lambda>n. n \<notin> set acc) (dedup_on (\<lambda>n. n) (applicable flt src))
      \<and> distinct acc' \<and> seen' = set acc' \<and> set acc' = set acc \<union> set (applicable flt src))"
proof (intro conjI allI)
  show "(\<exists>st. extend_unique (acc, set acc) src flt layer = Inr st) \<longleftrightarrow> list_all (entry_ok flt layer) src"
    by (auto simp: extend_unique_Inr foldl_push_new)
  have "set (dedup_on (\<lambda>n. n) (applicable flt src)) = set (applicable flt src)"
    using keys_dedup_on[of "\<lambda>n. n" "applicable flt src"] by simp
  moreover have "distinct (dedup_on (\<lambda>n. n) (applicable flt src))"
    using distinct_dedup_on[of "\<lambda>n. n" "applicable flt src"] by simp
  ultimately show "extend_unique (acc, set acc) src flt layer = Inr (acc', seen') \<longrightarrow>
      acc' = acc @ filter (\<lambda>n. n \<notin> set acc) (dedup_on (\<lambda>n. n) (applicable flt src))
      \<and> distinct acc' \<and> seen' = set acc' \<and> set acc' = set acc \<union> set (applicable flt src)" for acc' seen'
    using assms by (auto simp: extend_unique_Inr foldl_push_new)
qed

definition forky :: PackageFilter where
  "forky = \<lparr>pf_distro = ''debian'', pf_suite = ''forky'', pf_known_distros = [''debian'', ''ubuntu'']\<rparr>"

definition renamed :: "PackageEntry list" where
  "renamed =
     [Plain ''curl'', Conditional \<lparr>cp_name = ''libfoo1'', cp_suites = Some [''trixie''], cp_distros = None\<rparr>,
      Conditional \<lparr>cp_name = ''libfoo2'', cp_suites = Some [''forky'', ''sid''], cp_distros = None\<rparr>, Plain ''vim'']"

theorem package_union_witness:
  "extend_unique ([''vim''], set [''vim'']) renamed forky ''soc'' = Inr ([''vim'', ''curl'', ''libfoo2''], {''vim'', ''curl'', ''libfoo2''})
   \<and> distinct [''vim'', ''curl'', ''libfoo2'']"
proof -
  have e: "extend_unique ([''vim''], set [''vim'']) renamed forky ''soc'' = Inr ([''vim'', ''curl'', ''libfoo2''], {''vim'', ''curl'', ''libfoo2''})"
    by (simp add: renamed_def forky_def entry_validate_def unknown_distro_def entry_distro_list_def
        entry_distros_def entry_applies_to_def entry_name_def insert_commute)
  have d: "distinct [''vim'']" by simp
  show ?thesis using package_union[OF d, of renamed forky "''soc''"] e by blast
qed

text \<open>The pinned packages of a build are those of the base, SoC, boot method, device and
  feature layers in that order, one per content hash with the first locator kept; each has a
  64-digit lower-case hash, a destination, and exactly one locator, whose path stays inside
  the config root. The merge succeeds exactly when every entry of every layer is valid.\<close>

theorem deb_union:
  "(merge_extra_debs base soc bm device features = Inr merged \<longleftrightarrow>
      (\<forall>d \<in> set (all_debs base soc bm device features). extra_deb_validate d = Inr ())
      \<and> merged = dedup_on ed_sha256 (all_debs base soc bm device features)) \<and>
   (merge_extra_debs base soc bm device features = Inr merged \<longrightarrow>
      distinct (map ed_sha256 merged) \<and>
      (\<forall>d \<in> set merged. length (ed_sha256 d) = 64 \<and> ed_targets d \<noteq> [] \<and> (ed_url d = None \<longleftrightarrow> ed_path d \<noteq> None)
         \<and> (\<forall>p \<in> set_option (ed_path d). inside root p)))"
proof -
  have v: "length (ed_sha256 d) = 64 \<and> ed_targets d \<noteq> [] \<and> (ed_url d = None \<longleftrightarrow> ed_path d \<noteq> None)
      \<and> (\<forall>p \<in> set_option (ed_path d). inside root p)" if "extra_deb_validate d = Inr ()" for d
    using that deb_path_guard.stays_inside
    by (auto simp: extra_deb_validate_def extra_deb_locator_def split: option.splits if_splits)
  show ?thesis
    unfolding merge_extra_debs_Inr using v set_dedup_on[of ed_sha256] distinct_dedup_on[of ed_sha256] by blast
qed

definition vendor_deb :: "string \<Rightarrow> ExtraDeb" where
  "vendor_deb p = \<lparr>ed_url = None, ed_path = Some p, ed_sha256 = replicate 64 (CHR ''a''), ed_targets = [TargetImage]\<rparr>"

theorem deb_union_witness:
  "merge_extra_debs [] [vendor_deb ''debs/a.deb''] [] [vendor_deb ''debs/b.deb''] [] = Inr [vendor_deb ''debs/a.deb'']
   \<and> inside [''config''] ''debs/a.deb''"
proof -
  have m: "merge_extra_debs [] [vendor_deb ''debs/a.deb''] [] [vendor_deb ''debs/b.deb''] [] = Inr [vendor_deb ''debs/a.deb'']"
    by code_simp
  moreover have "inside [''config''] p" if "p \<in> set_option (ed_path (vendor_deb ''debs/a.deb''))" for p
    using deb_union[of "[]" "[vendor_deb ''debs/a.deb'']" "[]" "[vendor_deb ''debs/b.deb'']" "[]"
        "[vendor_deb ''debs/a.deb'']" "[''config'']"] m that by simp
  ultimately show ?thesis by (simp add: vendor_deb_def)
qed

lemma validate_apt_source_Inr:
  "validate_apt_source feature src = Inr () \<longleftrightarrow>
     apt_file_stem (as_name src) \<and> apt_line_token (as_uri src) \<and> apt_line_token (as_suite src)
     \<and> (starts_with ''https://'' (as_uri src) \<or> starts_with ''http://'' (as_uri src))
     \<and> (as_components src = [] \<longrightarrow> ends_with ''/'' (as_suite src))
     \<and> list_all apt_line_token (as_components src) \<and> apt_file_stem (as_signed_by src)"
  by (auto simp: validate_apt_source_def Let_def find_None_iff find_Some_iff list_all_iff split: option.splits if_splits)

definition agree :: "AptSource list \<Rightarrow> bool" where
  "agree xs \<longleftrightarrow> (\<forall>s \<in> set xs. \<forall>s' \<in> set xs. as_name s = as_name s' \<longrightarrow> s = s')"

lemma merge_sources_Inr:
  assumes "agree (map snd merged)"
  shows "merge_sources merged rest = Inr res \<longleftrightarrow>
    list_all (\<lambda>(f, s). validate_apt_source f s = Inr ()) rest \<and> agree (map snd merged @ map snd rest)
    \<and> res = foldl (push_absent (\<lambda>m. as_name (snd m))) merged rest"
  using assms
proof (induction merged rest rule: merge_sources.induct)
  case (2 merged feat_name src rest)
  show ?case
  proof (cases "validate_apt_source feat_name src = Inr ()")
    case v: True
    show ?thesis
    proof (cases "find (\<lambda>(_, s). as_name s = as_name src) merged")
      case None
      then have n: "\<forall>m \<in> set merged. as_name (snd m) \<noteq> as_name src"
        by (auto simp: find_None_iff split_beta)
      then have "push_absent (\<lambda>m. as_name (snd m)) merged (feat_name, src) = merged @ [(feat_name, src)]"
        by (auto simp: push_absent_def list_ex_iff)
      moreover have "agree (map snd (merged @ [(feat_name, src)]))"
        using "2.prems" n unfolding agree_def by simp metis
      ultimately show ?thesis using "2.IH"(1)[OF None] v None by simp
    next
      case (Some m)
      then have m: "m \<in> set merged" "as_name (snd m) = as_name src"
        by (auto simp: find_Some_iff split_beta)
      obtain owner existing where me: "m = (owner, existing)" by (cases m) auto
      have p: "push_absent (\<lambda>m. as_name (snd m)) merged (feat_name, src) = merged"
        using m by (auto simp: push_absent_def list_ex_iff)
      show ?thesis
      proof (cases "existing = src")
        case True
        have "src = snd m" using True me by simp
        then have "set (map snd merged @ src # map snd rest) = set (map snd merged @ map snd rest)"
          using m(1) by auto
        then have "agree (map snd merged @ src # map snd rest) \<longleftrightarrow> agree (map snd merged @ map snd rest)"
          unfolding agree_def by simp
        with True show ?thesis using "2.IH"(2)[OF Some me[symmetric]] "2.prems" v Some me p by simp
      next
        case False
        then have "snd m \<noteq> src" using me by simp
        then have "\<not> agree (map snd merged @ src # map snd rest)"
          using m unfolding agree_def by auto
        with False show ?thesis using v Some me by simp
      qed
    qed
  next
    case False
    then obtain e where "validate_apt_source feat_name src = Inl e"
      by (cases "validate_apt_source feat_name src") auto
    then show ?thesis by simp
  qed
next
  case (1 merged)
  then show ?case by auto
qed

definition all_sources :: "(string \<times> Feature) list \<Rightarrow> (string \<times> AptSource) list" where
  "all_sources features = concat (map (\<lambda>(n, feat). map (Pair n) (ft_apt_sources feat)) features)"

lemma map_snd_dedup: "map snd (dedup_on (\<lambda>m. f (snd m)) xs) = dedup_on f (map snd xs)"
proof (induction xs)
  case (Cons x xs)
  then show ?case by (simp add: filter_map o_def flip: Cons)
qed simp

lemma merge_apt_sources_Inr:
  "merge_apt_sources features = Inr res \<longleftrightarrow>
     list_all (\<lambda>(f, s). validate_apt_source f s = Inr ()) (all_sources features)
     \<and> agree (map snd (all_sources features)) \<and> res = dedup_on as_name (map snd (all_sources features))"
  by (auto simp: merge_apt_sources_def all_sources_def[symmetric] merge_sources_Inr agree_def
      foldl_push_absent map_snd_dedup)

definition source_line :: "AptSource \<Rightarrow> string" where
  "source_line s = join '' '' (as_uri s # as_suite s # as_components s)"

lemma apt_line_token_token: "apt_line_token v \<Longrightarrow> token v"
  using graphic_plain by (auto simp: apt_line_token_def token_def list_all_iff)

text \<open>C20. The merged apt sources are the features' sources, each valid, one per name, and no two
  features disagreed: a second declaration of a name is dropped only when it is the same
  source, so every declared source is in the result. Each name and keyring is a bare file
  name, and each rendered line splits back into its fields.\<close>


theorem apt_union:
  "(merge_apt_sources features = Inr res \<longleftrightarrow>
      list_all (\<lambda>(f, s). validate_apt_source f s = Inr ()) (all_sources features)
      \<and> agree (map snd (all_sources features)) \<and> res = dedup_on as_name (map snd (all_sources features))) \<and>
   (merge_apt_sources features = Inr res \<longrightarrow>
      distinct (map as_name res) \<and> set res = set (map snd (all_sources features)) \<and>
      (\<forall>s \<in> set res. join_path root (as_name s) = root @ [as_name s]
         \<and> join_path root (as_signed_by s) = root @ [as_signed_by s]
         \<and> split_whitespace (source_line s) = as_uri s # as_suite s # as_components s))"
proof (intro conjI impI)
  show "merge_apt_sources features = Inr res \<longleftrightarrow>
      list_all (\<lambda>(f, s). validate_apt_source f s = Inr ()) (all_sources features)
      \<and> agree (map snd (all_sources features)) \<and> res = dedup_on as_name (map snd (all_sources features))"
    by (rule merge_apt_sources_Inr)
  assume "merge_apt_sources features = Inr res"
  then have v: "\<forall>(f, s) \<in> set (all_sources features). validate_apt_source f s = Inr ()"
    and a: "agree (map snd (all_sources features))" and r: "res = dedup_on as_name (map snd (all_sources features))"
    unfolding merge_apt_sources_Inr list_all_iff by auto
  show "distinct (map as_name res)" unfolding r by (rule distinct_dedup_on)
  have "s \<in> set res" if "s \<in> set (map snd (all_sources features))" for s
  proof -
    have "as_name s \<in> as_name ` set res" using that keys_dedup_on[of as_name] unfolding r by blast
    then obtain s' where "s' \<in> set res" "as_name s' = as_name s" by (metis imageE)
    then show ?thesis using a that set_dedup_on[of as_name] unfolding agree_def r by blast
  qed
  then show s: "set res = set (map snd (all_sources features))"
    using set_dedup_on[of as_name] unfolding r by blast
  show "\<forall>s \<in> set res. join_path root (as_name s) = root @ [as_name s]
         \<and> join_path root (as_signed_by s) = root @ [as_signed_by s]
         \<and> split_whitespace (source_line s) = as_uri s # as_suite s # as_components s"
  proof
    fix x
    assume "x \<in> set res"
    then obtain f where "validate_apt_source f x = Inr ()" using v s by auto
    then have x: "apt_file_stem (as_name x)" "apt_file_stem (as_signed_by x)"
      "\<forall>t \<in> set (as_uri x # as_suite x # as_components x). apt_line_token t"
      by (auto simp: validate_apt_source_Inr list_all_iff)
    have "split_whitespace (source_line x) = as_uri x # as_suite x # as_components x"
      unfolding source_line_def using x(3) apt_line_token_token by (intro split_whitespace_join) blast
    with x(1,2) show "join_path root (as_name x) = root @ [as_name x]
         \<and> join_path root (as_signed_by x) = root @ [as_signed_by x]
         \<and> split_whitespace (source_line x) = as_uri x # as_suite x # as_components x"
      using stem_guard.lands_directly by blast
  qed
qed

definition jellyfin :: AptSource where
  "jellyfin = \<lparr>as_name = ''jellyfin'', as_uri = ''https://repo.jellyfin.org/debian'', as_suite = ''trixie'',
     as_components = [''main''], as_signed_by = ''jellyfin.gpg''\<rparr>"

definition with_source :: "AptSource \<Rightarrow> Feature" where
  "with_source s = empty_feature\<lparr>ft_apt_sources := [s]\<rparr>"

theorem apt_union_witness:
  "merge_apt_sources [(''a'', with_source jellyfin), (''b'', with_source jellyfin)] = Inr [jellyfin]
   \<and> merge_apt_sources [(''a'', with_source jellyfin), (''b'', with_source (jellyfin\<lparr>as_suite := ''forky''\<rparr>))]
       = Inl (ConflictingAptSource ''a'' ''b'' ''jellyfin'')
   \<and> split_whitespace (source_line jellyfin) = [''https://repo.jellyfin.org/debian'', ''trixie'', ''main'']"
proof -
  have m: "merge_apt_sources [(''a'', with_source jellyfin), (''b'', with_source jellyfin)] = Inr [jellyfin]"
    by code_simp
  have "merge_apt_sources [(''a'', with_source jellyfin), (''b'', with_source (jellyfin\<lparr>as_suite := ''forky''\<rparr>))]
       = Inl (ConflictingAptSource ''a'' ''b'' ''jellyfin'')" by code_simp
  moreover have "split_whitespace (source_line jellyfin) = as_uri jellyfin # as_suite jellyfin # as_components jellyfin"
    using apt_union[of "[(''a'', with_source jellyfin), (''b'', with_source jellyfin)]" "[jellyfin]"] m by simp
  ultimately show ?thesis using m by (simp add: jellyfin_def)
qed

text \<open>A resolved localization always generates its own locale, first in the list, and lists
  each locale once: the override's or the base layer's locale, then the extras in order. Each
  has the codeset \<open>locale-gen\<close> needs, the time zone stays under the zone database, and the
  keymap is the override's, otherwise the device's.\<close>

theorem l10n_resolution:
  assumes "resolve_l10n base device_keymap ov = Inr (loc, gen, tz, km)"
  shows "loc = unwrap_or (ov_locale ov) (bl_locale base) \<and>
    gen = dedup_on (\<lambda>l. l) (loc # unwrap_or (ov_locales_generate ov) (bl_locales_generate base)) \<and>
    distinct gen \<and> hd gen = loc \<and>
    (\<forall>l \<in> set gen. validate_locale l = Inr () \<and> locale_codeset l \<noteq> None) \<and>
    tz = unwrap_or (ov_timezone ov) (bl_timezone base) \<and> inside root tz \<and>
    km = or_else (ov_keymap ov) device_keymap \<and> (\<forall>k \<in> set_option km. validate_keymap k = Inr ())"
proof -
  let ?x = "unwrap_or (ov_locales_generate ov) (bl_locales_generate base)"
  have r: "loc = unwrap_or (ov_locale ov) (bl_locale base)" "validate_locale loc = Inr ()"
    "\<forall>l \<in> set ?x. validate_locale l = Inr ()" "gen = snd (foldl (push_new (\<lambda>l. l)) ({loc}, [loc]) ?x)"
    "tz = unwrap_or (ov_timezone ov) (bl_timezone base)" "validate_timezone tz = Inr ()"
    "km = or_else (ov_keymap ov) device_keymap" "\<forall>k \<in> set_option km. validate_keymap k = Inr ()"
    using assms by (auto simp: resolve_l10n_def Let_def push_locales_Inr foldl_push_new split: option.splits)
  have g: "gen = dedup_on (\<lambda>l. l) (loc # ?x)" by (simp add: r(4) foldl_push_new)
  have v: "\<forall>l \<in> set gen. validate_locale l = Inr ()"
    using set_dedup_on[of "\<lambda>l. l" "loc # ?x"] r(2,3) unfolding g by auto
  have "\<forall>l \<in> set gen. locale_codeset l \<noteq> None"
    using v by (auto simp: validate_locale_def Let_def split: if_splits)
  moreover have "distinct gen"
    using distinct_dedup_on[of "\<lambda>l. l" "loc # ?x"] unfolding g list.map_ident .
  moreover have "hd gen = loc" by (simp add: g)
  ultimately show ?thesis
    using r(1,5,7,8) g v zone_guard.stays_inside[OF r(6)] by blast
qed

definition shipped_base :: BaseLayer where
  "shipped_base = \<lparr>bl_locale = ''C.UTF-8'', bl_locales_generate = [''en_US.UTF-8''], bl_timezone = ''UTC'',
     bl_ntp_servers = [''10.0.0.1'', ''ntp.example.org''],
     bl_packages = [Plain ''curl''], bl_exclude = [], bl_extra_debs = [], bl_sudo = Password, bl_first_boot_password_length = 12,
     bl_ssh_authorized_keys = [''ssh-rsa AAAAB3NzaC1yc2EA me@host''], bl_groups = [''sudo'']\<rparr>"

definition no_overrides :: Overrides where
  "no_overrides = \<lparr>ov_deliverable = Image, ov_kernel = None, ov_uboot_series = None, ov_suite = None,
     ov_initramfs_generator = None, ov_layout = None, ov_boot_method = None, ov_board = None, ov_features = None,
     ov_image_size = None, ov_locale = None, ov_locales_generate = None, ov_timezone = None,
     ov_ntp_servers = None, ov_keymap = None, ov_sudo = None, ov_first_boot_password_length = None,
     ov_ssh_authorized_keys = None, ov_groups = None\<rparr>"

theorem l10n_resolution_witness:
  "resolve_l10n shipped_base None (no_overrides\<lparr>ov_locale := Some ''en_US.UTF-8''\<rparr>)
      = Inr (''en_US.UTF-8'', [''en_US.UTF-8''], ''UTC'', None) \<and> inside [''zoneinfo''] ''UTC''"
proof -
  have r: "resolve_l10n shipped_base None (no_overrides\<lparr>ov_locale := Some ''en_US.UTF-8''\<rparr>)
      = Inr (''en_US.UTF-8'', [''en_US.UTF-8''], ''UTC'', None)" by code_simp
  with l10n_resolution[OF r] show ?thesis by blast
qed

text \<open>A resolved account has a password length of 8 to 64, only authorized keys that pass
  the key check, in the authored order, and the groups of the override, otherwise of the base,
  SoC, boot method and device in that order, each once; the comma-separated argument built
  from them is read back as the same groups, and the time servers written to one \<open>NTP=\<close> line
  are read back as the same servers.\<close>

theorem account_resolution:
  assumes "resolve_account base soc bm device ov = Inr a" "resolve_ntp_servers base ov = Inr servers"
  shows "8 \<le> ac_password_length a \<and> ac_password_length a \<le> 64 \<and>
    (\<forall>k \<in> set (ac_authorized_keys a). check_authorized_key k = Inr ()) \<and>
    ac_groups a = dedup_on (\<lambda>g. g) (case ov_groups ov of Some r \<Rightarrow> r | None \<Rightarrow> bl_groups base @ soc @ bm @ device) \<and>
    distinct (ac_groups a) \<and>
    (ac_groups a \<noteq> [] \<longrightarrow> split (CHR '','') (join '','' (ac_groups a)) = ac_groups a) \<and>
    split_whitespace (join '' '' servers) = servers"
proof -
  have k: "check_keys i ks = Inr () \<longleftrightarrow> (\<forall>k \<in> set ks. check_authorized_key k = Inr ())" for i ks
    by (induction i ks rule: check_keys.induct) (auto split: sum.splits)
  let ?g = "case ov_groups ov of Some r \<Rightarrow> r | None \<Rightarrow> bl_groups base @ soc @ bm @ device"
  have c: "concat (case ov_groups ov of Some r \<Rightarrow> [r] | None \<Rightarrow> [bl_groups base, soc, bm, device]) = ?g"
    by (cases "ov_groups ov") auto
  have r: "8 \<le> ac_password_length a" "ac_password_length a \<le> 64"
    "\<forall>k \<in> set (ac_authorized_keys a). check_authorized_key k = Inr ()"
    "\<forall>g \<in> set ?g. check_group_name g = Inr ()" "ac_groups a = foldl (push_absent (\<lambda>x. x)) [] ?g"
    using assms(1)
    by (auto simp: resolve_account_def Let_def c push_groups_Inr k MIN_PASSWORD_LENGTH_def MAX_PASSWORD_LENGTH_def
        split: if_splits)
  have g: "ac_groups a = dedup_on (\<lambda>g. g) ?g" by (simp add: r(5) foldl_push_absent)
  have "CHR '','' \<notin> set x" if "check_group_name x = Inr ()" for x
    using that
    by (auto simp: check_group_name_def Let_def find_None_iff char_class_defs split: if_splits option.splits)
  then have "\<forall>x \<in> set (ac_groups a). CHR '','' \<notin> set x"
    using r(4) set_dedup_on[of "\<lambda>g. g" ?g] unfolding g by blast
  then have "ac_groups a \<noteq> [] \<longrightarrow> split (CHR '','') (join '','' (ac_groups a)) = ac_groups a"
    using split_join by blast
  moreover have "distinct (ac_groups a)" using distinct_dedup_on[of "\<lambda>g. g" ?g] unfolding g by simp
  moreover have "\<forall>s \<in> set servers. token s"
    using assms(2)
    by (auto simp: resolve_ntp_servers_def Let_def each_Inr validate_ntp_server_def token_def list_ex_iff list_all_iff
        split: if_splits)
  then have "split_whitespace (join '' '' servers) = servers" by (rule split_whitespace_join)
  ultimately show ?thesis using r(1-3) g by blast
qed

theorem account_resolution_witness:
  "\<exists>a. resolve_account shipped_base [''audio''] [] [''sudo'', ''video''] no_overrides = Inr a
     \<and> ac_groups a = [''sudo'', ''audio'', ''video'']
     \<and> split (CHR '','') (join '','' (ac_groups a)) = ac_groups a"
proof -
  let ?a = "\<lparr>ac_sudo = Password, ac_password_length = 12, ac_authorized_keys = [''ssh-rsa AAAAB3NzaC1yc2EA me@host''],
      ac_groups = [''sudo'', ''audio'', ''video'']\<rparr>"
  have a: "resolve_account shipped_base [''audio''] [] [''sudo'', ''video''] no_overrides = Inr ?a" by code_simp
  have n: "resolve_ntp_servers shipped_base no_overrides = Inr [''10.0.0.1'', ''ntp.example.org'']" by code_simp
  show ?thesis
  proof (intro exI[of _ ?a] conjI a)
    show "split (CHR '','') (join '','' (ac_groups ?a)) = ac_groups ?a"
    proof -
      have "ac_groups ?a \<noteq> []" by simp
      then show ?thesis using account_resolution[OF a n] by blast
    qed
  qed simp
qed

text \<open>Each limitation is reported once, under the widest layer that states it: as the SoC's
  when the SoC states it, as the board's when only the board or a feature does, and as a
  feature's when neither hardware layer does.\<close>

theorem caveat_scopes:
  "distinct (map cv_text (feature_caveats (hardware_caveats soc device) features)) \<and>
   (\<forall>t s. \<lparr>cv_text = t, cv_scope = s\<rparr> \<in> set (feature_caveats (hardware_caveats soc device) features) \<longleftrightarrow>
      s = ScopeSoc \<and> t \<in> set soc \<or>
      s = ScopeDevice \<and> t \<in> set device - set soc \<or>
      s = ScopeFeature \<and> t \<in> (\<Union>(_, f) \<in> set features. set (ft_caveats f)) - set device - set soc)"
proof (intro conjI allI)
  show "distinct (map cv_text (feature_caveats (hardware_caveats soc device) features))"
    by (simp add: caveats_eq distinct_dedup_on)
  fix t s
  define A B C where
    "A = map (\<lambda>c. \<lparr>cv_text = c, cv_scope = ScopeSoc\<rparr>) soc" and
    "B = map (\<lambda>c. \<lparr>cv_text = c, cv_scope = ScopeDevice\<rparr>) device" and
    "C = map (\<lambda>c. \<lparr>cv_text = c, cv_scope = ScopeFeature\<rparr>) (concat (map (ft_caveats \<circ> snd) features))"
  let ?c = "\<lparr>cv_text = t, cv_scope = s\<rparr>"
  have m: "?c \<in> set (dedup_on cv_text (map (\<lambda>c. \<lparr>cv_text = c, cv_scope = sc\<rparr>) ts)) \<longleftrightarrow> s = sc \<and> t \<in> set ts" for sc ts
  proof -
    have "t \<in> cv_text ` set (dedup_on cv_text (map (\<lambda>c. \<lparr>cv_text = c, cv_scope = sc\<rparr>) ts)) \<longleftrightarrow> t \<in> set ts"
      by (auto simp: keys_dedup_on image_image)
    then show ?thesis using set_dedup_on[of cv_text "map (\<lambda>c. \<lparr>cv_text = c, cv_scope = sc\<rparr>) ts"] by force
  qed
  have k: "cv_text ` set A = set soc" "cv_text ` set B = set device"
    by (auto simp: A_def B_def image_image)
  show "?c \<in> set (feature_caveats (hardware_caveats soc device) features) \<longleftrightarrow>
      s = ScopeSoc \<and> t \<in> set soc \<or> s = ScopeDevice \<and> t \<in> set device - set soc \<or>
      s = ScopeFeature \<and> t \<in> (\<Union>(_, f) \<in> set features. set (ft_caveats f)) - set device - set soc"
    unfolding caveats_eq all_caveats_def A_def[symmetric] B_def[symmetric] C_def[symmetric] dedup_on_append
      set_append set_filter k image_Un
    using m unfolding A_def B_def C_def by (auto simp: split_beta)
qed

text \<open>The initramfs module list holds the SoC's modules then the device's, each accepted name
  once under either spelling of hyphen and underscore with the first spelling kept, and it
  holds every module either layer lists; it is refused exactly when some listed name is.\<close>

theorem initramfs_union:
  "(resolve_initramfs_modules soc device = Inr ms \<longleftrightarrow>
      (\<forall>m \<in> set (soc @ device). check_module_name m = Inr ()) \<and> ms = dedup_on module_key (soc @ device)) \<and>
   (resolve_initramfs_modules soc device = Inr ms \<longrightarrow>
      distinct (map module_key ms) \<and> module_key ` set ms = module_key ` set (soc @ device) \<and>
      (\<forall>m \<in> set ms. \<exists>ys zs. soc @ device = ys @ m # zs \<and> module_key m \<notin> module_key ` set ys) \<and>
      split_whitespace (join '' '' ms) = ms)"
proof -
  have e: "resolve_initramfs_modules soc device = Inr ms \<longleftrightarrow>
      (\<forall>m \<in> set (soc @ device). check_module_name m = Inr ()) \<and> ms = dedup_on module_key (soc @ device)"
    by (auto simp: resolve_initramfs_modules_def push_modules_Inr foldl_push_new simp del: foldl_append)
  have c: "\<not> is_ws x" if "is_alnum x \<or> x = CHR ''-'' \<or> x = CHR ''_''" for x
    using that alnum_plain(8) by (elim disjE) (simp_all add: is_ws_def)
  have "token m" if "check_module_name m = Inr ()" for m
    using that c by (simp add: check_module_name_def Let_def token_def list_all_iff split: if_splits)
  then show ?thesis
    unfolding e using set_dedup_on[of module_key "soc @ device"] distinct_dedup_on[of module_key "soc @ device"]
      keys_dedup_on[of module_key "soc @ device"] dedup_on_first[of _ module_key "soc @ device"]
      split_whitespace_join[of "dedup_on module_key (soc @ device)"] by blast
qed

theorem initramfs_union_witness:
  "resolve_initramfs_modules [''dwmac-rk'', ''nvme''] [''dwmac_rk'', ''sdhci''] = Inr [''dwmac-rk'', ''nvme'', ''sdhci'']
   \<and> distinct (map module_key [''dwmac-rk'', ''nvme'', ''sdhci''])"
proof -
  have r: "resolve_initramfs_modules [''dwmac-rk'', ''nvme''] [''dwmac_rk'', ''sdhci''] = Inr [''dwmac-rk'', ''nvme'', ''sdhci'']"
    by code_simp
  with initramfs_union[of "[''dwmac-rk'', ''nvme'']" "[''dwmac_rk'', ''sdhci'']"] show ?thesis by blast
qed

end
