(* ===== verification/Loader.thy ===== *)
theory Loader
  imports Layers "HOL-Library.AList"
begin

text \<open>
  \<open>crates/core/src/loader.rs\<close>: the name checks that keep a configuration reference inside its
  directory, the search path with the lookups on it, the deep merge of the copies of one layer
  file, and the walk up a device's \<open>extends\<close> chain with the keys that accumulate along it.

  A root of the search path is a function from the path relative to it to what a read finds
  there; the TOML parser is on the other side of that function. A TOML table is an association
  list with its keys in the order of insertion, and floats and datetimes are kept as their
  text. The walk is a \<open>partial_function\<close>, so that not returning would be the value \<open>None\<close>.
\<close>

section \<open>Names\<close>

datatype loader_error =
    InvalidName string string
  | InvalidDeviceName string why
  | InvalidRecipeRef string
  | ReadFailed nat string
  | ParseFailed nat string
  | NotFound string string nat string
  | DeviceExtendsCycle string "string list"
  | InvalidDeviceExtends string string
  | InvalidDeviceField "nat \<times> string" string string
  | OverlayTrustAnchor string

definition is_bare_name :: "string \<Rightarrow> bool" where
  "is_bare_name s \<longleftrightarrow> s \<noteq> [] \<and> \<not> starts_with ''.'' s \<and>
     list_all (\<lambda>c. is_alnum c \<or> c = CHR ''.'' \<or> c = CHR ''_'' \<or> c = CHR ''-'') s"

definition validate_name :: "string \<Rightarrow> string \<Rightarrow> loader_error + unit" where
  "validate_name k s = (if is_bare_name s then Inr () else Inl (InvalidName k s))"

definition validate_device_name :: "string \<Rightarrow> loader_error + unit" where
  "validate_device_name s = (case hostname_check s of Inl w \<Rightarrow> Inl (InvalidDeviceName s w) | Inr u \<Rightarrow> Inr u)"

definition validate_recipe_ref :: "string \<Rightarrow> loader_error + unit" where
  "validate_recipe_ref s =
     (if (case split (CHR ''/'') s of
            [leaf] \<Rightarrow> is_bare_name leaf
          | [device, leaf] \<Rightarrow> is_bare_name device \<and> is_bare_name leaf
          | _ \<Rightarrow> False)
      then Inr () else Inl (InvalidRecipeRef s))"

definition FEATURE_SEP :: char where "FEATURE_SEP = CHR ''+''"

fun validate_names :: "string \<Rightarrow> string list \<Rightarrow> loader_error + unit" where
  "validate_names k [] = Inr ()"
| "validate_names k (s # ss) = bind_r (validate_name k s) (\<lambda>_. validate_names k ss)"

definition validate_build_ref :: "string \<Rightarrow> loader_error + unit" where
  "validate_build_ref s =
     bind_r (validate_recipe_ref (hd (split FEATURE_SEP s))) (\<lambda>_.
     validate_names ''feature'' (tl (split FEATURE_SEP s)))"

definition recipe_half :: "string \<Rightarrow> string" where
  "recipe_half s = hd (split FEATURE_SEP s)"

section \<open>TOML values\<close>

datatype toml =
    Str string
  | Integer int
  | Float string
  | Boolean bool
  | Datetime string
  | Array "toml list"
  | Table "(string \<times> toml) list"

fun type_str :: "toml \<Rightarrow> string" where
  "type_str (Str _) = ''string''"
| "type_str (Integer _) = ''integer''"
| "type_str (Float _) = ''float''"
| "type_str (Boolean _) = ''boolean''"
| "type_str (Datetime _) = ''datetime''"
| "type_str (Array _) = ''array''"
| "type_str (Table _) = ''table''"

text \<open>A table is a map sorted by key (\<open>toml::Table\<close>): two tables are equal whatever order their keys
  were written in. A float is taken by its spelling.\<close>

fun canon :: "toml \<Rightarrow> toml" where
  "canon (Table t) = Table (sort_key fst (map (\<lambda>(k, v). (k, canon v)) t))"
| "canon (Array vs) = Array (map canon vs)"
| "canon v = v"

fun toml_get :: "toml \<Rightarrow> string \<Rightarrow> toml option" where
  "toml_get (Table t) k = map_of t k"
| "toml_get _ k = None"

text \<open>\<open>insert\<close> and \<open>remove\<close> of a table, keys staying distinct.\<close>

definition table_insert :: "string \<Rightarrow> toml \<Rightarrow> (string \<times> toml) list \<Rightarrow> (string \<times> toml) list" where
  "table_insert k v t = AList.update k v t"

definition table_remove :: "string \<Rightarrow> (string \<times> toml) list \<Rightarrow> (string \<times> toml) list" where
  "table_remove k t = AList.delete k t"

function (sequential) merge_toml :: "toml \<Rightarrow> toml \<Rightarrow> toml"
  and merge_entries :: "(string \<times> toml) list \<Rightarrow> (string \<times> toml) list \<Rightarrow> (string \<times> toml) list" where
  "merge_toml (Table lower) (Table over) = Table (merge_entries lower over)"
| "merge_toml base other = other"
| "merge_entries lower [] = lower"
| "merge_entries lower ((key, over_val) # over) =
     merge_entries
       (case map_of lower key of
          Some under_val \<Rightarrow> table_insert key (merge_toml under_val over_val) lower
        | None \<Rightarrow> table_insert key over_val lower)
       over"
  by pat_completeness auto

termination
  by (relation "measure (\<lambda>x. case x of Inl (b, over) \<Rightarrow> size over
        | Inr (b, over) \<Rightarrow> size_list (size_prod (\<lambda>_. 0) size) over)") auto

section \<open>The search path\<close>

datatype entry = Missing | Unreadable | Unparsable | Parsed toml

type_synonym root = "string \<Rightarrow> entry"

definition file_exists :: "root \<Rightarrow> string \<Rightarrow> bool" where
  "file_exists r rel \<longleftrightarrow> r rel \<noteq> Missing"

text \<open>The highest-precedence root holding \<open>rel\<close>, by its index: the last one that has it.\<close>

fun last_index :: "nat \<Rightarrow> root list \<Rightarrow> string \<Rightarrow> nat option" where
  "last_index i [] rel = None"
| "last_index i (r # rs) rel =
     (case last_index (Suc i) rs rel of
        Some j \<Rightarrow> Some j
      | None \<Rightarrow> if file_exists r rel then Some i else None)"

definition find_asset :: "root list \<Rightarrow> string \<Rightarrow> nat option" where
  "find_asset roots rel = last_index 0 roots rel"

definition find_asset_all :: "root list \<Rightarrow> string \<Rightarrow> nat list" where
  "find_asset_all roots rel = filter (\<lambda>i. file_exists (roots ! i) rel) [0..<length roots]"

definition find_trust_anchor :: "root list \<Rightarrow> string \<Rightarrow> bool \<Rightarrow> loader_error + nat option" where
  "find_trust_anchor roots rel allow_overlay =
     (if allow_overlay then Inr (find_asset roots rel)
      else if list_ex (\<lambda>r. file_exists r rel) (tl roots) then Inl (OverlayTrustAnchor rel)
      else Inr (if file_exists (hd roots) rel then Some 0 else None))"

definition owning_root :: "root list \<Rightarrow> string \<Rightarrow> string \<Rightarrow> nat" where
  "owning_root roots subdir s =
     (case last_index 0 roots (subdir @ ''/'' @ s @ ''.toml'') of Some i \<Rightarrow> i | None \<Rightarrow> 0)"

definition lock_path :: "root list \<Rightarrow> string \<Rightarrow> loader_error + nat \<times> string" where
  "lock_path roots s =
     bind_r (validate_build_ref s) (\<lambda>_.
       Inr (owning_root roots ''recipes'' (recipe_half s), ''recipes/'' @ s @ ''.lock''))"

fun merge_roots ::
  "nat \<Rightarrow> root list \<Rightarrow> string \<Rightarrow> (toml \<times> nat \<times> string) option \<Rightarrow> loader_error + (toml \<times> nat \<times> string) option" where
  "merge_roots i [] rel merged = Inr merged"
| "merge_roots i (r # rs) rel merged =
     (case r rel of
        Missing \<Rightarrow> merge_roots (Suc i) rs rel merged
      | Unreadable \<Rightarrow> Inl (ReadFailed i rel)
      | Unparsable \<Rightarrow> Inl (ParseFailed i rel)
      | Parsed v \<Rightarrow>
          merge_roots (Suc i) rs rel
            (Some (case merged of Some (base, _) \<Rightarrow> merge_toml base v | None \<Rightarrow> v, i, rel)))"

definition merge_value :: "root list \<Rightarrow> string \<Rightarrow> string \<Rightarrow> string \<Rightarrow> loader_error + toml \<times> nat \<times> string" where
  "merge_value roots k s rel =
     bind_r (merge_roots 0 roots rel None) (\<lambda>merged.
       case merged of None \<Rightarrow> Inl (NotFound k s (length roots - 1) rel) | Some vp \<Rightarrow> Inr vp)"

section \<open>The \<open>extends\<close> chain\<close>

definition ACCUMULATED :: "string list" where
  "ACCUMULATED = [''caveats'', ''expect'', ''nonfree_firmware_packages'', ''packages'', ''exclude'', ''initramfs.modules'']"

fun get_segments :: "toml \<Rightarrow> string list \<Rightarrow> toml option" where
  "get_segments v [] = Some v"
| "get_segments v (seg # segs) = (case toml_get v seg of Some w \<Rightarrow> get_segments w segs | None \<Rightarrow> None)"

definition at_key :: "toml \<Rightarrow> string \<Rightarrow> toml option" where
  "at_key v key = get_segments v (split (CHR ''.'') key)"

fun set_segments :: "(string \<times> toml) list \<Rightarrow> string list \<Rightarrow> toml list \<Rightarrow> (string \<times> toml) list" where
  "set_segments t [] entries = t"
| "set_segments t [l] entries = table_insert l (Array entries) t"
| "set_segments t (seg # s2 # segs) entries =
     (case map_of t seg of
        Some (Table nxt) \<Rightarrow> table_insert seg (Table (set_segments nxt (s2 # segs) entries)) t
      | _ \<Rightarrow> t)"

definition set_key :: "(string \<times> toml) list \<Rightarrow> string \<Rightarrow> toml list \<Rightarrow> (string \<times> toml) list" where
  "set_key t key entries = set_segments t (split (CHR ''.'') key) entries"

fun accumulate_levels ::
  "string \<Rightarrow> (toml \<times> nat \<times> string) list \<Rightarrow> bool \<times> toml list \<Rightarrow> loader_error + bool \<times> toml list" where
  "accumulate_levels key [] st = Inr st"
| "accumulate_levels key ((v, path) # levels) (seen, entries) =
     (case at_key v key of
        None \<Rightarrow> accumulate_levels key levels (seen, entries)
      | Some (Array level) \<Rightarrow>
          accumulate_levels key levels (True, foldl (push_absent canon) entries level)
      | Some other \<Rightarrow> Inl (InvalidDeviceField path key (type_str other)))"

fun accumulate_keys :: "(toml \<times> nat \<times> string) list \<Rightarrow> string list \<Rightarrow> loader_error + (string \<times> toml list) list" where
  "accumulate_keys levels [] = Inr []"
| "accumulate_keys levels (key # keys) =
     bind_r (accumulate_levels key levels (False, [])) (\<lambda>(seen, entries).
     bind_r (accumulate_keys levels keys) (\<lambda>out.
     Inr (if seen then (key, entries) # out else out)))"

definition accumulated_arrays :: "(toml \<times> nat \<times> string) list \<Rightarrow> loader_error + (string \<times> toml list) list" where
  "accumulated_arrays chain = accumulate_keys (rev chain) ACCUMULATED"

text \<open>The parent a device's merged value names.\<close>

definition extends_of :: "string \<Rightarrow> toml \<Rightarrow> loader_error + string option" where
  "extends_of current v =
     (case toml_get v ''extends'' of
        None \<Rightarrow> Inr None
      | Some (Str p) \<Rightarrow> Inr (Some p)
      | Some other \<Rightarrow> Inl (InvalidDeviceExtends current (type_str other)))"

definition without_extends :: "toml \<Rightarrow> toml" where
  "without_extends v = (case v of Table t \<Rightarrow> Table (table_remove ''extends'' t) | _ \<Rightarrow> v)"

type_synonym walked = "string list \<times> (toml \<times> nat \<times> string) list"

text \<open>One pass of the walk's loop: the state after it, and the parent to go on with.\<close>

definition walk_step ::
  "root list \<Rightarrow> string \<Rightarrow> walked \<Rightarrow> string \<Rightarrow> loader_error + walked \<times> string option" where
  "walk_step roots s st current =
     (case st of (lineage, chain) \<Rightarrow>
      bind_r (validate_device_name current) (\<lambda>_.
      if current \<in> set lineage then Inl (DeviceExtendsCycle s (lineage @ [current]))
      else
        bind_r (merge_value roots ''device'' current (''devices/'' @ current @ ''.toml'')) (\<lambda>(v, path).
        bind_r (extends_of current v) (\<lambda>parent.
        let v' = (if chain \<noteq> [] then without_extends v else v) in
        Inr ((lineage @ [current], chain @ [(v', path)]), parent)))))"

partial_function (option) walk_extends ::
  "root list \<Rightarrow> string \<Rightarrow> walked \<Rightarrow> string \<Rightarrow> (loader_error + walked) option" where
  "walk_extends roots s st current =
     (case walk_step roots s st current of
        Inl e \<Rightarrow> Some (Inl e)
      | Inr (st', parent) \<Rightarrow>
          (case parent of Some p \<Rightarrow> walk_extends roots s st' p | None \<Rightarrow> Some (Inr st')))"

text \<open>The merge, base-most first, and the accumulated keys written over it.\<close>

definition merge_chain :: "(toml \<times> nat \<times> string) list \<Rightarrow> toml" where
  "merge_chain chain =
     (case rev (map fst chain) of base # levels \<Rightarrow> foldl merge_toml base levels | [] \<Rightarrow> Table [])"

definition write_accumulated :: "toml \<Rightarrow> (string \<times> toml list) list \<Rightarrow> toml" where
  "write_accumulated merged accumulated =
     (case merged of
        Table t \<Rightarrow> Table (foldl (\<lambda>t (key, entries). set_key t key entries) t accumulated)
      | _ \<Rightarrow> merged)"

definition finish_device :: "walked \<Rightarrow> loader_error + toml \<times> string list" where
  "finish_device st =
     (case st of (lineage, chain) \<Rightarrow>
      bind_r (accumulated_arrays chain) (\<lambda>accumulated.
      Inr (write_accumulated (merge_chain chain) accumulated, rev lineage)))"

text \<open>\<open>device_with_lineage\<close> up to the deserialization of the merged value.\<close>

definition device_value :: "root list \<Rightarrow> string \<Rightarrow> (loader_error + toml \<times> string list) option" where
  "device_value roots s =
     (case walk_extends roots s ([], []) s of
        None \<Rightarrow> None
      | Some (Inl e) \<Rightarrow> Some (Inl e)
      | Some (Inr st) \<Rightarrow> Some (finish_device st))"

section \<open>Names stay inside\<close>

lemma bare_name_chars: "is_alnum c \<or> c = CHR ''.'' \<or> c = CHR ''_'' \<or> c = CHR ''-'' \<Longrightarrow> c \<noteq> CHR ''/'' \<and> c \<noteq> CHR ''+''"
  by (elim disjE) (auto simp: char_class_defs)

lemma bare_name_no_sep: "is_bare_name s \<Longrightarrow> CHR ''/'' \<notin> set s \<and> CHR ''+'' \<notin> set s"
  using bare_name_chars by (force simp: is_bare_name_def list_all_iff)

interpretation bare_guard: name_guard is_bare_name
proof unfold_locales
  show "is_bare_name p \<Longrightarrow> CHR ''/'' \<notin> set p" for p using bare_name_no_sep by blast
  show "p \<noteq> [] \<and> p \<noteq> ''.'' \<and> p \<noteq> ''..''" if "is_bare_name p" for p
  proof -
    have "p \<noteq> []" "hd p \<noteq> CHR ''.''" using that unfolding is_bare_name_def starts_with_hd by blast+
    then show ?thesis by auto
  qed
qed

lemma validate_name_Inr [simp]: "validate_name k s = Inr () \<longleftrightarrow> is_bare_name s"
  by (simp add: validate_name_def)

lemma validate_names_Inr [simp]: "validate_names k ss = Inr () \<longleftrightarrow> (\<forall>s \<in> set ss. is_bare_name s)"
  by (induction ss) auto

lemma recipe_ref_Inr:
  "validate_recipe_ref s = Inr () \<longleftrightarrow>
     is_bare_name s \<or> (\<exists>device leaf. s = device @ CHR ''/'' # leaf \<and> is_bare_name device \<and> is_bare_name leaf)"
proof
  assume "validate_recipe_ref s = Inr ()"
  then have c: "case split (CHR ''/'') s of [leaf] \<Rightarrow> is_bare_name leaf
      | [device, leaf] \<Rightarrow> is_bare_name device \<and> is_bare_name leaf | _ \<Rightarrow> False"
    by (simp add: validate_recipe_ref_def split: if_splits)
  show "is_bare_name s \<or> (\<exists>device leaf. s = device @ CHR ''/'' # leaf \<and> is_bare_name device \<and> is_bare_name leaf)"
  proof (cases "split (CHR ''/'') s")
    case Nil
    then show ?thesis by simp
  next
    case (Cons a as)
    note j = join_split[of "CHR ''/''" s, unfolded Cons]
    show ?thesis
    proof (cases as)
      case Nil
      with c j show ?thesis by (simp add: Cons)
    next
      case as: (Cons b bs)
      with c j show ?thesis by (cases bs) (auto simp: Cons)
    qed
  qed
next
  assume "is_bare_name s \<or> (\<exists>device leaf. s = device @ CHR ''/'' # leaf \<and> is_bare_name device \<and> is_bare_name leaf)"
  then show "validate_recipe_ref s = Inr ()"
  proof
    assume "is_bare_name s"
    with bare_name_no_sep[of s] show ?thesis by (simp add: validate_recipe_ref_def split_no_sep)
  next
    assume "\<exists>device leaf. s = device @ CHR ''/'' # leaf \<and> is_bare_name device \<and> is_bare_name leaf"
    then obtain device leaf where "s = device @ CHR ''/'' # leaf" "is_bare_name device" "is_bare_name leaf" by blast
    with bare_name_no_sep show ?thesis
      by (simp add: validate_recipe_ref_def split_append_sep split_no_sep)
  qed
qed

interpretation recipe_guard: path_guard "\<lambda>s. validate_recipe_ref s = Inr ()"
proof unfold_locales
  fix p
  assume "validate_recipe_ref p = Inr ()"
  then consider "is_bare_name p"
    | device leaf where "p = device @ CHR ''/'' # leaf" "is_bare_name device" "is_bare_name leaf"
    unfolding recipe_ref_Inr by blast
  then have "\<not> is_absolute p \<and> \<not> has_parent_dir p"
  proof cases
    case 1
    then show ?thesis using bare_guard.not_absolute bare_guard.no_parent by blast
  next
    case 2
    then show ?thesis using bare_guard.not_special[of device] bare_guard.not_special[of leaf]
        bare_name_no_sep[of device] bare_name_no_sep[of leaf]
      by (cases device) (auto simp: is_absolute_def starts_with_hd has_parent_dir_split split_append_sep split_no_sep
          split_Cons_neq)
  qed
  then show "\<not> is_absolute p" "\<not> has_parent_dir p" by simp_all
qed

lemma device_labels_Inr: "check_labels ls = Inr () \<longleftrightarrow> (\<forall>l \<in> set ls. check_label l = Inr ())"
  by (induction ls) auto

text \<open>The comment on \<open>validate_device_name\<close>: every host name is a bare identifier.\<close>

lemma device_name_bare: "validate_device_name s = Inr () \<Longrightarrow> is_bare_name s"
proof -
  assume "validate_device_name s = Inr ()"
  then have h: "s \<noteq> []" "\<forall>l \<in> set (split (CHR ''.'') s). check_label l = Inr ()"
    by (auto simp: validate_device_name_def hostname_check_def device_labels_Inr split: sum.splits if_splits)
  have l: "l \<noteq> [] \<and> (\<forall>c \<in> set l. is_alnum c \<or> c = CHR ''-'')" if "l \<in> set (split (CHR ''.'') s)" for l
    using h(2) that by (auto simp: check_label_def list_all_iff split: if_splits)
  have "is_alnum c \<or> c = CHR ''.'' \<or> c = CHR ''_'' \<or> c = CHR ''-''" if "c \<in> set s" for c
    using set_join_subset[of c "''.''" "split (CHR ''.'') s"] l that by (auto simp: join_split)
  moreover have "\<not> starts_with ''.'' s"
    using l[of "[]"] h(1) by (cases s) (auto simp: starts_with_hd)
  ultimately show ?thesis using h(1) by (auto simp: is_bare_name_def list_all_iff)
qed

text \<open>A recipe reference with a suffix, as the lock of a build point is named.\<close>

definition feature_suffix :: "string list \<Rightarrow> string" where
  "feature_suffix fs = concat (map (\<lambda>f. CHR ''+'' # f) fs)"

lemma join_feature_suffix: "join ''+'' (r # fs) = r @ feature_suffix fs"
  by (induction fs arbitrary: r) (simp_all add: feature_suffix_def)

lemma insideI: "\<not> is_absolute p \<Longrightarrow> \<not> has_parent_dir p \<Longrightarrow> inside root p"
  by (rule path_guard.stays_inside[of "\<lambda>q. \<not> is_absolute q \<and> \<not> has_parent_dir q"]) (unfold_locales, auto)

lemma recipe_ref_suffix:
  assumes "validate_recipe_ref r = Inr ()" "CHR ''/'' \<notin> set (u @ ''.lock'')"
  shows "inside dir (r @ u @ ''.lock'')"
proof -
  have long: "x @ u @ ''.lock'' \<noteq> ''..''" for x :: string
    by (rule notI, drule arg_cong[of _ _ length]) simp
  from assms(1) consider "is_bare_name r"
    | device leaf where "r = device @ CHR ''/'' # leaf" "is_bare_name device" "is_bare_name leaf"
    unfolding recipe_ref_Inr by blast
  then have "\<not> is_absolute (r @ u @ ''.lock'') \<and> \<not> has_parent_dir (r @ u @ ''.lock'')"
  proof cases
    case 1
    then have r: "CHR ''/'' \<notin> set (r @ u @ ''.lock'')" "r \<noteq> []" using assms(2) bare_name_no_sep bare_guard.not_special by auto
    then show ?thesis using long[of r]
      by (cases r) (auto simp: is_absolute_def starts_with_hd has_parent_dir_split split_no_sep)
  next
    case 2
    then have d: "CHR ''/'' \<notin> set device" "CHR ''/'' \<notin> set (leaf @ u @ ''.lock'')" "device \<noteq> []" "device \<noteq> ''..''"
      using assms(2) bare_name_no_sep bare_guard.not_special by auto
    then have "split (CHR ''/'') (r @ u @ ''.lock'') = [device, leaf @ u @ ''.lock'']"
      using split_append_sep[of "CHR ''/''" device] split_no_sep[OF d(2)] 2(1) by simp
    then show ?thesis using d long[of leaf] 2(1)
      by (cases device) (auto simp: is_absolute_def starts_with_hd has_parent_dir_split)
  qed
  then show ?thesis using insideI by blast
qed

section \<open>Merging\<close>

fun wf_toml :: "toml \<Rightarrow> bool" where
  "wf_toml (Table t) = (distinct (map fst t) \<and> (\<forall>(_, v) \<in> set t. wf_toml v))"
| "wf_toml _ = True"

fun is_table :: "toml \<Rightarrow> bool" where
  "is_table (Table _) = True"
| "is_table _ = False"

lemma map_of_table_insert [simp]: "map_of (table_insert k v t) = (map_of t)(k \<mapsto> v)"
  by (simp add: table_insert_def update_conv')

lemma map_of_table_remove [simp]: "map_of (table_remove k t) = (map_of t)(k := None)"
  by (simp add: table_remove_def delete_conv')

lemma map_of_merge_entries:
  "distinct (map fst over) \<Longrightarrow> map_of (merge_entries lower over) k =
     (case map_of over k of
        None \<Rightarrow> map_of lower k
      | Some v \<Rightarrow> Some (case map_of lower k of Some u \<Rightarrow> merge_toml u v | None \<Rightarrow> v))"
proof (induction over arbitrary: lower)
  case (Cons p over)
  obtain key v where p: "p = (key, v)" by (cases p)
  have n: "map_of over key = None" using Cons.prems by (auto simp: p map_of_eq_None_iff)
  have d: "distinct (map fst over)" using Cons.prems by simp
  show ?case by (simp add: p Cons.IH[OF d] n split: option.split)
qed simp

lemma merge_toml_get:
  "wf_toml (Table over) \<Longrightarrow> toml_get (merge_toml base (Table over)) k =
     (case map_of over k of
        None \<Rightarrow> toml_get base k
      | Some v \<Rightarrow> Some (case toml_get base k of Some u \<Rightarrow> merge_toml u v | None \<Rightarrow> v))"
  by (cases base) (auto simp: map_of_merge_entries split: option.split)

lemma merge_not_table: "\<not> is_table v \<Longrightarrow> merge_toml base v = v"
  by (cases v; cases base) auto

lemma merge_leaf_wins:
  "wf_toml over \<Longrightarrow> get_segments over p = Some v \<Longrightarrow> \<not> is_table v \<Longrightarrow> get_segments (merge_toml base over) p = Some v"
proof (induction p arbitrary: base over)
  case (Cons k p)
  then obtain w where w: "toml_get over k = Some w" "get_segments w p = Some v" by (auto split: option.splits)
  then obtain t where t: "over = Table t" "map_of t k = Some w" by (cases over) auto
  have "wf_toml w" using Cons.prems(1) map_of_SomeD[OF t(2)] by (auto simp: t(1))
  with Cons.IH w(2) Cons.prems(3) have i: "get_segments (merge_toml u w) p = Some v" for u by blast
  show ?case using merge_toml_get[of t base k] Cons.prems(1) i w(2) by (auto simp: t split: option.split)
qed (simp add: merge_not_table)

text \<open>An overlay leaves a path alone when its tables do not spell it out.\<close>

fun untouched :: "toml \<Rightarrow> string list \<Rightarrow> bool" where
  "untouched (Table t) (k # p) = (case map_of t k of None \<Rightarrow> True | Some w \<Rightarrow> untouched w p)"
| "untouched _ _ = False"

lemma untouched_get: "untouched over p \<Longrightarrow> get_segments over p = None"
  by (induction over p rule: untouched.induct) (auto split: option.splits)

lemma merge_untouched:
  "wf_toml over \<Longrightarrow> untouched over p \<Longrightarrow> get_segments (merge_toml base over) p = get_segments base p"
proof (induction p arbitrary: base over)
  case (Cons k p)
  then obtain t where t: "over = Table t" by (cases over) auto
  show ?case
  proof (cases "map_of t k")
    case None
    then show ?thesis using merge_toml_get[of t base k] Cons.prems(1) by (simp add: t)
  next
    case (Some w)
    then have "wf_toml w" "untouched w p" using Cons.prems map_of_SomeD[OF Some] by (auto simp: t)
    then have "get_segments (merge_toml u w) p = get_segments u p" "get_segments w p = None" for u
      using Cons.IH untouched_get by blast+
    then show ?thesis using merge_toml_get[of t base k] Cons.prems(1) Some by (auto simp: t split: option.split)
  qed
qed (cases over; simp)

lemma keys_merge_entries:
  "fst ` set (merge_entries lower over) = fst ` set lower \<union> fst ` set over"
proof (induction over arbitrary: lower)
  case (Cons p over)
  obtain key v where "p = (key, v)" by (cases p)
  then show ?case by (auto simp: Cons.IH table_insert_def dom_update split: option.split)
qed simp

definition wf_entries :: "(string \<times> toml) list \<Rightarrow> bool" where
  "wf_entries t \<longleftrightarrow> distinct (map fst t) \<and> (\<forall>v \<in> snd ` set t. wf_toml v)"

lemma wf_Table: "wf_toml (Table t) \<longleftrightarrow> wf_entries t"
  by (auto simp: wf_entries_def)

lemma wf_table_insert: "wf_entries t \<Longrightarrow> wf_toml v \<Longrightarrow> wf_entries (table_insert k v t)"
proof -
  assume t: "wf_entries t" and v: "wf_toml v"
  have "snd ` set (AList.update k v t) \<subseteq> insert v (snd ` set t)" by (induction t) auto
  then have "\<forall>w \<in> snd ` set (AList.update k v t). wf_toml w" using t v unfolding wf_entries_def by blast
  moreover have "distinct (map fst (AList.update k v t))" using t by (simp add: wf_entries_def distinct_update)
  ultimately show ?thesis by (simp add: wf_entries_def table_insert_def)
qed

lemma wf_merge:
  "wf_toml base \<Longrightarrow> wf_toml over \<Longrightarrow> wf_toml (merge_toml base over)"
  "wf_entries lower \<Longrightarrow> \<forall>v \<in> snd ` set entries. wf_toml v \<Longrightarrow> wf_entries (merge_entries lower entries)"
proof (induction base over and lower entries rule: merge_toml_merge_entries.induct)
  case (1 lower over)
  then show ?case unfolding merge_toml.simps wf_Table by (auto simp: wf_entries_def)
next
  case (4 lower key over_val over)
  have v: "wf_toml over_val" "\<forall>v \<in> snd ` set over. wf_toml v" using "4.prems"(2) by auto
  show ?case
  proof (cases "map_of lower key")
    case None
    show ?thesis using "4.IH"(2) wf_table_insert[OF "4.prems"(1) v(1), of key] v(2) by (simp add: None)
  next
    case (Some u)
    have "wf_toml u" using "4.prems"(1) map_of_SomeD[OF Some] by (force simp: wf_entries_def)
    then have "wf_toml (merge_toml u over_val)" using "4.IH"(1)[OF Some] v(1) by blast
    from wf_table_insert[OF "4.prems"(1) this, of key] show ?thesis using "4.IH"(2) v(2) by (simp add: Some)
  qed
qed (simp_all del: wf_toml.simps(1))

section \<open>The search path\<close>

text \<open>The documents the roots hold at a path, lowest precedence first.\<close>

definition documents :: "root list \<Rightarrow> string \<Rightarrow> toml list" where
  "documents roots rel = concat (map (\<lambda>r. case r rel of Parsed v \<Rightarrow> [v] | _ \<Rightarrow> []) roots)"

definition merge_all :: "toml list \<Rightarrow> toml option" where
  "merge_all vs = (case vs of [] \<Rightarrow> None | v # ws \<Rightarrow> Some (foldl merge_toml v ws))"

lemma merge_all_Cons: "merge_all (v # ws) = Some (foldl merge_toml v ws)"
  by (simp add: merge_all_def)

lemma merge_roots_Inr:
  "merge_roots i roots rel m = Inr m' \<Longrightarrow>
     map_option fst m' = merge_all ((case m of None \<Rightarrow> [] | Some (b, _) \<Rightarrow> [b]) @ documents roots rel) \<and>
     map_option snd m' = (case last_index i roots rel of Some j \<Rightarrow> Some (j, rel) | None \<Rightarrow> map_option snd m)"
proof (induction i roots rel m arbitrary: m' rule: merge_roots.induct)
  case (1 i rel m)
  then show ?case by (cases m) (auto simp: documents_def merge_all_def)
next
  case (2 i r rs rel m)
  show ?case
  proof (cases "r rel")
    case Missing
    then show ?thesis using 2 by (auto simp: documents_def file_exists_def split: option.splits)
  next
    case (Parsed v)
    from "2.IH"(2)[OF Parsed] "2.prems" Parsed
    have "map_option fst m' = merge_all ((case m of Some (base, _) \<Rightarrow> merge_toml base v | None \<Rightarrow> v) # documents rs rel)"
      "map_option snd m' = (case last_index (Suc i) rs rel of Some j \<Rightarrow> Some (j, rel) | None \<Rightarrow> Some (i, rel))"
      by (simp_all split: option.split)
    moreover have "documents (r # rs) rel = v # documents rs rel" using Parsed by (simp add: documents_def)
    ultimately show ?thesis
      using Parsed by (cases m) (auto simp: merge_all_Cons file_exists_def split: option.splits)
  qed (use 2 in auto)
qed

lemma last_index_snoc:
  "last_index i (rs @ [r]) rel = (if file_exists r rel then Some (i + length rs) else last_index i rs rel)"
  by (induction i rs rel rule: last_index.induct) auto

lemma find_asset_Some:
  "find_asset roots rel = Some j \<longleftrightarrow>
     j < length roots \<and> file_exists (roots ! j) rel \<and> (\<forall>l. j < l \<and> l < length roots \<longrightarrow> \<not> file_exists (roots ! l) rel)"
  unfolding find_asset_def
proof (induction roots rule: rev_induct)
  case (snoc r rs)
  show ?case
  proof (cases "file_exists r rel")
    case True
    have "j = length rs" if "j < Suc (length rs)" "\<forall>l. j < l \<and> l < Suc (length rs) \<longrightarrow> \<not> file_exists ((rs @ [r]) ! l) rel"
      using that(1) that(2)[rule_format, of "length rs"] True by (cases "j < length rs") auto
    moreover have "\<forall>l. length rs < l \<and> l < Suc (length rs) \<longrightarrow> \<not> file_exists ((rs @ [r]) ! l) rel"
      by (auto simp: less_Suc_eq)
    moreover have "file_exists ((rs @ [r]) ! length rs) rel" using True by simp
    ultimately have "j < Suc (length rs) \<and> file_exists ((rs @ [r]) ! j) rel \<and>
        (\<forall>l. j < l \<and> l < Suc (length rs) \<longrightarrow> \<not> file_exists ((rs @ [r]) ! l) rel) \<longleftrightarrow> j = length rs" by blast
    with True show ?thesis by (simp add: last_index_snoc) blast
  next
    case False
    then show ?thesis using snoc unfolding last_index_snoc if_not_P[OF False]
      by (auto simp: nth_append less_Suc_eq)
  qed
qed simp

lemma find_asset_None: "find_asset roots rel = None \<longleftrightarrow> (\<forall>r \<in> set roots. \<not> file_exists r rel)"
proof -
  have "last_index i rs rel = None \<longleftrightarrow> (\<forall>r \<in> set rs. \<not> file_exists r rel)" for i rs
    by (induction i rs rel rule: last_index.induct) (auto split: option.split)
  then show ?thesis by (simp add: find_asset_def)
qed

lemma merge_value_Inr:
  assumes "merge_value roots k s rel = Inr (v, i, path)"
  shows "merge_all (documents roots rel) = Some v \<and> find_asset roots rel = Some i \<and> path = rel"
proof -
  from assms have "merge_roots 0 roots rel None = Inr (Some (v, i, path))"
    by (auto simp: merge_value_def split: option.splits)
  from merge_roots_Inr[OF this] show ?thesis by (auto simp: find_asset_def split: option.splits)
qed

lemma merge_all_split:
  "merge_all (lower @ d # higher) = Some (foldl merge_toml (case merge_all lower of None \<Rightarrow> d | Some b \<Rightarrow> merge_toml b d) higher)"
  by (cases lower) (simp_all add: merge_all_def)

lemma foldl_untouched:
  "\<forall>h \<in> set hs. wf_toml h \<and> untouched h p \<Longrightarrow> get_segments (foldl merge_toml u hs) p = get_segments u p"
  by (induction hs arbitrary: u) (auto simp: merge_untouched)

lemma foldl_wf: "wf_toml u \<Longrightarrow> \<forall>d \<in> set ds. wf_toml d \<Longrightarrow> wf_toml (foldl merge_toml u ds)"
  by (induction ds arbitrary: u) (auto simp: wf_merge)

lemma merge_all_wf: "merge_all ds = Some v \<Longrightarrow> \<forall>d \<in> set ds. wf_toml d \<Longrightarrow> wf_toml v"
  by (cases ds) (auto simp: merge_all_def intro!: foldl_wf)

section \<open>The walk\<close>

definition device_rel :: "string \<Rightarrow> string" where
  "device_rel n = ''devices/'' @ n @ ''.toml''"

text \<open>What the search path holds for a device, and the parent it names.\<close>

definition device_file :: "root list \<Rightarrow> string \<Rightarrow> toml option" where
  "device_file roots n = map_option fst (ok (merge_value roots ''device'' n (device_rel n)))"

definition parent_of :: "root list \<Rightarrow> string \<Rightarrow> string option" where
  "parent_of roots n = (case device_file roots n of Some v \<Rightarrow> (case extends_of n v of Inr p \<Rightarrow> p | Inl _ \<Rightarrow> None) | None \<Rightarrow> None)"

fun extends_path :: "root list \<Rightarrow> string list \<Rightarrow> bool" where
  "extends_path roots [] = False"
| "extends_path roots [n] = (parent_of roots n = None)"
| "extends_path roots (n # m # ns) = (parent_of roots n = Some m \<and> extends_path roots (m # ns))"

definition device_files :: "root list \<Rightarrow> string set" where
  "device_files roots = {n. \<exists>r \<in> set roots. file_exists r (device_rel n)}"

lemma merge_roots_Some:
  "merge_roots i roots rel m = Inr (Some vp) \<Longrightarrow> m \<noteq> None \<or> (\<exists>r \<in> set roots. file_exists r rel)"
  by (induction i roots rel m rule: merge_roots.induct) (auto simp: file_exists_def split: entry.splits)

lemma device_file_exists: "device_file roots n = Some v \<Longrightarrow> n \<in> device_files roots"
  using merge_roots_Some[of 0 roots "device_rel n" None]
  by (auto simp: device_file_def merge_value_def device_files_def split: option.splits)

lemma walk_step_Inr:
  "walk_step roots s (lineage, chain) n = Inr (st', parent) \<longleftrightarrow>
     (\<exists>v path. validate_device_name n = Inr () \<and> n \<notin> set lineage \<and>
        merge_value roots ''device'' n (device_rel n) = Inr (v, path) \<and> extends_of n v = Inr parent \<and>
        st' = (lineage @ [n], chain @ [(if chain \<noteq> [] then without_extends v else v, path)]))"
  by (auto simp: walk_step_def device_rel_def Let_def)

lemma walk_step_file:
  "walk_step roots s st n = Inr (st', parent) \<Longrightarrow>
     n \<in> device_files roots - set (fst st) \<and> set (fst st') = insert n (set (fst st)) \<and> parent_of roots n = parent"
proof (cases st)
  case (Pair lineage chain)
  assume "walk_step roots s st n = Inr (st', parent)"
  then obtain v path where "n \<notin> set lineage" "merge_value roots ''device'' n (device_rel n) = Inr (v, path)"
    "extends_of n v = Inr parent" "fst st' = lineage @ [n]"
    unfolding Pair walk_step_Inr by auto
  moreover from this have "device_file roots n = Some v" by (simp add: device_file_def)
  moreover from this have "n \<in> device_files roots" by (rule device_file_exists)
  ultimately show ?thesis by (simp add: Pair parent_of_def)
qed

lemma walk_returns:
  "finite (device_files roots) \<Longrightarrow> \<exists>r. walk_extends roots s st n = Some r"
proof (induction "card (device_files roots - set (fst st))" arbitrary: st n rule: less_induct)
  case less
  show ?case
  proof (cases "walk_step roots s st n")
    case (Inl e)
    then show ?thesis by (simp add: walk_extends.simps)
  next
    case (Inr r)
    obtain st' parent where r: "r = (st', parent)" by (cases r)
    note f = walk_step_file[OF Inr[unfolded r]]
    have "device_files roots - set (fst st') \<subset> device_files roots - set (fst st)" using f by auto
    then have "card (device_files roots - set (fst st')) < card (device_files roots - set (fst st))"
      using less.prems by (intro psubset_card_mono) auto
    then have "\<exists>r. walk_extends roots s st' p = Some r" for p using less by blast
    then show ?thesis using Inr r by (subst walk_extends.simps) (simp split: option.split)
  qed
qed

text \<open>What a finished walk leaves: the names from the device to its base-most ancestor, and one
  level of the chain for each.\<close>

definition level_of :: "root list \<Rightarrow> string \<Rightarrow> toml \<times> nat \<times> string \<Rightarrow> bool" where
  "level_of roots n lv \<longleftrightarrow> (\<exists>v. device_file roots n = Some v \<and> (fst lv = v \<or> fst lv = without_extends v))"

definition walk_ok :: "root list \<Rightarrow> walked \<Rightarrow> string \<Rightarrow> loader_error + walked \<Rightarrow> bool" where
  "walk_ok roots st n r \<longleftrightarrow>
     (case r of
        Inr (lineage, chain) \<Rightarrow>
          \<exists>ns lvs. lineage = fst st @ n # ns \<and> chain = snd st @ lvs \<and> list_all2 (level_of roots) (n # ns) lvs \<and>
            extends_path roots (n # ns) \<and> (\<forall>m \<in> set (n # ns). is_bare_name m) \<and>
            distinct (n # ns) \<and> set (n # ns) \<inter> set (fst st) = {}
      | Inl (DeviceExtendsCycle d ns) \<Rightarrow> ns \<noteq> [] \<and> last ns \<in> set (butlast ns)
      | Inl _ \<Rightarrow> True)"

lemma walk_step_Inl: "walk_step roots s st n = Inl e \<Longrightarrow> walk_ok roots st n (Inl e)"
proof (cases st)
  case (Pair lineage chain)
  have m: "merge_roots i rs rel m \<noteq> Inl (DeviceExtendsCycle d ns)" for i rs rel m d ns
    by (induction i rs rel m rule: merge_roots.induct) (auto split: entry.splits)
  have v: "merge_value roots k n rel \<noteq> Inl (DeviceExtendsCycle d ns)" for k rel d ns
    using m by (cases "merge_roots 0 roots rel None") (auto simp: merge_value_def split: option.splits)
  have x: "extends_of n w \<noteq> Inl (DeviceExtendsCycle d ns)" for w d ns
    by (auto simp: extends_of_def split: option.splits toml.splits)
  assume "walk_step roots s st n = Inl e"
  then have "e = DeviceExtendsCycle d ns \<Longrightarrow> n \<in> set lineage \<and> ns = lineage @ [n]" for d ns
    using v x
    by (cases "merge_value roots ''device'' n (''devices/'' @ n @ ''.toml'')")
      (auto simp: Pair walk_step_def bind_r_def validate_device_name_def Let_def split: sum.splits if_splits)
  then show ?thesis by (auto simp: walk_ok_def split: loader_error.splits)
qed

lemma walk_result: "walk_extends roots s st n = Some r \<Longrightarrow> walk_ok roots st n r"
proof (erule walk_extends.raw_induct[rotated])
  fix loop and roots :: "root list" and s n :: string and st :: walked and r
  assume IH: "\<And>roots s st n r. loop roots s st n = Some r \<Longrightarrow> walk_ok roots st n r"
    and body: "(case walk_step roots s st n of Inl e \<Rightarrow> Some (Inl e)
      | Inr (st', parent) \<Rightarrow> (case parent of Some p \<Rightarrow> loop roots s st' p | None \<Rightarrow> Some (Inr st'))) = Some r"
  show "walk_ok roots st n r"
  proof (cases "walk_step roots s st n")
    case (Inl e)
    with body walk_step_Inl[OF Inl] show ?thesis by auto
  next
    case (Inr q)
    obtain st' parent where q: "q = (st', parent)" by (cases q)
    obtain lineage chain where st: "st = (lineage, chain)" by (cases st)
    from Inr obtain v path where s: "validate_device_name n = Inr ()" "n \<notin> set lineage"
      "merge_value roots ''device'' n (device_rel n) = Inr (v, path)" "extends_of n v = Inr parent"
      "st' = (lineage @ [n], chain @ [(if chain \<noteq> [] then without_extends v else v, path)])"
      unfolding q st walk_step_Inr by auto
    have f: "device_file roots n = Some v" "parent_of roots n = parent"
      using s(3,4) by (simp_all add: device_file_def parent_of_def)
    have l: "level_of roots n (if chain \<noteq> [] then without_extends v else v, path)"
      using f(1) by (simp add: level_of_def)
    show ?thesis
    proof (cases parent)
      case None
      with body have "r = Inr st'" by (simp add: Inr q)
      then show ?thesis
        using s(1,2,5) f(2) None l device_name_bare
        by (auto simp: walk_ok_def st intro!: exI[of _ "[]"])
    next
      case (Some p)
      have w: "walk_ok roots st' p r" using body by (intro IH) (simp add: Inr q Some)
      show ?thesis
      proof (cases r)
        case (Inl e)
        with w show ?thesis by (simp add: walk_ok_def)
      next
        case (Inr z)
        obtain lin ch where z: "z = (lin, ch)" by (cases z)
        from w obtain ns lvs where i: "lin = fst st' @ p # ns" "ch = snd st' @ lvs"
          "list_all2 (level_of roots) (p # ns) lvs" "extends_path roots (p # ns)" "\<forall>m \<in> set (p # ns). is_bare_name m"
          "distinct (p # ns)" "set (p # ns) \<inter> set (fst st') = {}"
          unfolding Inr z walk_ok_def by auto
        have "\<exists>ns' lvs'. lin = fst st @ n # ns' \<and> ch = snd st @ lvs' \<and> list_all2 (level_of roots) (n # ns') lvs' \<and>
            extends_path roots (n # ns') \<and> (\<forall>m \<in> set (n # ns'). is_bare_name m) \<and>
            distinct (n # ns') \<and> set (n # ns') \<inter> set (fst st) = {}"
          using i l s(1,2) f(2) Some device_name_bare[of n]
          by (intro exI[of _ "p # ns"] exI[of _ "(if chain \<noteq> [] then without_extends v else v, path) # lvs"])
            (auto simp: s(5) st)
        then show ?thesis by (simp add: Inr z walk_ok_def)
      qed
    qed
  qed
qed

section \<open>Accumulated keys\<close>

definition level_entries :: "string \<Rightarrow> toml \<Rightarrow> toml list" where
  "level_entries key v = (case at_key v key of Some (Array es) \<Rightarrow> es | _ \<Rightarrow> [])"

lemma accumulate_levels_Inr:
  "accumulate_levels key levels (seen, entries) = Inr st' \<Longrightarrow>
     (\<forall>lv \<in> set levels. at_key (fst lv) key = None \<or> (\<exists>es. at_key (fst lv) key = Some (Array es))) \<and>
     st' = (seen \<or> (\<exists>lv \<in> set levels. at_key (fst lv) key \<noteq> None),
            foldl (push_absent canon) entries (concat (map (\<lambda>lv. level_entries key (fst lv)) levels)))"
proof (induction key levels "(seen, entries)" arbitrary: seen entries rule: accumulate_levels.induct)
  case (2 key v path levels seen entries)
  then show ?case
    by (auto simp: level_entries_def split: option.splits toml.splits)
qed auto

lemma accumulate_keys_Inr:
  "accumulate_keys levels keys = Inr out \<Longrightarrow>
     map fst out = filter (\<lambda>key. \<exists>lv \<in> set levels. at_key (fst lv) key \<noteq> None) keys \<and>
     (\<forall>(key, es) \<in> set out. es = dedup_on canon (concat (map (\<lambda>lv. level_entries key (fst lv)) levels))) \<and>
     (\<forall>key \<in> set keys. \<forall>lv \<in> set levels. at_key (fst lv) key = None \<or> (\<exists>es. at_key (fst lv) key = Some (Array es)))"
proof (induction keys arbitrary: out)
  case (Cons key keys)
  from Cons.prems obtain seen entries out' where
    a: "accumulate_levels key levels (False, []) = Inr (seen, entries)"
    and k: "accumulate_keys levels keys = Inr out'" "out = (if seen then (key, entries) # out' else out')"
    by auto
  note l = accumulate_levels_Inr[OF a]
  have e: "entries = dedup_on canon (concat (map (\<lambda>lv. level_entries key (fst lv)) levels))"
    using l by (simp add: foldl_push_absent)
  have s: "seen = (\<exists>lv \<in> set levels. at_key (fst lv) key \<noteq> None)"
    and a: "\<forall>lv \<in> set levels. at_key (fst lv) key = None \<or> (\<exists>es. at_key (fst lv) key = Some (Array es))"
    using l by auto
  show ?case
  proof (cases seen)
    case True
    then show ?thesis using Cons.IH[OF k(1)] a unfolding s k(2) e by auto
  next
    case False
    then show ?thesis using Cons.IH[OF k(1)] a unfolding s k(2) by auto
  qed
qed auto

text \<open>Writing a key changes the table at its first segment only.\<close>

definition written :: "string list \<Rightarrow> toml list \<Rightarrow> toml option \<Rightarrow> toml option" where
  "written segs entries old =
     (if segs = [] then Some (Array entries)
      else case old of Some (Table n) \<Rightarrow> Some (Table (set_segments n segs entries)) | _ \<Rightarrow> old)"

lemma map_of_set_segments:
  "map_of (set_segments t (h # segs) entries) k = (if k = h then written segs entries (map_of t h) else map_of t k)"
  by (cases segs) (auto simp: written_def split: option.splits toml.splits)

lemma map_of_set_key:
  "split (CHR ''.'') key = h # segs \<Longrightarrow>
     map_of (set_key t key entries) k = (if k = h then written segs entries (map_of t h) else map_of t k)"
  by (simp add: set_key_def map_of_set_segments)

definition key_head :: "string \<Rightarrow> string" where
  "key_head key = hd (split (CHR ''.'') key)"

lemma written_others:
  "key_head key \<noteq> k \<Longrightarrow> map_of (set_key t key entries) k = map_of t k"
  using map_of_set_key[of key "key_head key" "tl (split (CHR ''.'') key)"] by (simp add: key_head_def)

lemma write_all_others:
  "k \<notin> key_head ` fst ` set acc \<Longrightarrow> map_of (foldl (\<lambda>t (key, entries). set_key t key entries) t acc) k = map_of t k"
proof (induction acc arbitrary: t)
  case (Cons a acc)
  then show ?case by (cases a) (auto simp: written_others)
qed simp

lemma write_all_at:
  assumes "distinct (map (key_head \<circ> fst) acc)" "(key, entries) \<in> set acc"
  shows "map_of (foldl (\<lambda>t (key, entries). set_key t key entries) t acc) (key_head key)
       = written (tl (split (CHR ''.'') key)) entries (map_of t (key_head key))"
  using assms
proof (induction acc arbitrary: t)
  case (Cons a acc)
  obtain k es where a: "a = (k, es)" by (cases a)
  have w: "map_of (set_key t k es) (key_head k) = written (tl (split (CHR ''.'') k)) es (map_of t (key_head k))"
    using map_of_set_key[of k "key_head k" "tl (split (CHR ''.'') k)"] by (simp add: key_head_def)
  show ?case
  proof (cases "(key, entries) = (k, es)")
    case True
    then have "key_head key \<notin> key_head ` fst ` set acc" using Cons.prems(1) by (auto simp: a image_image)
    then show ?thesis using True w by (simp add: a write_all_others)
  next
    case False
    then have m: "(key, entries) \<in> set acc" using Cons.prems(2) by (auto simp: a)
    then have "key_head key \<noteq> key_head k" using Cons.prems(1) by (auto simp: a image_iff)
    then show ?thesis using Cons.IH[OF _ m, of "set_key t k es"] Cons.prems(1) by (simp add: a written_others)
  qed
qed simp

lemma without_extends_at: "key_head key \<noteq> ''extends'' \<Longrightarrow> at_key (without_extends v) key = at_key v key"
  by (cases "split (CHR ''.'') key"; cases v) (auto simp: at_key_def without_extends_def key_head_def)

lemma accumulated_heads:
  "distinct (map key_head ACCUMULATED)" "key \<in> set ACCUMULATED \<Longrightarrow> key_head key \<noteq> ''extends''"
  by (auto simp: ACCUMULATED_def key_head_def)

lemma level_at:
  "level_of roots n lv \<Longrightarrow> key \<in> set ACCUMULATED \<Longrightarrow> device_file roots n = Some w \<Longrightarrow> at_key (fst lv) key = at_key w key"
  using without_extends_at accumulated_heads(2) by (auto simp: level_of_def)

lemma chain_levels:
  "list_all2 (level_of roots) lin chain \<Longrightarrow> key \<in> set ACCUMULATED \<Longrightarrow>
     map (\<lambda>lv. level_entries key (fst lv)) chain = map (level_entries key \<circ> the \<circ> device_file roots) lin \<and>
     (\<forall>n \<in> set lin. \<exists>lv \<in> set chain. at_key (fst lv) key = at_key (the (device_file roots n)) key)"
proof (induction rule: list_all2_induct)
  case (Cons n lin lv chain)
  then obtain w where w: "device_file roots n = Some w" by (auto simp: level_of_def)
  with Cons level_at have "at_key (fst lv) key = at_key w key" by blast
  with Cons w show ?case by (auto simp: level_entries_def)
qed simp

lemma distinct_heads_filter: "distinct (map key_head xs) \<Longrightarrow> distinct (map key_head (filter P xs))"
  by (induction xs) auto

lemma written_at:
  assumes "toml_get v (key_head key) = written (tl (split (CHR ''.'') key)) es old" "key \<in> set ACCUMULATED"
    "length (split (CHR ''.'') key) = 2 \<longrightarrow> (\<exists>t. toml_get v (key_head key) = Some (Table t))"
  shows "at_key v key = Some (Array es)"
proof -
  have two: "split (CHR ''.'') key = [key_head key] \<or> (\<exists>a. split (CHR ''.'') key = [key_head key, a])"
    using assms(2) by (auto simp: ACCUMULATED_def key_head_def)
  then show ?thesis
  proof (elim disjE exE)
    assume s: "split (CHR ''.'') key = [key_head key]"
    then show ?thesis using assms(1) by (simp add: at_key_def written_def)
  next
    fix a assume s: "split (CHR ''.'') key = [key_head key, a]"
    with assms(3) obtain u where "toml_get v (key_head key) = Some (Table u)" by auto
    with assms(1) s obtain n where "toml_get v (key_head key) = Some (Table (set_segments n [a] es))"
      by (auto simp: written_def split: option.splits toml.splits)
    then show ?thesis by (simp add: at_key_def s)
  qed
qed

section \<open>Properties\<close>

text \<open>C9. Reading a device always ends when the search path holds finitely many files, whatever
  its \<open>extends\<close> keys say: a chain that comes back to a device it has seen is refused as a
  cycle, and a device that is returned comes with its ancestors base-most first, each the
  parent the next one names, the device itself last and none twice, all safe file names.\<close>

theorem device_walk_terminates:
  assumes "finite {rel. \<exists>r \<in> set roots. file_exists r rel}"
  shows "\<exists>r. device_value roots s = Some r \<and>
     (\<forall>v lineage. r = Inr (v, lineage) \<longrightarrow>
        lineage \<noteq> [] \<and> last lineage = s \<and> extends_path roots (rev lineage) \<and> distinct lineage \<and>
        (\<forall>n \<in> set lineage. is_bare_name n)) \<and>
     (\<forall>d ns. walk_extends roots s ([], []) s = Some (Inl (DeviceExtendsCycle d ns)) \<longrightarrow> last ns \<in> set (butlast ns))"
proof -
  have "device_rel ` device_files roots \<subseteq> {rel. \<exists>r \<in> set roots. file_exists r rel}" by (auto simp: device_files_def)
  moreover have "inj device_rel" by (auto simp: inj_def device_rel_def)
  ultimately have f: "finite (device_files roots)" using assms by (meson finite_imageD finite_subset inj_on_subset subset_UNIV)
  obtain r where r: "walk_extends roots s ([], []) s = Some r" using walk_returns[OF f] by blast
  note ok = walk_result[OF r]
  show ?thesis
  proof (cases r)
    case (Inl e)
    then show ?thesis using r ok by (auto simp: device_value_def walk_ok_def)
  next
    case (Inr st)
    obtain lin ch where st: "st = (lin, ch)" by (cases st)
    from ok obtain ns where ns: "lin = s # ns" "extends_path roots (s # ns)" "\<forall>m \<in> set (s # ns). is_bare_name m"
      "distinct (s # ns)" by (auto simp: walk_ok_def Inr st)
    have "lineage = rev lin" if "finish_device st = Inr (v, lineage)" for v lineage
      using that by (auto simp: finish_device_def st)
    then show ?thesis using r ns by (auto simp: device_value_def Inr)
  qed
qed

definition demo_root :: root where
  "demo_root rel =
     (if rel = ''devices/h96.toml'' then
        Parsed (Table [(''hostname'', Str ''h96''), (''packages'', Array [Str ''rfkill'', Str ''iw'']),
          (''initramfs'', Table [(''modules'', Array [Str ''nvme''])])])
      else if rel = ''devices/h96-max.toml'' then
        Parsed (Table [(''extends'', Str ''h96''), (''hostname'', Str ''h96-max''), (''packages'', Array [Str ''iw'', Str ''lm-sensors''])])
      else if rel = ''devices/loop.toml'' then Parsed (Table [(''extends'', Str ''loop2'')])
      else if rel = ''devices/loop2.toml'' then Parsed (Table [(''extends'', Str ''loop'')])
      else Missing)"

definition h96_max :: toml where
  "h96_max = Table [(''hostname'', Str ''h96-max''), (''packages'', Array [Str ''rfkill'', Str ''iw'', Str ''lm-sensors'']),
     (''initramfs'', Table [(''modules'', Array [Str ''nvme''])]), (''extends'', Str ''h96'')]"

lemma demo_steps:
  "walk_step [demo_root] s ([], []) ''h96-max'' = Inr (([''h96-max''], [(Table [(''extends'', Str ''h96''),
      (''hostname'', Str ''h96-max''), (''packages'', Array [Str ''iw'', Str ''lm-sensors''])], 0, ''devices/h96-max.toml'')]), Some ''h96'')"
  "walk_step [demo_root] s ([''h96-max''], [(v, l)]) ''h96'' = Inr (([''h96-max'', ''h96''], [(v, l), (Table [(''hostname'', Str ''h96''),
      (''packages'', Array [Str ''rfkill'', Str ''iw'']), (''initramfs'', Table [(''modules'', Array [Str ''nvme''])])], 0, ''devices/h96.toml'')]), None)"
  "walk_step [demo_root] s ([], []) ''loop'' = Inr (([''loop''], [(Table [(''extends'', Str ''loop2'')], 0, ''devices/loop.toml'')]), Some ''loop2'')"
  "walk_step [demo_root] s ([''loop''], [(v, l)]) ''loop2'' = Inr (([''loop'', ''loop2''], [(v, l), (Table [], 0, ''devices/loop2.toml'')]), Some ''loop'')"
  "walk_step [demo_root] ''loop'' ([''loop'', ''loop2''], c) ''loop'' = Inl (DeviceExtendsCycle ''loop'' [''loop'', ''loop2'', ''loop''])"
  by code_simp+

lemma demo_device: "device_value [demo_root] ''h96-max'' = Some (Inr (h96_max, [''h96'', ''h96-max'']))"
proof -
  have "finish_device ([''h96-max'', ''h96''], [(Table [(''extends'', Str ''h96''), (''hostname'', Str ''h96-max''),
      (''packages'', Array [Str ''iw'', Str ''lm-sensors''])], 0, ''devices/h96-max.toml''), (Table [(''hostname'', Str ''h96''),
      (''packages'', Array [Str ''rfkill'', Str ''iw'']), (''initramfs'', Table [(''modules'', Array [Str ''nvme''])])], 0, ''devices/h96.toml'')])
    = Inr (h96_max, [''h96'', ''h96-max''])" by code_simp
  then show ?thesis by (simp add: device_value_def walk_extends.simps demo_steps)
qed

lemma demo_finite: "finite {rel. \<exists>r \<in> set [demo_root]. file_exists r rel}"
  by (rule finite_subset[of _ "{''devices/h96.toml'', ''devices/h96-max.toml'', ''devices/loop.toml'', ''devices/loop2.toml''}"])
    (auto simp: file_exists_def demo_root_def split: if_splits)

theorem device_walk_terminates_witness:
  "device_value [demo_root] ''h96-max'' = Some (Inr (h96_max, [''h96'', ''h96-max'']))
   \<and> extends_path [demo_root] [''h96-max'', ''h96'']
   \<and> device_value [demo_root] ''loop'' = Some (Inl (DeviceExtendsCycle ''loop'' [''loop'', ''loop2'', ''loop'']))
   \<and> (\<exists>r. device_value [demo_root] ''h96-max'' = Some r)"
proof -
  note t = device_walk_terminates[OF demo_finite, of "''h96-max''"]
  have "extends_path [demo_root] (rev [''h96'', ''h96-max''])" using t demo_device by auto
  moreover have "device_value [demo_root] ''loop'' = Some (Inl (DeviceExtendsCycle ''loop'' [''loop'', ''loop2'', ''loop'']))"
    by (simp add: device_value_def walk_extends.simps demo_steps)
  ultimately show ?thesis using demo_device by simp
qed

text \<open>The additive keys of a device accumulate along its \<open>extends\<close> chain: where any level
  declares the key, every level that has it has an array there, and the value in the result is
  those arrays joined base-most first with repeats dropped, so a variant never loses an entry
  it inherits. For the key inside the \<open>initramfs\<close> table that holds where the merge left a
  table.\<close>

theorem accumulated_entries:
  assumes "device_value roots s = Some (Inr (v, lineage))" "key \<in> set ACCUMULATED"
    and "is_table v" "length (split (CHR ''.'') key) = 2 \<longrightarrow> (\<exists>t. toml_get v (key_head key) = Some (Table t))"
    and "n \<in> set lineage" "device_file roots n = Some w" "at_key w key \<noteq> None"
  shows "(\<exists>es. at_key w key = Some (Array es)) \<and>
    at_key v key = Some (Array (dedup_on canon (concat (map (level_entries key \<circ> the \<circ> device_file roots) lineage))))"
proof -
  from assms(1) obtain st where walk: "walk_extends roots s ([], []) s = Some (Inr st)" and fin: "finish_device st = Inr (v, lineage)"
    by (auto simp: device_value_def split: option.splits sum.splits)
  obtain lin chain where st: "st = (lin, chain)" by (cases st)
  from walk_result[OF walk] have lv: "list_all2 (level_of roots) lin chain" by (auto simp: walk_ok_def st)
  from fin obtain acc where acc: "accumulate_keys (rev chain) ACCUMULATED = Inr acc" "lineage = rev lin"
    "v = write_accumulated (merge_chain chain) acc"
    by (auto simp: finish_device_def st accumulated_arrays_def)
  note k = accumulate_keys_Inr[OF acc(1)]
  note cl = chain_levels[OF lv assms(2)]
  then have ents: "map (\<lambda>lv. level_entries key (fst lv)) (rev chain) = map (level_entries key \<circ> the \<circ> device_file roots) lineage"
    by (simp add: acc(2) rev_map[symmetric])
  obtain l where seen: "l \<in> set (rev chain)" "at_key (fst l) key = at_key w key"
    using cl assms(5,6) unfolding acc(2) by force
  have "key \<in> set (map fst acc)"
    unfolding conjunct1[OF k] using seen assms(2,7) by (auto intro!: bexI[of _ l])
  then obtain es where es: "(key, es) \<in> set acc" by auto
  have es_eq: "es = dedup_on canon (concat (map (level_entries key \<circ> the \<circ> device_file roots) lineage))"
    using k es ents by fastforce
  have d: "distinct (map (key_head \<circ> fst) acc)"
    using distinct_heads_filter[OF accumulated_heads(1)] unfolding map_map[symmetric] conjunct1[OF k] .
  obtain t where t: "merge_chain chain = Table t"
    using assms(3) acc(3) by (cases "merge_chain chain") (auto simp: write_accumulated_def)
  have h: "toml_get v (key_head key) = written (tl (split (CHR ''.'') key)) es (map_of t (key_head key))"
    using write_all_at[OF d es, of t] by (simp add: acc(3) t write_accumulated_def)
  have "at_key v key = Some (Array es)" by (rule written_at[OF h assms(2,4)])
  moreover have "at_key w key = None \<or> (\<exists>es. at_key w key = Some (Array es))"
    using conjunct2[OF conjunct2[OF k]] seen assms(2) by metis
  ultimately show ?thesis using assms(7) es_eq by auto
qed

theorem accumulated_entries_witness:
  "at_key h96_max ''packages'' = Some (Array [Str ''rfkill'', Str ''iw'', Str ''lm-sensors''])"
proof -
  have f: "device_file [demo_root] ''h96'' = Some (Table [(''hostname'', Str ''h96''), (''packages'', Array [Str ''rfkill'', Str ''iw'']),
          (''initramfs'', Table [(''modules'', Array [Str ''nvme''])])])"
    "device_file [demo_root] ''h96-max'' = Some (Table [(''extends'', Str ''h96''), (''hostname'', Str ''h96-max''),
          (''packages'', Array [Str ''iw'', Str ''lm-sensors''])])"
    by code_simp+
  have "at_key h96_max ''packages'' = Some (Array (dedup_on canon
      (concat (map (level_entries ''packages'' \<circ> the \<circ> device_file [demo_root]) [''h96'', ''h96-max'']))))"
    using accumulated_entries[OF demo_device _ _ _ _ f(1), of "''packages''"]
    by (simp add: ACCUMULATED_def h96_max_def at_key_def)
  then show ?thesis by (simp add: f level_entries_def at_key_def)
qed

text \<open>C22. What a layer read from the search path says: it is the fold of the documents the roots
  hold at its path, lowest root first, and has no repeated key when they have none. A value
  other than a table is the result's value at its path when its document is the highest that
  says anything about that path; and a path the documents of the higher roots say nothing about
  has the value of the merge of the lower ones.\<close>

theorem overlay_precedence:
  assumes "merge_value roots k s rel = Inr (v, i, path)" "\<forall>d \<in> set (documents roots rel). wf_toml d"
  shows "merge_all (documents roots rel) = Some v \<and> wf_toml v
    \<and> (\<forall>lower d higher p x. documents roots rel = lower @ d # higher \<and> get_segments d p = Some x \<and> \<not> is_table x
         \<and> (\<forall>h \<in> set higher. untouched h p) \<longrightarrow> get_segments v p = Some x)
    \<and> (\<forall>lower higher p. documents roots rel = lower @ higher \<and> lower \<noteq> [] \<and> (\<forall>h \<in> set higher. untouched h p)
         \<longrightarrow> get_segments v p = Option.bind (merge_all lower) (\<lambda>u. get_segments u p))"
proof -
  have m: "merge_all (documents roots rel) = Some v" using merge_value_Inr[OF assms(1)] by blast
  have "get_segments v p = Some x"
    if d: "documents roots rel = lower @ d # higher" "get_segments d p = Some x" "\<not> is_table x"
      "\<forall>h \<in> set higher. untouched h p" for lower d higher p x
  proof -
    let ?u = "case merge_all lower of None \<Rightarrow> d | Some b \<Rightarrow> merge_toml b d"
    have "v = foldl merge_toml ?u higher" using m by (simp add: d(1) merge_all_split)
    then have "get_segments v p = get_segments ?u p" using foldl_untouched d(1,4) assms(2) by auto
    moreover have "get_segments ?u p = Some x"
      using merge_leaf_wins[of d p x] d(1-3) assms(2) by (simp split: option.split)
    ultimately show ?thesis by simp
  qed
  moreover have "get_segments v p = Option.bind (merge_all lower) (\<lambda>u. get_segments u p)"
    if d: "documents roots rel = lower @ higher" "lower \<noteq> []" "\<forall>h \<in> set higher. untouched h p" for lower higher p
  proof -
    obtain u where u: "merge_all lower = Some u" "v = foldl merge_toml u higher"
      using m d(1,2) by (cases lower) (simp_all add: merge_all_Cons)
    with foldl_untouched[of higher p u] d(1,3) assms(2) show ?thesis by simp
  qed
  moreover have "wf_toml v" using merge_all_wf[OF m assms(2)] .
  ultimately show ?thesis using m by blast
qed

theorem overlay_precedence_witness:
  "let base = Table [(''a'', Integer 1), (''t'', Table [(''x'', Str ''lo''), (''y'', Array [Integer 1])])];
       over = Table [(''t'', Table [(''x'', Str ''hi'')])];
       v = merge_toml base over in
   merge_value [\<lambda>_. Parsed base, \<lambda>_. Missing, \<lambda>_. Parsed over] ''soc'' ''rk'' ''socs/rk.toml'' = Inr (v, 2, ''socs/rk.toml'')
   \<and> get_segments v [''t'', ''x''] = Some (Str ''hi'') \<and> get_segments v [''t'', ''y''] = Some (Array [Integer 1])"
proof -
  let ?base = "Table [(''a'', Integer 1), (''t'', Table [(''x'', Str ''lo''), (''y'', Array [Integer 1])])]"
  let ?over = "Table [(''t'', Table [(''x'', Str ''hi'')])]"
  let ?roots = "[\<lambda>_. Parsed ?base, \<lambda>_. Missing, \<lambda>_. Parsed ?over]"
  have m: "merge_value ?roots ''soc'' ''rk'' ''socs/rk.toml'' = Inr (merge_toml ?base ?over, 2, ''socs/rk.toml'')"
    by (simp add: merge_value_def)
  have d: "documents ?roots ''socs/rk.toml'' = [?base, ?over]" by (simp add: documents_def)
  then have w: "\<forall>d \<in> set (documents ?roots ''socs/rk.toml''). wf_toml d" by simp
  note o = overlay_precedence[OF m w, unfolded d]
  have "get_segments (merge_toml ?base ?over) [''t'', ''x''] = Some (Str ''hi'')"
    using conjunct1[OF conjunct2[OF conjunct2[OF o]], rule_format, of "[?base]" ?over "[]" "[''t'', ''x'']" "Str ''hi''"] by simp
  moreover have "get_segments (merge_toml ?base ?over) [''t'', ''y''] = Some (Array [Integer 1])"
    using conjunct2[OF conjunct2[OF conjunct2[OF o]], rule_format, of "[?base]" "[?over]" "[''t'', ''y'']"]
    by (simp add: merge_all_def)
  ultimately show ?thesis using m by (simp only: Let_def simp_thms)
qed

text \<open>C35. A lookup answers the highest root that holds the path, whatever the asset, and nothing when
  no root does; a merged layer is attributed to that root. A trust anchor is refused with an
  error as soon as any overlay has a copy, is otherwise the shipped tree's or absent, and is
  looked up like any asset only when an overlay is explicitly allowed.\<close>

theorem search_path_lookup:
  "(\<forall>j. find_asset roots rel = Some j \<longleftrightarrow> j < length roots \<and> file_exists (roots ! j) rel
        \<and> (\<forall>l. j < l \<and> l < length roots \<longrightarrow> \<not> file_exists (roots ! l) rel))
   \<and> (find_asset roots rel = None \<longleftrightarrow> (\<forall>r \<in> set roots. \<not> file_exists r rel))
   \<and> (\<forall>k s v i path. merge_value roots k s rel = Inr (v, i, path) \<longrightarrow> find_asset roots rel = Some i \<and> path = rel)
   \<and> find_trust_anchor roots rel True = Inr (find_asset roots rel)
   \<and> (roots \<noteq> [] \<longrightarrow> find_trust_anchor roots rel False =
        (if \<exists>j. 0 < j \<and> j < length roots \<and> file_exists (roots ! j) rel then Inl (OverlayTrustAnchor rel)
         else Inr (if file_exists (roots ! 0) rel then Some 0 else None)))"
proof (intro conjI allI impI)
  show "find_asset roots rel = Some j \<longleftrightarrow> j < length roots \<and> file_exists (roots ! j) rel
      \<and> (\<forall>l. j < l \<and> l < length roots \<longrightarrow> \<not> file_exists (roots ! l) rel)" for j
    by (rule find_asset_Some)
  show "find_asset roots rel = None \<longleftrightarrow> (\<forall>r \<in> set roots. \<not> file_exists r rel)"
    by (rule find_asset_None)
next
  fix k s v i path assume "merge_value roots k s rel = Inr (v, i, path)"
  from merge_value_Inr[OF this] show "find_asset roots rel = Some i" "path = rel" by blast+
next
  show "find_trust_anchor roots rel True = Inr (find_asset roots rel)" by (simp add: find_trust_anchor_def)
next
  assume "roots \<noteq> []"
  then obtain r rs where r: "roots = r # rs" by (cases roots) auto
  have e: "list_ex (\<lambda>r. file_exists r rel) rs \<longleftrightarrow> (\<exists>j. 0 < j \<and> j < length roots \<and> file_exists (roots ! j) rel)"
  proof
    assume "list_ex (\<lambda>r. file_exists r rel) rs"
    then obtain n where "n < length rs" "file_exists (rs ! n) rel" by (auto simp: list_ex_length)
    then show "\<exists>j. 0 < j \<and> j < length roots \<and> file_exists (roots ! j) rel"
      by (intro exI[of _ "Suc n"]) (simp add: r)
  next
    assume "\<exists>j. 0 < j \<and> j < length roots \<and> file_exists (roots ! j) rel"
    then obtain n where "n < length rs" "file_exists (rs ! n) rel" by (auto simp: r gr0_conv_Suc)
    then show "list_ex (\<lambda>r. file_exists r rel) rs" by (auto simp: list_ex_length)
  qed
  show "find_trust_anchor roots rel False =
      (if \<exists>j. 0 < j \<and> j < length roots \<and> file_exists (roots ! j) rel then Inl (OverlayTrustAnchor rel)
       else Inr (if file_exists (roots ! 0) rel then Some 0 else None))"
    unfolding e[symmetric] by (simp add: find_trust_anchor_def r)
qed

theorem search_path_lookup_witness:
  "find_trust_anchor [demo_root, \<lambda>_. Missing] ''devices/h96.toml'' False = Inr (Some 0)
   \<and> find_trust_anchor [demo_root, demo_root] ''devices/h96.toml'' False = Inl (OverlayTrustAnchor ''devices/h96.toml'')"
proof -
  have f: "file_exists demo_root ''devices/h96.toml''" "\<not> file_exists (\<lambda>_. Missing) ''devices/h96.toml''"
    by (simp_all add: file_exists_def demo_root_def)
  have "\<exists>j. 0 < j \<and> j < length [demo_root, demo_root] \<and> file_exists ([demo_root, demo_root] ! j) ''devices/h96.toml''"
    using f(1) by (intro exI[of _ 1]) simp
  moreover have "\<not> (\<exists>j. 0 < j \<and> j < length [demo_root, \<lambda>_. Missing] \<and> file_exists ([demo_root, \<lambda>_. Missing] ! j) ''devices/h96.toml'')"
    using f(2) by (auto simp: less_Suc_eq)
  ultimately show ?thesis
    using search_path_lookup[of "[demo_root, \<lambda>_. Missing]" "''devices/h96.toml''"]
      search_path_lookup[of "[demo_root, demo_root]" "''devices/h96.toml''"] f(1) by simp
qed

text \<open>C36. No accepted name reaches outside the directory it is joined onto: a layer name and a
  device name name a file directly in theirs, a recipe reference and the lock path of a build
  reference stay inside \<open>recipes\<close>, whatever characters the name has.\<close>

theorem names_confined:
  "(validate_name k s = Inr () \<longrightarrow> join_path dir s = dir @ [s]) \<and>
   (validate_device_name s = Inr () \<longrightarrow> join_path dir s = dir @ [s]) \<and>
   (validate_recipe_ref s = Inr () \<longrightarrow> inside dir s) \<and>
   (lock_path roots s = Inr (i, path) \<longrightarrow> inside [''recipes''] (s @ ''.lock'') \<and> path = ''recipes/'' @ s @ ''.lock'' \<and>
      (roots \<noteq> [] \<longrightarrow> i < length roots))"
proof -
  have l: "inside [''recipes''] (s @ ''.lock'')" if "validate_build_ref s = Inr ()"
  proof -
    obtain r fs where s: "split FEATURE_SEP s = r # fs" by (cases "split FEATURE_SEP s") auto
    from that have v: "validate_recipe_ref r = Inr ()" "\<forall>f \<in> set fs. is_bare_name f"
      by (auto simp: validate_build_ref_def s)
    have "CHR ''/'' \<notin> set (feature_suffix fs @ ''.lock'')"
      using v(2) bare_name_no_sep by (auto simp: feature_suffix_def)
    moreover have "s = r @ feature_suffix fs"
      using join_feature_suffix[of r fs] join_split[of FEATURE_SEP s] unfolding s by (simp add: FEATURE_SEP_def)
    ultimately show ?thesis using recipe_ref_suffix[OF v(1)] by simp
  qed
  have "i < length roots" if "lock_path roots s = Inr (i, path)" "roots \<noteq> []"
    using that find_asset_Some[of roots "''recipes/'' @ recipe_half s @ ''.toml''" i]
    by (auto simp: lock_path_def owning_root_def find_asset_def split: option.splits)
  then show ?thesis
    using bare_guard.lands_directly device_name_bare recipe_guard.stays_inside l
    by (auto simp: lock_path_def)
qed

theorem names_confined_witness:
  "validate_name ''kernel'' ''rk3588-mainline-7.1'' = Inr ()
   \<and> join_path [''kernels''] ''rk3588-mainline-7.1'' = [''kernels'', ''rk3588-mainline-7.1'']
   \<and> lock_path [demo_root] ''turing-rk1/forky+jellyfin'' = Inr (0, ''recipes/turing-rk1/forky+jellyfin.lock'')
   \<and> inside [''recipes''] (''turing-rk1/forky+jellyfin'' @ ''.lock'')
   \<and> lock_path [demo_root] ''../forky'' \<noteq> Inr (0, ''recipes/../forky.lock'')"
proof -
  have v: "validate_name ''kernel'' ''rk3588-mainline-7.1'' = Inr ()"
    and l: "lock_path [demo_root] ''turing-rk1/forky+jellyfin'' = Inr (0, ''recipes/turing-rk1/forky+jellyfin.lock'')"
    and n: "lock_path [demo_root] ''../forky'' \<noteq> Inr (0, ''recipes/../forky.lock'')"
    by code_simp+
  note c = names_confined[of "''kernel''" "''rk3588-mainline-7.1''" "[''kernels'']" "[]"]
    names_confined[of "''recipe''" "''turing-rk1/forky+jellyfin''" "[]" "[demo_root]"]
  have "join_path [''kernels''] ''rk3588-mainline-7.1'' = [''kernels'', ''rk3588-mainline-7.1'']"
    using c(1) v by simp
  moreover have "inside [''recipes''] (''turing-rk1/forky+jellyfin'' @ ''.lock'')" using c(2) l by blast
  ultimately show ?thesis using v l n by blast
qed

end
