(* ===== verification/Buildpoint.thy ===== *)
theory Buildpoint
  imports Loader
begin

text \<open>
  \<open>crates/core/src/buildpoint.rs\<close>: a recipe with the feature selection it is built with, the
  reference that spells the pair, and the stem its artifacts are named for.
\<close>

section \<open>Build points\<close>

record BuildPoint =
  bp_recipe :: string
  bp_features :: "string list"

datatype point_error = PointName loader_error | DuplicateFeature string

fun check_features :: "string set \<Rightarrow> string list \<Rightarrow> point_error + unit" where
  "check_features seen [] = Inr ()"
| "check_features seen (f # fs) =
     (case validate_name ''feature'' f of
        Inl e \<Rightarrow> Inl (PointName e)
      | Inr _ \<Rightarrow> if f \<in> seen then Inl (DuplicateFeature f) else check_features (insert f seen) fs)"

definition bp_new :: "string \<Rightarrow> string list \<Rightarrow> point_error + BuildPoint" where
  "bp_new recipe features =
     (case validate_recipe_ref recipe of
        Inl e \<Rightarrow> Inl (PointName e)
      | Inr _ \<Rightarrow> bind_r (check_features {} features) (\<lambda>_. Inr \<lparr>bp_recipe = recipe, bp_features = features\<rparr>))"

definition bp_parse :: "string \<Rightarrow> point_error + BuildPoint" where
  "bp_parse ref = bp_new (hd (split FEATURE_SEP ref)) (tl (split FEATURE_SEP ref))"

definition is_variant :: "BuildPoint \<Rightarrow> bool" where
  "is_variant p \<longleftrightarrow> bp_features p \<noteq> []"

definition reference :: "BuildPoint \<Rightarrow> string" where
  "reference p =
     (if bp_features p = [] then bp_recipe p
      else bp_recipe p @ [FEATURE_SEP] @ join [FEATURE_SEP] (bp_features p))"

definition feature_override :: "BuildPoint \<Rightarrow> string list option" where
  "feature_override p = (if bp_features p \<noteq> [] then Some (bp_features p) else None)"

definition artifact_stem :: "BuildPoint \<Rightarrow> string" where
  "artifact_stem p = map (\<lambda>c. if c = CHR ''/'' then CHR ''-'' else c) (reference p)"

section \<open>Lemmas\<close>

text \<open>The points the constructor can build.\<close>

definition point_ok :: "BuildPoint \<Rightarrow> bool" where
  "point_ok p \<longleftrightarrow> validate_recipe_ref (bp_recipe p) = Inr () \<and>
     (\<forall>f \<in> set (bp_features p). is_bare_name f) \<and> distinct (bp_features p)"

lemma check_features_Inr:
  "check_features seen fs = Inr () \<longleftrightarrow> (\<forall>f \<in> set fs. is_bare_name f) \<and> distinct fs \<and> set fs \<inter> seen = {}"
proof (induction fs arbitrary: seen)
  case (Cons f fs)
  have "validate_name k f = Inr () \<or> (\<exists>e. validate_name k f = Inl e \<and> \<not> is_bare_name f)" for k
    by (simp add: validate_name_def)
  then show ?case using Cons by (auto simp: validate_name_def split: if_splits)
qed simp

lemma bp_new_Inr: "bp_new recipe features = Inr p \<longleftrightarrow> p = \<lparr>bp_recipe = recipe, bp_features = features\<rparr> \<and> point_ok p"
  by (auto simp: bp_new_def point_ok_def check_features_Inr split: sum.splits)

lemma recipe_ref_no_plus: "validate_recipe_ref s = Inr () \<Longrightarrow> FEATURE_SEP \<notin> set s"
  using bare_name_no_sep by (fastforce simp: recipe_ref_Inr FEATURE_SEP_def)

lemma reference_join: "reference p = join [FEATURE_SEP] (bp_recipe p # bp_features p)"
  by (cases "bp_features p") (simp_all add: reference_def)

lemma split_reference:
  assumes "point_ok p"
  shows "split FEATURE_SEP (reference p) = bp_recipe p # bp_features p"
proof -
  have "\<forall>q \<in> set (bp_recipe p # bp_features p). FEATURE_SEP \<notin> set q"
    using assms recipe_ref_no_plus bare_name_no_sep by (auto simp: point_ok_def FEATURE_SEP_def)
  then show ?thesis unfolding reference_join by (intro split_join) auto
qed

interpretation point: codec reference "\<lambda>s. ok (bp_parse s)" point_ok
proof unfold_locales
  show "ok (bp_parse (reference p)) = Some p" if "point_ok p" for p
    using split_reference[OF that] that by (simp add: bp_parse_def bp_new_Inr)
qed

section \<open>Properties\<close>

text \<open>C26. The reference of a build point parses back to it, and a text that parses is the
  reference of the point it parses to; so two points with one reference are equal, the
  feature order included, and a reference is accepted as a name for a lock exactly when it
  parses, up to the check for repeated features.\<close>

theorem reference_roundtrip:
  "(bp_new recipe features = Inr p \<longrightarrow> bp_parse (reference p) = Inr p) \<and>
   (bp_parse ref = Inr p \<longrightarrow> reference p = ref \<and> distinct (bp_features p)) \<and>
   (validate_build_ref ref = Inr () \<and> distinct (tl (split FEATURE_SEP ref)) \<longleftrightarrow> (\<exists>p. bp_parse ref = Inr p))"
proof (intro conjI impI)
  show "bp_parse (reference p) = Inr p" if "bp_new recipe features = Inr p"
    using that point.decode_encode[of p] unfolding bp_new_Inr ok_eq_Some by blast
  have r: "hd (split FEATURE_SEP ref) # tl (split FEATURE_SEP ref) = split FEATURE_SEP ref"
    by (cases "split FEATURE_SEP ref") auto
  show "reference p = ref" "distinct (bp_features p)" if "bp_parse ref = Inr p"
    using that join_split[of FEATURE_SEP ref] r
    by (auto simp: bp_parse_def bp_new_Inr reference_join point_ok_def)
  show "validate_build_ref ref = Inr () \<and> distinct (tl (split FEATURE_SEP ref)) \<longleftrightarrow> (\<exists>p. bp_parse ref = Inr p)"
    by (auto simp: bp_parse_def bp_new_Inr point_ok_def validate_build_ref_def)
qed

theorem reference_roundtrip_witness:
  "\<exists>p. bp_parse ''turing-rk1/forky+media-accel+jellyfin'' = Inr p \<and> bp_features p = [''media-accel'', ''jellyfin'']
     \<and> bp_parse (reference p) = Inr p"
proof -
  let ?p = "\<lparr>bp_recipe = ''turing-rk1/forky'', bp_features = [''media-accel'', ''jellyfin'']\<rparr>"
  have p: "bp_parse ''turing-rk1/forky+media-accel+jellyfin'' = Inr ?p" by code_simp
  have n: "bp_new ''turing-rk1/forky'' [''media-accel'', ''jellyfin''] = Inr ?p" by code_simp
  show ?thesis using p reference_roundtrip[of "''turing-rk1/forky''" _ ?p] n by (intro exI[of _ ?p]) simp
qed

text \<open>The artifact stem does not tell build points apart: two different recipes that resolve
  can publish under the same stem, because the separator of device and leaf is flattened to a
  character both may contain; without such a hyphen in a recipe's parts it does.\<close>

theorem artifact_stem_collides:
  "(\<exists>p q. bp_parse ''h96-max/forky'' = Inr p \<and> bp_parse ''h96/max-forky'' = Inr q \<and> p \<noteq> q \<and> artifact_stem p = artifact_stem q)
   \<and> (\<forall>p q. point_ok p \<and> point_ok q \<and> CHR ''-'' \<notin> set (reference p) \<union> set (reference q) \<and>
        artifact_stem p = artifact_stem q \<longrightarrow> p = q)"
proof (intro conjI allI impI)
  let ?p = "\<lparr>bp_recipe = ''h96-max/forky'', bp_features = []\<rparr>" and ?q = "\<lparr>bp_recipe = ''h96/max-forky'', bp_features = []\<rparr>"
  have "bp_parse ''h96-max/forky'' = Inr ?p" "bp_parse ''h96/max-forky'' = Inr ?q" "artifact_stem ?p = artifact_stem ?q"
    by code_simp+
  moreover have "?p \<noteq> ?q" by simp
  ultimately show "\<exists>p q. bp_parse ''h96-max/forky'' = Inr p \<and> bp_parse ''h96/max-forky'' = Inr q \<and> p \<noteq> q \<and> artifact_stem p = artifact_stem q"
    by blast
  fix p q
  assume a: "point_ok p \<and> point_ok q \<and> CHR ''-'' \<notin> set (reference p) \<union> set (reference q) \<and> artifact_stem p = artifact_stem q"
  let ?f = "\<lambda>c. if c = CHR ''/'' then CHR ''-'' else c"
  have "inj_on ?f (set (reference p) \<union> set (reference q))" using a by (auto simp: inj_on_def)
  then have "reference p = reference q"
    using a unfolding artifact_stem_def by (auto intro: map_inj_on)
  then show "p = q" using a point.encode_inj by blast
qed

theorem artifact_stem_collides_witness:
  "\<exists>p q. p \<noteq> q \<and> artifact_stem p = artifact_stem q"
  using artifact_stem_collides by blast

end
