(* ===== verification/Features.thy ===== *)
theory Features
  imports Layers "HOL-Library.List_Lexorder" "HOL-Library.Char_ord"
begin

text \<open>
  \<open>crates/core/src/feature.rs\<close>: the gates on a feature selection (system on chip, architecture,
  conflicts, capabilities) and what the selected features contribute to the kernel. A selection
  is the list of the selected features in recipe order, each under its name.
\<close>

type_synonym selection = "(string \<times> Feature) list"

datatype feature_error =
    IncompatibleFeatureSoc string Soc "Soc list"
  | IncompatibleFeatureArch string Arch "Arch list"
  | ConflictingFeatures string string
  | MissingCapability string string "string list"

section \<open>Gates\<close>

definition supports_soc :: "Feature \<Rightarrow> Soc \<Rightarrow> bool" where
  "supports_soc f soc \<longleftrightarrow> ft_requires_soc f = [] \<or> soc \<in> set (ft_requires_soc f)"

definition supports_arch :: "Feature \<Rightarrow> Arch \<Rightarrow> bool" where
  "supports_arch f arch \<longleftrightarrow> ft_requires_arch f = [] \<or> arch \<in> set (ft_requires_arch f)"

definition ensure_supports_soc :: "Feature \<Rightarrow> string \<Rightarrow> Soc \<Rightarrow> feature_error + unit" where
  "ensure_supports_soc f n soc =
     (if supports_soc f soc then Inr () else Inl (IncompatibleFeatureSoc n soc (ft_requires_soc f)))"

definition ensure_supports_arch :: "Feature \<Rightarrow> string \<Rightarrow> Arch \<Rightarrow> feature_error + unit" where
  "ensure_supports_arch f n arch =
     (if supports_arch f arch then Inr () else Inl (IncompatibleFeatureArch n arch (ft_requires_arch f)))"

fun ensure_no_conflicts :: "selection \<Rightarrow> feature_error + unit" where
  "ensure_no_conflicts [] = Inr ()"
| "ensure_no_conflicts ((a_name, a) # rest) =
     (case find (\<lambda>(b_name, b). b_name \<in> set (ft_conflicts a) \<or> a_name \<in> set (ft_conflicts b)) rest of
        Some (b_name, _) \<Rightarrow> Inl (ConflictingFeatures a_name b_name)
      | None \<Rightarrow> ensure_no_conflicts rest)"

definition providers_of :: "(string \<times> string list) list \<Rightarrow> string \<Rightarrow> string list" where
  "providers_of known_providers capability =
     sort_by cmp (map fst (filter (\<lambda>(_, provides). capability \<in> set provides) known_providers))"

fun check_capabilities ::
  "selection \<Rightarrow> (string \<times> string list) list \<Rightarrow> string \<Rightarrow> string list \<Rightarrow> feature_error + unit" where
  "check_capabilities selected known_providers n [] = Inr ()"
| "check_capabilities selected known_providers n (capability # cs) =
     (if list_ex (\<lambda>(_, f). capability \<in> set (ft_provides f)) selected
      then check_capabilities selected known_providers n cs
      else Inl (MissingCapability n capability (providers_of known_providers capability)))"

fun check_selected ::
  "selection \<Rightarrow> (string \<times> string list) list \<Rightarrow> selection \<Rightarrow> feature_error + unit" where
  "check_selected selected known_providers [] = Inr ()"
| "check_selected selected known_providers ((n, f) # fs) =
     bind_r (check_capabilities selected known_providers n (ft_requires_capability f))
       (\<lambda>_. check_selected selected known_providers fs)"

definition ensure_capabilities_satisfied ::
  "selection \<Rightarrow> (string \<times> string list) list \<Rightarrow> feature_error + unit" where
  "ensure_capabilities_satisfied selected known_providers = check_selected selected known_providers selected"

section \<open>What a selection asks for\<close>

definition first_requiring_media_accel :: "selection \<Rightarrow> string option" where
  "first_requiring_media_accel selected = map_option fst (find (\<lambda>(_, f). ft_requires_media_accel f) selected)"

definition first_enabling_ffmpeg_nonfree :: "selection \<Rightarrow> string option" where
  "first_enabling_ffmpeg_nonfree selected = map_option fst (find (\<lambda>(_, f). ft_ffmpeg_nonfree f) selected)"

definition keep_first :: "string list \<Rightarrow> string list" where
  "keep_first items = snd (foldl (push_new (\<lambda>s. s)) ({}, []) items)"

definition kernel_contributions :: "selection \<Rightarrow> string list \<times> string list" where
  "kernel_contributions selected =
     (keep_first (concat (map (\<lambda>(_, f). ft_config_fragments f) selected)),
      keep_first (concat (map (\<lambda>(_, f). ft_patch_series f) selected)))"

fun first_contributing_kernel_input :: "selection \<Rightarrow> (string \<times> string) option" where
  "first_contributing_kernel_input [] = None"
| "first_contributing_kernel_input ((n, f) # fs) =
     (if ft_config_fragments f \<noteq> [] then Some (n, ''config_fragments'')
      else if ft_patch_series f \<noteq> [] then Some (n, ''patch_series'')
      else first_contributing_kernel_input fs)"

section \<open>Lemmas\<close>

definition clash :: "string \<times> Feature \<Rightarrow> string \<times> Feature \<Rightarrow> bool" where
  "clash p q \<longleftrightarrow> fst q \<in> set (ft_conflicts (snd p)) \<or> fst p \<in> set (ft_conflicts (snd q))"

lemma clash_sym: "clash p q \<longleftrightarrow> clash q p"
  by (auto simp: clash_def)

lemma no_conflicts_Inr: "ensure_no_conflicts sel = Inr () \<longleftrightarrow> sorted_wrt (\<lambda>p q. \<not> clash p q) sel"
proof (induction sel)
  case (Cons p sel)
  obtain n f where p: "p = (n, f)" by (cases p)
  show ?case
  proof (cases "find (\<lambda>(b_name, b). b_name \<in> set (ft_conflicts f) \<or> n \<in> set (ft_conflicts b)) sel")
    case None
    then have "\<forall>q \<in> set sel. \<not> clash p q" by (auto simp: find_None_iff p clash_def)
    with None Cons show ?thesis by (simp add: p)
  next
    case (Some q)
    then have "q \<in> set sel \<and> clash p q" by (auto simp: find_Some_iff p clash_def in_set_conv_nth)
    with Some show ?thesis by (cases q) (auto simp: p)
  qed
qed simp

lemma sorted_wrt_mset:
  assumes "\<And>x y. R x y \<longleftrightarrow> R y x" "mset xs = mset ys" "sorted_wrt R xs"
  shows "sorted_wrt R ys"
  using assms(2,3)
proof (induction xs arbitrary: ys)
  case (Cons x xs)
  then have "x \<in> set ys" using mset_eq_setD[of "x # xs" ys] by auto
  then obtain as bs where ys: "ys = as @ x # bs" using split_list by fast
  then have m: "mset xs = mset (as @ bs)" using Cons.prems(1) by simp
  then have "sorted_wrt R (as @ bs)" using Cons by simp
  moreover have "\<forall>y \<in> set (as @ bs). R x y" using Cons.prems(2) mset_eq_setD[OF m] by auto
  ultimately show ?case using assms(1) by (auto simp: ys sorted_wrt_append)
qed simp

lemma check_capabilities_Inr:
  "check_capabilities sel known n cs = Inr () \<longleftrightarrow> (\<forall>c \<in> set cs. \<exists>(_, g) \<in> set sel. c \<in> set (ft_provides g))"
  by (induction cs) (auto simp: list_ex_iff)

lemma check_capabilities_Inl:
  "check_capabilities sel known n cs = Inl e \<Longrightarrow>
     \<exists>c \<in> set cs. e = MissingCapability n c (providers_of known c) \<and> \<not> (\<exists>(_, g) \<in> set sel. c \<in> set (ft_provides g))"
  by (induction cs) (auto simp: list_ex_iff split: if_splits)

lemma check_selected_Inr:
  "check_selected sel known fs = Inr () \<longleftrightarrow>
     (\<forall>(_, f) \<in> set fs. \<forall>c \<in> set (ft_requires_capability f). \<exists>(_, g) \<in> set sel. c \<in> set (ft_provides g))"
  by (induction fs) (auto simp: check_capabilities_Inr)

lemma check_selected_Inl:
  "check_selected sel known fs = Inl e \<Longrightarrow>
     \<exists>(n, f) \<in> set fs. \<exists>c \<in> set (ft_requires_capability f). e = MissingCapability n c (providers_of known c) \<and>
        \<not> (\<exists>(_, g) \<in> set sel. c \<in> set (ft_provides g))"
proof (induction fs)
  case (Cons p fs)
  obtain n f where p: "p = (n, f)" by (cases p)
  show ?case
  proof (cases "check_capabilities sel known n (ft_requires_capability f)")
    case (Inl e')
    with Cons.prems have "e = e'" by (simp add: p)
    with check_capabilities_Inl[OF Inl] show ?thesis by (auto simp: p)
  next
    case (Inr u)
    with Cons show ?thesis by (fastforce simp: p)
  qed
qed simp

lemma keep_first_eq: "keep_first xs = dedup_on (\<lambda>s. s) xs"
  by (simp add: keep_first_def foldl_push_new)

section \<open>Properties\<close>

text \<open>C18. The verdict on a feature selection does not depend on the order it is written in nor
  on the side that declares a conflict: it is refused when two selected features conflict in
  either direction, and when a capability one of them requires is provided by none; the error
  then names the requirement and, in order, the features of the tree that provide it.\<close>

theorem selection_gates:
  "(ensure_no_conflicts sel = Inr () \<longleftrightarrow>
      (\<forall>i j. i < j \<and> j < length sel \<longrightarrow> fst (sel ! j) \<notin> set (ft_conflicts (snd (sel ! i))) \<and> fst (sel ! i) \<notin> set (ft_conflicts (snd (sel ! j))))) \<and>
   (mset sel = mset sel' \<longrightarrow> (ensure_no_conflicts sel = Inr () \<longleftrightarrow> ensure_no_conflicts sel' = Inr ()) \<and>
      (ensure_capabilities_satisfied sel known = Inr () \<longleftrightarrow> ensure_capabilities_satisfied sel' known = Inr ())) \<and>
   (ensure_capabilities_satisfied sel known = Inr () \<longleftrightarrow>
      (\<forall>(_, f) \<in> set sel. \<forall>c \<in> set (ft_requires_capability f). \<exists>(_, g) \<in> set sel. c \<in> set (ft_provides g))) \<and>
   (\<forall>e. ensure_capabilities_satisfied sel known = Inl e \<longrightarrow>
      (\<exists>n c ps. e = MissingCapability n c ps \<and> sorted_cmp cmp ps \<and> set ps = {p. \<exists>cs. (p, cs) \<in> set known \<and> c \<in> set cs}))"
proof -
  have n: "ensure_no_conflicts xs = Inr () \<longleftrightarrow>
      (\<forall>i j. i < j \<and> j < length xs \<longrightarrow> fst (xs ! j) \<notin> set (ft_conflicts (snd (xs ! i))) \<and> fst (xs ! i) \<notin> set (ft_conflicts (snd (xs ! j))))" for xs
    unfolding no_conflicts_Inr sorted_wrt_iff_nth_less clash_def by blast
  have m: "ensure_no_conflicts xs = Inr ()" if "mset ys = mset xs" "ensure_no_conflicts ys = Inr ()" for xs ys
    using sorted_wrt_mset[OF _ that(1), of "\<lambda>p q. \<not> clash p q"] that(2) clash_sym unfolding no_conflicts_Inr by blast
  have c: "ensure_capabilities_satisfied xs known = Inr () \<longleftrightarrow>
      (\<forall>(_, f) \<in> set xs. \<forall>c \<in> set (ft_requires_capability f). \<exists>(_, g) \<in> set xs. c \<in> set (ft_provides g))" for xs
    by (simp add: ensure_capabilities_satisfied_def check_selected_Inr)
  have p: "sorted_cmp cmp (providers_of known c) \<and> set (providers_of known c) = {p. \<exists>cs. (p, cs) \<in> set known \<and> c \<in> set cs}" for c
    using comparator.sorted_sort_by[OF comparator_cmp] by (force simp: providers_of_def image_iff)
  have e: "\<exists>n c ps. e = MissingCapability n c ps \<and> sorted_cmp cmp ps \<and> set ps = {p. \<exists>cs. (p, cs) \<in> set known \<and> c \<in> set cs}"
    if "ensure_capabilities_satisfied sel known = Inl e" for e
    using check_selected_Inl[OF that[unfolded ensure_capabilities_satisfied_def]] p by fastforce
  have o: "(ensure_no_conflicts sel = Inr () \<longleftrightarrow> ensure_no_conflicts sel' = Inr ()) \<and>
      (ensure_capabilities_satisfied sel known = Inr () \<longleftrightarrow> ensure_capabilities_satisfied sel' known = Inr ())"
    if "mset sel = mset sel'"
    using m[OF that] m[OF that[symmetric]] mset_eq_setD[OF that] unfolding c by auto
  show ?thesis by (intro conjI impI allI) (use n o c e in blast)+
qed

definition jellyfin_app :: Feature where
  "jellyfin_app = empty_feature\<lparr>ft_requires_capability := [''ffmpeg'']\<rparr>"

definition accel :: Feature where
  "accel = empty_feature\<lparr>ft_provides := [''ffmpeg''], ft_conflicts := [''media-accel-v4l2'']\<rparr>"

theorem selection_gates_witness:
  "ensure_capabilities_satisfied [(''jellyfin'', jellyfin_app)] [(''media-accel-v4l2'', [''ffmpeg'']), (''media-accel-rockchip'', [''ffmpeg''])]
     = Inl (MissingCapability ''jellyfin'' ''ffmpeg'' [''media-accel-rockchip'', ''media-accel-v4l2''])
   \<and> ensure_capabilities_satisfied [(''jellyfin'', jellyfin_app), (''media-accel-rockchip'', accel)] [] = Inr ()
   \<and> ensure_no_conflicts [(''media-accel-v4l2'', empty_feature), (''media-accel-rockchip'', accel)]
     = Inl (ConflictingFeatures ''media-accel-v4l2'' ''media-accel-rockchip'')"
proof -
  let ?s = "[(''jellyfin'', jellyfin_app), (''media-accel-rockchip'', accel)]"
  have "ensure_capabilities_satisfied (rev ?s) [] = Inr ()" by code_simp
  moreover have "mset ?s = mset (rev ?s)" by simp
  ultimately have "ensure_capabilities_satisfied ?s [] = Inr ()"
    using selection_gates[of ?s "rev ?s" "[]"] by blast
  moreover have "ensure_capabilities_satisfied [(''jellyfin'', jellyfin_app)] [(''media-accel-v4l2'', [''ffmpeg'']), (''media-accel-rockchip'', [''ffmpeg''])]
     = Inl (MissingCapability ''jellyfin'' ''ffmpeg'' [''media-accel-rockchip'', ''media-accel-v4l2''])" by code_simp
  moreover have "ensure_no_conflicts [(''media-accel-v4l2'', empty_feature), (''media-accel-rockchip'', accel)]
     = Inl (ConflictingFeatures ''media-accel-v4l2'' ''media-accel-rockchip'')" by code_simp
  ultimately show ?thesis by blast
qed

end
