(* ===== verification/Distro.thy ===== *)
theory Distro
  imports Loader
begin

text \<open>
  \<open>crates/core/src/distro.rs\<close>: distribution layers, their validation, the pockets a suite
  publishes and the components an image resolves against; and \<open>distro_for_suite\<close> of
  \<open>crates/core/src/loader.rs\<close>, which finds the one layer serving a suite. Loading a layer from
  the search path is its parameter \<open>load\<close>, the directory listing its parameter \<open>listed\<close>.
\<close>

section \<open>Data\<close>

record DistroPocket =
  po_suffix :: string
  po_mirror :: "string option"
  po_snapshot :: "string option"

record DistroLayer =
  di_description :: string
  di_suites :: "string list"
  di_rolling :: "string list"
  di_mirror :: string
  di_snapshot :: "string option"
  di_pockets :: "DistroPocket list"
  di_components :: "string list"
  di_free_components :: "string list option"
  di_keyring :: string
  di_image_keyring :: string
  di_default_user :: string
  di_initramfs_generator :: InitramfsGenerator
  di_packages :: "PackageEntry list"
  di_exclude :: "string list"

record Pocket =
  pk_suite :: string
  pk_mirror :: string
  pk_snapshot :: "string option"

record ResolvedDistro =
  rd_name :: string
  rd_pockets :: "Pocket list"
  rd_components :: "string list"
  rd_keyring :: string
  rd_image_keyring :: string

datatype distro_why =
    EmptyDescription | NoSuite | ListedTwice | NotServed | NotHttp | UrlChars | UrlSlash | BadSuffix
  | NoComponent | NotToken | NotComponent | NotFileName | NotImageKeyring | BadLogin | RootLogin

datatype distro_error =
    DistroField string string string distro_why
  | BadSuite string
  | DistroPackages layer_error
  | DistroLoad loader_error
  | UnknownSuite string "string list"
  | AmbiguousSuite string "string list"

section \<open>Validation\<close>

definition is_suite_char :: "char \<Rightarrow> bool" where
  "is_suite_char c \<longleftrightarrow> is_alnum c \<or> c = CHR ''.'' \<or> c = CHR ''_'' \<or> c = CHR ''-''"

definition check_suite :: "string \<Rightarrow> distro_error + unit" where
  "check_suite suite =
     (case suite of
        [] \<Rightarrow> Inl (BadSuite suite)
      | c # cs \<Rightarrow> if is_alnum c \<and> list_all is_suite_char cs then Inr () else Inl (BadSuite suite))"

definition is_archive_token :: "string \<Rightarrow> bool" where
  "is_archive_token v \<longleftrightarrow> v \<noteq> [] \<and> list_all (\<lambda>c. is_graphic c \<and> c \<noteq> CHR ''['' \<and> c \<noteq> CHR '']'') v"

definition is_file_stem :: "string \<Rightarrow> bool" where
  "is_file_stem v \<longleftrightarrow> v \<noteq> [] \<and> v \<noteq> ''.'' \<and> v \<noteq> ''..'' \<and>
     list_all (\<lambda>c. is_alnum c \<or> c = CHR ''.'' \<or> c = CHR ''-'' \<or> c = CHR ''_'') v"

definition check_url :: "string \<Rightarrow> string \<Rightarrow> string \<Rightarrow> distro_error + unit" where
  "check_url distro field url =
     (if \<not> (starts_with ''http://'' url \<or> starts_with ''https://'' url) then Inl (DistroField distro field url NotHttp)
      else if \<not> is_archive_token url then Inl (DistroField distro field url UrlChars)
      else if ends_with ''/'' url then Inl (DistroField distro field url UrlSlash)
      else Inr ())"

definition check_url_option :: "string \<Rightarrow> string \<Rightarrow> string option \<Rightarrow> distro_error + unit" where
  "check_url_option distro field url = (case url of Some u \<Rightarrow> check_url distro field u | None \<Rightarrow> Inr ())"

definition check_user_name :: "string \<Rightarrow> distro_why + unit" where
  "check_user_name n =
     (let shape = (case n of [] \<Rightarrow> False
                   | c # cs \<Rightarrow> (is_lower c \<or> c = CHR ''_'') \<and>
                       list_all (\<lambda>c. is_lower c \<or> is_digit c \<or> c = CHR ''_'' \<or> c = CHR ''-'') cs) in
      if \<not> shape \<or> length n > 32 then Inl BadLogin
      else if n = ''root'' then Inl RootLogin
      else Inr ())"

fun check_suites :: "string \<Rightarrow> string set \<Rightarrow> string list \<Rightarrow> distro_error + unit" where
  "check_suites distro seen [] = Inr ()"
| "check_suites distro seen (s # ss) =
     bind_r (check_suite s) (\<lambda>_.
       if s \<in> seen then Inl (DistroField distro ''suites'' s ListedTwice)
       else check_suites distro (insert s seen) ss)"

fun check_pockets :: "string \<Rightarrow> string set \<Rightarrow> DistroPocket list \<Rightarrow> distro_error + unit" where
  "check_pockets distro seen [] = Inr ()"
| "check_pockets distro seen (p # ps) =
     (let rest = (case strip_prefix ''-'' (po_suffix p) of Some r \<Rightarrow> r | None \<Rightarrow> []) in
      if rest = [] \<or> \<not> list_all is_suite_char rest then Inl (DistroField distro ''pockets.suffix'' (po_suffix p) BadSuffix)
      else if po_suffix p \<in> seen then Inl (DistroField distro ''pockets.suffix'' (po_suffix p) ListedTwice)
      else bind_r (check_url_option distro ''pockets.mirror'' (po_mirror p)) (\<lambda>_.
           bind_r (check_url_option distro ''pockets.snapshot'' (po_snapshot p)) (\<lambda>_.
           check_pockets distro (insert (po_suffix p) seen) ps)))"

definition refuse_first :: "('a \<Rightarrow> bool) \<Rightarrow> ('a \<Rightarrow> distro_error) \<Rightarrow> 'a list \<Rightarrow> distro_error + unit" where
  "refuse_first bad e xs = (case find bad xs of Some x \<Rightarrow> Inl (e x) | None \<Rightarrow> Inr ())"

definition serves :: "DistroLayer \<Rightarrow> string \<Rightarrow> bool" where
  "serves d suite \<longleftrightarrow> list_ex (\<lambda>s. s = suite) (di_suites d)"

fun check_entries :: "string \<Rightarrow> PackageEntry list \<Rightarrow> distro_error + unit" where
  "check_entries layer [] = Inr ()"
| "check_entries layer (e # es) =
     (case entry_validate layer e of Inl x \<Rightarrow> Inl (DistroPackages x) | Inr _ \<Rightarrow> check_entries layer es)"

definition check_free :: "string \<Rightarrow> string list \<Rightarrow> string list option \<Rightarrow> distro_error + unit" where
  "check_free n comps free =
     (case free of
        None \<Rightarrow> Inr ()
      | Some fs \<Rightarrow>
          if fs = [] then Inl (DistroField n ''free_components'' ''[]'' NoComponent)
          else refuse_first (\<lambda>c. c \<notin> set comps) (\<lambda>c. DistroField n ''free_components'' c NotComponent) fs)"

definition distro_validate :: "DistroLayer \<Rightarrow> string \<Rightarrow> distro_error + unit" where
  "distro_validate d n =
     (let bad = (\<lambda>field v w. Inl (DistroField n field v w)) in
      if trim (di_description d) = [] then bad ''description'' (di_description d) EmptyDescription
      else if di_suites d = [] then bad ''suites'' ''[]'' NoSuite
      else
        bind_r (check_suites n {} (di_suites d)) (\<lambda>_.
        bind_r (refuse_first (\<lambda>s. \<not> serves d s) (\<lambda>s. DistroField n ''rolling'' s NotServed) (di_rolling d)) (\<lambda>_.
        bind_r (check_url n ''mirror'' (di_mirror d)) (\<lambda>_.
        bind_r (check_url_option n ''snapshot'' (di_snapshot d)) (\<lambda>_.
        bind_r (check_pockets n {} (di_pockets d)) (\<lambda>_.
        if di_components d = [] then bad ''components'' ''[]'' NoComponent
        else
          bind_r (refuse_first (\<lambda>c. \<not> is_archive_token c) (\<lambda>c. DistroField n ''components'' c NotToken) (di_components d)) (\<lambda>_.
          bind_r (check_free n (di_components d) (di_free_components d)) (\<lambda>_.
          if \<not> is_file_stem (di_keyring d) then bad ''keyring'' (di_keyring d) NotFileName
          else if \<not> starts_with ''/'' (di_image_keyring d) \<or> \<not> is_archive_token (di_image_keyring d)
          then bad ''image_keyring'' (di_image_keyring d) NotImageKeyring
          else
            bind_r (case check_user_name (di_default_user d) of
                      Inl w \<Rightarrow> bad ''default_user'' (di_default_user d) w | Inr u \<Rightarrow> Inr u) (\<lambda>_.
            check_entries (''distro '' @ [CHR 0x27] @ n @ [CHR 0x27]) (di_packages d))))))))))"

section \<open>Resolution\<close>

definition pockets_for :: "DistroLayer \<Rightarrow> string \<Rightarrow> Pocket list" where
  "pockets_for d suite =
     (let release = \<lparr>pk_suite = suite, pk_mirror = di_mirror d, pk_snapshot = di_snapshot d\<rparr> in
      if list_ex (\<lambda>s. s = suite) (di_rolling d) then [release]
      else release # map (\<lambda>p. \<lparr>pk_suite = suite @ po_suffix p,
                               pk_mirror = (case po_mirror p of Some m \<Rightarrow> m | None \<Rightarrow> di_mirror d),
                               pk_snapshot = or_else (po_snapshot p) (di_snapshot d)\<rparr>) (di_pockets d))"

definition distro_resolve :: "DistroLayer \<Rightarrow> string \<Rightarrow> string \<Rightarrow> ResolvedDistro" where
  "distro_resolve d n suite =
     \<lparr>rd_name = n, rd_pockets = pockets_for d suite, rd_components = di_components d,
      rd_keyring = di_keyring d, rd_image_keyring = di_image_keyring d\<rparr>"

definition release_pocket :: "ResolvedDistro \<Rightarrow> Pocket option" where
  "release_pocket r = (case rd_pockets r of p # _ \<Rightarrow> Some p | [] \<Rightarrow> None)"

definition image_components :: "DistroLayer \<Rightarrow> bool \<Rightarrow> string list option" where
  "image_components d libre = (if libre then di_free_components d else Some (di_components d))"

text \<open>The scan over every layer: the names that serve the suite.\<close>

fun scan_distros ::
  "(string \<Rightarrow> loader_error + DistroLayer) \<Rightarrow> string \<Rightarrow> string list \<Rightarrow> distro_error + string list \<times> string list" where
  "scan_distros load suite [] = Inr ([], [])"
| "scan_distros load suite (n # ns) =
     (case load n of
        Inl e \<Rightarrow> Inl (DistroLoad e)
      | Inr layer \<Rightarrow>
          bind_r (scan_distros load suite ns) (\<lambda>(found, served).
          Inr (if serves layer suite then n # found else found,
               (n @ '': '' @ join '', '' (di_suites layer)) # served)))"

definition load_distro :: "(string \<Rightarrow> loader_error + DistroLayer) \<Rightarrow> string \<Rightarrow> distro_error + DistroLayer" where
  "load_distro load n =
     (case load n of
        Inl e \<Rightarrow> Inl (DistroLoad e)
      | Inr layer \<Rightarrow> bind_r (distro_validate layer n) (\<lambda>_. Inr layer))"

definition distro_for_suite ::
  "loader_error + string list \<Rightarrow> (string \<Rightarrow> loader_error + DistroLayer) \<Rightarrow> string \<Rightarrow> distro_error + string \<times> DistroLayer" where
  "distro_for_suite listed load suite =
     bind_r (check_suite suite) (\<lambda>_.
     case listed of
       Inl e \<Rightarrow> Inl (DistroLoad e)
     | Inr ns \<Rightarrow>
         bind_r (scan_distros load suite ns) (\<lambda>(found, served).
         case found of
           [] \<Rightarrow> Inl (UnknownSuite suite served)
         | [n] \<Rightarrow> bind_r (load_distro load n) (\<lambda>layer. Inr (n, layer))
         | _ \<Rightarrow> Inl (AmbiguousSuite suite found)))"

section \<open>Lemmas\<close>

definition url_ok :: "string \<Rightarrow> bool" where
  "url_ok u \<longleftrightarrow> (starts_with ''http://'' u \<or> starts_with ''https://'' u) \<and> is_archive_token u \<and> \<not> ends_with ''/'' u"

lemma check_url_Inr [simp]: "check_url n f u = Inr () \<longleftrightarrow> url_ok u"
  by (auto simp: check_url_def url_ok_def)

lemma check_url_option_Inr [simp]: "check_url_option n f u = Inr () \<longleftrightarrow> (\<forall>v. u = Some v \<longrightarrow> url_ok v)"
  by (cases u) (auto simp: check_url_option_def)

lemma check_suites_Inr:
  "check_suites n seen ss = Inr () \<longleftrightarrow> (\<forall>s \<in> set ss. check_suite s = Inr ()) \<and> distinct ss \<and> set ss \<inter> seen = {}"
  by (induction ss arbitrary: seen) auto

lemma refuse_first_Inr [simp]: "refuse_first bad e xs = Inr () \<longleftrightarrow> (\<forall>x \<in> set xs. \<not> bad x)"
  by (auto simp: refuse_first_def find_None_iff split: option.splits)
    (metis find_None_iff option.distinct(1))+

definition suffix_ok :: "string \<Rightarrow> bool" where
  "suffix_ok s \<longleftrightarrow> (\<exists>r. s = CHR ''-'' # r \<and> r \<noteq> [] \<and> list_all is_suite_char r)"

lemma check_pockets_Inr:
  "check_pockets n seen ps = Inr () \<longleftrightarrow>
     (\<forall>p \<in> set ps. suffix_ok (po_suffix p) \<and> (\<forall>u. po_mirror p = Some u \<longrightarrow> url_ok u) \<and>
        (\<forall>u. po_snapshot p = Some u \<longrightarrow> url_ok u)) \<and>
     distinct (map po_suffix ps) \<and> po_suffix ` set ps \<inter> seen = {}"
proof (induction ps arbitrary: seen)
  case (Cons p ps)
  have s: "suffix_ok (po_suffix p) \<longleftrightarrow>
      (case strip_prefix ''-'' (po_suffix p) of Some r \<Rightarrow> r | None \<Rightarrow> []) \<noteq> [] \<and>
      list_all is_suite_char (case strip_prefix ''-'' (po_suffix p) of Some r \<Rightarrow> r | None \<Rightarrow> [])"
    by (cases "po_suffix p") (auto simp: suffix_ok_def strip_prefix_def starts_with_def)
  show ?case using Cons by (auto simp: s Let_def)
qed simp

lemma check_entries_Inr: "check_entries l es = Inr () \<longleftrightarrow> (\<forall>e \<in> set es. entry_validate l e = Inr ())"
  by (induction es) (auto split: sum.splits)

text \<open>What a validated layer gives to the functions that read it.\<close>

lemma distro_validate_Inr:
  assumes "distro_validate d n = Inr ()"
  shows "di_suites d \<noteq> []" "\<forall>s \<in> set (di_suites d). check_suite s = Inr ()" "distinct (di_suites d)"
    "set (di_rolling d) \<subseteq> set (di_suites d)" "url_ok (di_mirror d)"
    "\<forall>u. di_snapshot d = Some u \<longrightarrow> url_ok u" "check_pockets n {} (di_pockets d) = Inr ()"
    "di_components d \<noteq> []" "\<forall>c \<in> set (di_components d). is_archive_token c"
    "check_free n (di_components d) (di_free_components d) = Inr ()" "is_file_stem (di_keyring d)"
    "check_user_name (di_default_user d) = Inr ()"
  using assms
  by (auto simp: distro_validate_def Let_def check_suites_Inr serves_def list_ex_iff split: if_splits sum.splits)

interpretation keyring_guard: name_guard is_file_stem
proof unfold_locales
  have "\<not> is_alnum (CHR ''/'')" by (simp add: char_class_defs)
  then show "is_file_stem p \<Longrightarrow> CHR ''/'' \<notin> set p" for p by (auto simp: is_file_stem_def list_all_iff)
  show "is_file_stem p \<Longrightarrow> p \<noteq> [] \<and> p \<noteq> ''.'' \<and> p \<noteq> ''..''" for p by (simp add: is_file_stem_def)
qed

lemma graphic_not_ws: "is_graphic c \<Longrightarrow> \<not> is_ws c"
  by (auto simp: is_graphic_def is_ws_def)

lemma archive_token: "is_archive_token v \<Longrightarrow> token v"
  using graphic_not_ws by (auto simp: is_archive_token_def token_def list_all_iff)

lemma suite_char: "is_suite_char c \<Longrightarrow> is_graphic c \<and> c \<noteq> CHR ''['' \<and> c \<noteq> CHR '']''"
  unfolding is_suite_char_def by (elim disjE) (auto simp: char_class_defs)

lemma suite_token: "check_suite s = Inr () \<Longrightarrow> is_archive_token s"
  using suite_char by (cases s) (auto simp: check_suite_def is_archive_token_def list_all_iff is_suite_char_def split: if_splits)

lemma check_suite_append:
  "check_suite s = Inr () \<Longrightarrow> suffix_ok r \<Longrightarrow> check_suite (s @ r) = Inr ()"
  by (cases s) (auto simp: check_suite_def suffix_ok_def is_suite_char_def split: if_splits)

lemma scan_distros_Inr:
  "scan_distros load suite ns = Inr (found, served) \<Longrightarrow>
     (\<forall>n \<in> set ns. \<exists>l. load n = Inr l) \<and>
     found = filter (\<lambda>n. \<exists>l. load n = Inr l \<and> serves l suite) ns"
  by (induction ns arbitrary: found served) (auto split: sum.splits if_splits)

section \<open>Properties\<close>


definition debian :: DistroLayer where
  "debian = \<lparr>di_description = ''Debian'', di_suites = [''forky'', ''sid''], di_rolling = [''sid''],
     di_mirror = ''http://deb.debian.org/debian'', di_snapshot = Some ''https://snapshot.debian.org/archive/debian'',
     di_pockets = [\<lparr>po_suffix = ''-updates'', po_mirror = None, po_snapshot = None\<rparr>,
       \<lparr>po_suffix = ''-security'', po_mirror = Some ''http://deb.debian.org/debian-security'', po_snapshot = None\<rparr>],
     di_components = [''main'', ''non-free-firmware''], di_free_components = Some [''main''],
     di_keyring = ''debian-archive-keyring.gpg'', di_image_keyring = ''/usr/share/keyrings/debian-archive-keyring.gpg'',
     di_default_user = ''debian'', di_initramfs_generator = InitramfsTools, di_packages = [], di_exclude = []\<rparr>"


lemma distro_for_suite_Inr:
  assumes "distro_for_suite listed load suite = Inr (n, layer)"
  shows "check_suite suite = Inr ()" "load n = Inr layer" "distro_validate layer n = Inr ()" "serves layer suite"
    "\<exists>ns. listed = Inr ns \<and> n \<in> set ns"
proof -
  from assms obtain ns found served where
    l: "listed = Inr ns" and s: "scan_distros load suite ns = Inr (found, served)" and c: "check_suite suite = Inr ()"
    by (auto simp: distro_for_suite_def split: sum.splits)
  have f: "found = [n]" "load_distro load n = Inr layer"
    using assms l s c by (cases found; auto simp: distro_for_suite_def split: list.splits)+
  then have "n \<in> set found" by simp
  with scan_distros_Inr[of load suite ns found served] s
  have "n \<in> set ns \<and> (\<exists>l. load n = Inr l \<and> serves l suite)" by auto
  with f(2) c l show "check_suite suite = Inr ()" "load n = Inr layer" "distro_validate layer n = Inr ()"
    "serves layer suite" "\<exists>ns. listed = Inr ns \<and> n \<in> set ns"
    by (auto simp: load_distro_def split: sum.splits)
qed

text \<open>A suite resolves to a layer exactly when it is well formed, every layer of the tree
  loads, exactly one of them lists the suite, and that one is valid; when two or more list it
  the suite is refused as ambiguous and all of them are named.\<close>

theorem suite_has_one_distro:
  assumes "distinct ns"
  shows "(distro_for_suite (Inr ns) load suite = Inr (n, layer) \<longleftrightarrow>
      check_suite suite = Inr () \<and> (\<forall>m \<in> set ns. \<exists>l. load m = Inr l) \<and> n \<in> set ns \<and> load n = Inr layer \<and>
      serves layer suite \<and> (\<forall>m \<in> set ns. \<forall>l. load m = Inr l \<and> serves l suite \<longrightarrow> m = n) \<and> distro_validate layer n = Inr ()) \<and>
    (check_suite suite = Inr () \<and> (\<forall>m \<in> set ns. \<exists>l. load m = Inr l) \<and>
      (\<exists>m \<in> set ns. \<exists>m' \<in> set ns. m \<noteq> m' \<and> (\<exists>l. load m = Inr l \<and> serves l suite) \<and> (\<exists>l. load m' = Inr l \<and> serves l suite)) \<longrightarrow>
      (\<exists>found. distro_for_suite (Inr ns) load suite = Inl (AmbiguousSuite suite found) \<and>
         set found = {m \<in> set ns. \<exists>l. load m = Inr l \<and> serves l suite}))"
proof -
  let ?P = "\<lambda>n. \<exists>l. load n = Inr l \<and> serves l suite"
  have scan_ok: "\<exists>served. scan_distros load suite ns = Inr (filter ?P ns, served)" if "\<forall>m \<in> set ns. \<exists>l. load m = Inr l" for ns
    using that by (induction ns) auto
  have one: "filter ?P ns = [n] \<longleftrightarrow> n \<in> set ns \<and> ?P n \<and> (\<forall>m \<in> set ns. ?P m \<longrightarrow> m = n)"
  proof
    assume f: "filter ?P ns = [n]"
    then have "set (filter ?P ns) = {n}" by simp
    then show "n \<in> set ns \<and> ?P n \<and> (\<forall>m \<in> set ns. ?P m \<longrightarrow> m = n)" unfolding set_filter by blast
  next
    assume a: "n \<in> set ns \<and> ?P n \<and> (\<forall>m \<in> set ns. ?P m \<longrightarrow> m = n)"
    then have s: "set (filter ?P ns) = {n}" unfolding set_filter by blast
    then have "length (filter ?P ns) = 1" using distinct_card[of "filter ?P ns"] assms by simp
    with s show "filter ?P ns = [n]" by (cases "filter ?P ns") auto
  qed
  have A: "distro_for_suite (Inr ns) load suite = Inr (n, layer) \<longleftrightarrow>
      check_suite suite = Inr () \<and> (\<forall>m \<in> set ns. \<exists>l. load m = Inr l) \<and> filter ?P ns = [n] \<and>
      load n = Inr layer \<and> distro_validate layer n = Inr ()" (is "?L \<longleftrightarrow> ?R")
  proof
    assume ?L
    then have c: "check_suite suite = Inr ()" by (auto simp: distro_for_suite_def)
    from \<open>?L\<close> obtain found served where s: "scan_distros load suite ns = Inr (found, served)"
      by (auto simp: distro_for_suite_def)
    have "found = [n] \<and> load_distro load n = Inr layer"
    proof (cases found)
      case Nil
      with \<open>?L\<close> c s show ?thesis by (simp add: distro_for_suite_def)
    next
      case (Cons m ms)
      with \<open>?L\<close> c s show ?thesis by (cases ms) (auto simp: distro_for_suite_def)
    qed
    with c s scan_distros_Inr[of load suite ns found served] show ?R
      by (auto simp: load_distro_def split: sum.splits)
  next
    assume r: ?R
    then obtain served where "scan_distros load suite ns = Inr ([n], served)" using scan_ok[of ns] by auto
    with r show ?L by (simp add: distro_for_suite_def load_distro_def)
  qed
  have B: "\<exists>found. distro_for_suite (Inr ns) load suite = Inl (AmbiguousSuite suite found) \<and> set found = {m \<in> set ns. ?P m}"
    if c: "check_suite suite = Inr ()" and l: "\<forall>m \<in> set ns. \<exists>l. load m = Inr l"
      and m: "m \<in> set ns" "m' \<in> set ns" "m \<noteq> m'" "?P m" "?P m'" for m m'
  proof -
    obtain served where s: "scan_distros load suite ns = Inr (filter ?P ns, served)" using scan_ok[OF l] by blast
    have "{m, m'} \<subseteq> set (filter ?P ns)" using m by simp
    then have "\<nexists>k. set (filter ?P ns) \<subseteq> {k}" using m(3) by blast
    then obtain a b fs where "filter ?P ns = a # b # fs" by (cases "filter ?P ns" rule: remdups_adj.cases) auto
    then have "distro_for_suite (Inr ns) load suite = Inl (AmbiguousSuite suite (filter ?P ns))"
      using c s by (simp add: distro_for_suite_def)
    then show ?thesis by (intro exI[of _ "filter ?P ns"]) (simp only: set_filter simp_thms)
  qed
  show ?thesis
  proof (rule conjI)
    show "distro_for_suite (Inr ns) load suite = Inr (n, layer) \<longleftrightarrow>
      check_suite suite = Inr () \<and> (\<forall>m \<in> set ns. \<exists>l. load m = Inr l) \<and> n \<in> set ns \<and> load n = Inr layer \<and>
      serves layer suite \<and> (\<forall>m \<in> set ns. \<forall>l. load m = Inr l \<and> serves l suite \<longrightarrow> m = n) \<and> distro_validate layer n = Inr ()"
    proof -
      have "?P n \<longleftrightarrow> serves layer suite" if "load n = Inr layer" using that by simp
      then show ?thesis unfolding A one by blast
    qed
  qed (use B in blast)
qed

definition ubuntu :: DistroLayer where
  "ubuntu = debian\<lparr>di_description := ''Ubuntu'', di_suites := [''resolute''], di_rolling := []\<rparr>"

definition demo_distros :: "string \<Rightarrow> loader_error + DistroLayer" where
  "demo_distros n = (if n = ''debian'' then Inr debian else if n = ''ubuntu'' then Inr ubuntu
     else Inl (NotFound ''distro'' n 0 n))"

theorem suite_has_one_distro_witness:
  "distro_for_suite (Inr [''debian'', ''ubuntu'']) demo_distros ''resolute'' = Inr (''ubuntu'', ubuntu)"
proof -
  have "check_suite ''resolute'' = Inr ()" "distro_validate ubuntu ''ubuntu'' = Inr ()"
    "serves ubuntu ''resolute''" "\<not> serves debian ''resolute''" by code_simp+
  then show ?thesis
    using suite_has_one_distro[of "[''debian'', ''ubuntu'']" demo_distros "''resolute''" "''ubuntu''" ubuntu]
    by (auto simp: demo_distros_def)
qed

end
