(* ===== verification/Boot.thy ===== *)
theory Boot
  imports Series Geometry Field_Checks
begin

text \<open>
  The boot half of resolution, \<open>resolve_boot\<close> and \<open>resolve_uboot_series\<close> of
  \<open>crates/core/src/resolve.rs\<close>: from the boot method, the SoC and the device to the blobs,
  offsets and patch series of a u-boot build, or to the kernel slots, command line and root
  offset of a depthcharge build. The slot count is a \<open>u8\<close> the code bounds by four, the
  geometry is \<open>u64\<close> with the code's checked product and sum.
\<close>

datatype boot_error =
    BootField field_error
  | BootSize size_error
  | BootRkbin rkbin_error
  | BootAttr kpart_attr_error
  | MissingBootField string BootMethod string
  | UnsupportedLayout BootMethod Layout
  | UnknownBoardProfile string string
  | InvalidKpartSlots nat nat
  | KpartGeometryOverflow string string nat
  | MissingDefaultUbootSeries string
  | UnknownUbootSeriesForDevice string string
  | MissingUbootPatchesUrl string string

record BootPoint =
  bpt_device_name :: string
  bpt_layout :: Layout
  bpt_board :: "string option"
  bpt_kernel_cmdline :: string
  bpt_uboot_series :: "string option"

type_synonym UbootSeriesPins = "string option \<times> string option \<times> string option"

definition resolve_uboot_series ::
  "RockchipRkbinLayer \<Rightarrow> DeviceLayer \<Rightarrow> string \<Rightarrow> string option \<Rightarrow> boot_error + UbootSeriesPins" where
  "resolve_uboot_series l device device_name override_series =
     (case or_else override_series (dev_default_uboot_series device) of
        None \<Rightarrow>
          if dev_supported_uboot_series device \<noteq> [] then Inl (MissingDefaultUbootSeries device_name)
          else Inr (None, None, None)
      | Some sname \<Rightarrow>
          if patch_series sname \<noteq> None \<and> sname \<notin> set (dev_supported_uboot_series device)
          then Inl (UnknownUbootSeriesForDevice device_name sname)
          else
            (case patch_series sname of
               None \<Rightarrow> Inr (None, None, None)
             | Some series \<Rightarrow>
                 (case rr_patches_url l of
                    None \<Rightarrow> Inl (MissingUbootPatchesUrl device_name series)
                  | Some url \<Rightarrow>
                      Inr (Some series, Some url,
                           Some (case rr_patches_ref l of Some r \<Rightarrow> r | None \<Rightarrow> DEFAULT_PATCHES_REF)))))"

definition resolve_rkbin_boot ::
  "RockchipRkbinLayer \<Rightarrow> DeviceLayer \<Rightarrow> SocLayer \<Rightarrow> BootPoint \<Rightarrow> boot_error + ResolvedBoot" where
  "resolve_rkbin_boot l device soc point =
     (let device_name = bpt_device_name point in
      bind_r (ok_or (MissingBootField device_name RockchipRkbin ''uboot_defconfig'')
                (case dev_uboot_defconfig device of
                   Some v \<Rightarrow> if trim v \<noteq> [] then Some v else None
                 | None \<Rightarrow> None)) (\<lambda>defconfig.
      bind_r (lift_err BootRkbin (resolve_rkbin (sl_rkbin soc) (dev_rkbin device) device_name)) (\<lambda>rkbin.
      bind_r (lift_err BootSize (parse_size (rr_idbloader_offset l))) (\<lambda>_.
      bind_r (lift_err BootSize (parse_size (rr_uboot_itb_offset l))) (\<lambda>_.
      bind_r (lift_err BootSize (parse_size (rr_rootfs_offset l))) (\<lambda>_.
      bind_r (resolve_uboot_series l device device_name (bpt_uboot_series point))
        (\<lambda>(uboot_series, uboot_patches_url, uboot_patches_ref).
      Inr (RkbinBoot
        \<lparr>rrb_uboot_defconfig = defconfig, rrb_uboot_source = rr_uboot_source l,
         rrb_uboot_ref = rr_uboot_ref l, rrb_uboot_series = uboot_series,
         rrb_uboot_patches_url = uboot_patches_url, rrb_uboot_patches_ref = uboot_patches_ref,
         rrb_rkbin = rkbin,
         rrb_offsets = \<lparr>off_idbloader = rr_idbloader_offset l, off_uboot_itb = rr_uboot_itb_offset l,
                        off_rootfs = rr_rootfs_offset l\<rparr>\<rparr>))))))))"

text \<open>The command line that is signed: the boot method's, the console gate, the device's.\<close>

definition signed_cmdline :: "DepthchargeLayer \<Rightarrow> string \<Rightarrow> string" where
  "signed_cmdline l kernel_cmdline =
     (if kernel_cmdline = [] then dl_cmdline l @ '' '' @ CONSOLE_LOGLEVEL_ARG
      else dl_cmdline l @ '' '' @ CONSOLE_LOGLEVEL_ARG @ '' '' @ kernel_cmdline)"

definition kpart_end :: "nat \<Rightarrow> nat \<Rightarrow> nat \<Rightarrow> nat option" where
  "kpart_end offset sz slots =
     Option.bind (checked_mul u64_max sz slots) (\<lambda>len. checked_add u64_max offset len)"

definition resolve_depthcharge_boot ::
  "DepthchargeLayer \<Rightarrow> DeviceLayer \<Rightarrow> BootPoint \<Rightarrow> boot_error + ResolvedBoot" where
  "resolve_depthcharge_boot l device point =
     (let device_name = bpt_device_name point in
      if bpt_layout point = Split then Inl (UnsupportedLayout Depthcharge (bpt_layout point))
      else
        bind_r (ok_or (MissingBootField device_name Depthcharge ''a [depthcharge] block (board, supported_boards)'')
                  (dev_depthcharge device)) (\<lambda>dc.
        let board = (case bpt_board point of Some b \<Rightarrow> b | None \<Rightarrow> dd_board dc) in
        if board \<notin> set (dd_supported_boards dc) then Inl (UnknownBoardProfile device_name board)
        else
          bind_r (lift_err BootField (validate_board_profile board)) (\<lambda>_.
          let kpart_size = (case dd_kpart_size dc of Some s \<Rightarrow> s | None \<Rightarrow> dl_kpart_size l) in
          bind_r (lift_err BootSize (parse_size (dl_kpart_offset l))) (\<lambda>kpart_offset_bytes.
          bind_r (lift_err BootSize (parse_size kpart_size)) (\<lambda>kpart_size_bytes.
          let cmdline = signed_cmdline l (bpt_kernel_cmdline point) in
          bind_r (lift_err BootField (validate_depthcharge_cmdline cmdline)) (\<lambda>_.
          if dl_kpart_slots l = 0 \<or> MAX_KPART_SLOTS < dl_kpart_slots l
          then Inl (InvalidKpartSlots (dl_kpart_slots l) MAX_KPART_SLOTS)
          else
            bind_r (lift_err BootAttr (kpart_flags (dl_kpart_priority l) (dl_kpart_tries l) (dl_kpart_successful l))) (\<lambda>flags.
            bind_r (ok_or (KpartGeometryOverflow (dl_kpart_offset l) kpart_size (dl_kpart_slots l))
                      (kpart_end kpart_offset_bytes kpart_size_bytes (dl_kpart_slots l))) (\<lambda>rootfs_offset.
            Inr (DepthchargeBoot
              \<lparr>rdb_board = board,
               rdb_kpart = \<lparr>kp_offset = dl_kpart_offset l, kp_size = kpart_size, kp_slots = dl_kpart_slots l,
                            kp_priority = dl_kpart_priority l, kp_tries = dl_kpart_tries l,
                            kp_successful = dl_kpart_successful l, kp_flags = flags\<rparr>,
               rdb_cmdline = cmdline, rdb_rootfs_offset = format_size rootfs_offset,
               rdb_initramfs_compress = for_kpart_size kpart_size_bytes\<rparr>)))))))))"

definition resolve_boot ::
  "BootMethodLayer \<Rightarrow> DeviceLayer \<Rightarrow> SocLayer \<Rightarrow> BootPoint \<Rightarrow> boot_error + ResolvedBoot" where
  "resolve_boot bm device soc point =
     (case bm of
        RkbinLayerOf l \<Rightarrow> resolve_rkbin_boot l device soc point
      | DepthchargeLayerOf l \<Rightarrow> resolve_depthcharge_boot l device point)"

section \<open>U-boot series\<close>

definition pins_ok :: "RockchipRkbinLayer \<Rightarrow> DeviceLayer \<Rightarrow> string option \<Rightarrow> UbootSeriesPins \<Rightarrow> bool" where
  "pins_ok l device ov pins =
     (case or_else ov (dev_default_uboot_series device) of
        None \<Rightarrow> dev_supported_uboot_series device = [] \<and> pins = (None, None, None)
      | Some s \<Rightarrow>
          if patch_series s = None then pins = (None, None, None)
          else s \<in> set (dev_supported_uboot_series device) \<and> rr_patches_url l \<noteq> None
            \<and> pins = (Some s, rr_patches_url l,
                      Some (case rr_patches_ref l of Some r \<Rightarrow> r | None \<Rightarrow> DEFAULT_PATCHES_REF)))"

lemma patch_series_Some: "patch_series s = Some t \<Longrightarrow> t = s"
  by (simp add: patch_series_def split: if_splits)

lemma resolve_uboot_series_Inr: "resolve_uboot_series l device n ov = Inr pins \<longleftrightarrow> pins_ok l device ov pins"
proof (cases "or_else ov (dev_default_uboot_series device)")
  case (Some s)
  then show ?thesis
    by (cases "patch_series s"; cases "rr_patches_url l")
      (auto simp: resolve_uboot_series_def pins_ok_def dest: patch_series_Some)
qed (auto simp: resolve_uboot_series_def pins_ok_def)

section \<open>Kernel slots\<close>

definition slot_at :: "nat \<Rightarrow> nat \<Rightarrow> nat \<Rightarrow> 64 word \<Rightarrow> nat \<Rightarrow> KpartSlot" where
  "slot_at start sz i f j =
     \<lparr>slot_offset = start + j * sz, slot_first_lba = (start + j * sz) div SECTOR, slot_length_lba = sz div SECTOR,
      slot_flags = (if i + j = 0 then f else SPARE_KPART_FLAGS)\<rparr>"

lemma kpart_loop_total:
  "start + n * sz \<le> u64_max \<Longrightarrow>
     kpart_loop n i sz f start = Inr (map (slot_at start sz i f) [0..<n], start + n * sz)"
proof (induction n arbitrary: i start)
  case (Suc n)
  have "kpart_loop n (i + 1) sz f (start + sz)
      = Inr (map (slot_at (start + sz) sz (i + 1) f) [0..<n], start + sz + n * sz)"
    using Suc by (simp add: add.assoc)
  moreover have "slot_at (start + sz) sz (i + 1) f = slot_at start sz i f \<circ> Suc"
    by (rule ext) (simp add: slot_at_def add.assoc)
  ultimately show ?case
    using Suc.prems by (simp add: checked_add_def slot_at_def upt_conv_Cons map_Suc_upt [symmetric] del: upt_Suc)
qed simp

lemma kpart_end_Some [simp]:
  "kpart_end offset sz slots = Some e \<longleftrightarrow> sz * slots \<le> u64_max \<and> offset + sz * slots \<le> u64_max \<and> e = offset + sz * slots"
  by (auto simp: kpart_end_def Option.bind_eq_Some_conv)

text \<open>What a resolved depthcharge boot satisfies.\<close>

lemma resolve_depthcharge_Inr:
  assumes "resolve_depthcharge_boot l device point = Inr boot"
  obtains dc off sz b where
    "boot = DepthchargeBoot b" "bpt_layout point \<noteq> Split" "dev_depthcharge device = Some dc"
    "rdb_board b = (case bpt_board point of Some x \<Rightarrow> x | None \<Rightarrow> dd_board dc)"
    "rdb_board b \<in> set (dd_supported_boards dc)" "validate_board_profile (rdb_board b) = Inr ()"
    "kp_size (rdb_kpart b) = (case dd_kpart_size dc of Some s \<Rightarrow> s | None \<Rightarrow> dl_kpart_size l)"
    "parse_size (kp_offset (rdb_kpart b)) = Inr off" "parse_size (kp_size (rdb_kpart b)) = Inr sz"
    "rdb_cmdline b = signed_cmdline l (bpt_kernel_cmdline point)"
    "validate_depthcharge_cmdline (rdb_cmdline b) = Inr ()"
    "kp_slots (rdb_kpart b) \<in> {1..4}"
    "kpart_flags (kp_priority (rdb_kpart b)) (kp_tries (rdb_kpart b)) (kp_successful (rdb_kpart b)) = Inr (kp_flags (rdb_kpart b))"
    "off + sz * kp_slots (rdb_kpart b) \<le> u64_max"
    "rdb_rootfs_offset b = format_size (off + sz * kp_slots (rdb_kpart b))"
    "rdb_initramfs_compress b = for_kpart_size sz"
proof -
  from assms show thesis
    unfolding resolve_depthcharge_boot_def Let_def
    by (auto simp: MAX_KPART_SLOTS_def intro: that split: if_splits)
qed

section \<open>Resolution and the image agree\<close>

definition only_alignment :: "geom_error \<Rightarrow> bool" where
  "only_alignment e =
     (case e of
        NotSectorMultiple _ _ \<Rightarrow> True
      | NotBlockMultiple _ _ \<Rightarrow> True
      | KpartSizeZero \<Rightarrow> True
      | OverlapsPrimaryGpt _ _ \<Rightarrow> True
      | NoSeedRoomBelowSlots _ \<Rightarrow> True
      | _ \<Rightarrow> False)"

lemma kpart_total:
  assumes "parse_size (kp_offset kp) = Inr off" "parse_size (kp_size kp) = Inr sz"
    and "off + sz * kp_slots kp \<le> u64_max"
    and "kpart_flags (kp_priority kp) (kp_tries kp) (kp_successful kp) = Inr f"
  shows "kpart kp = Inr (KpartSlots (map (slot_at off sz 0 f) [0..<kp_slots kp]), off + sz * kp_slots kp)
         \<or> (\<exists>e. kpart kp = Inl e \<and> only_alignment e)"
proof -
  have "kpart_loop (kp_slots kp) 0 sz f off
      = Inr (map (slot_at off sz 0 f) [0..<kp_slots kp], off + kp_slots kp * sz)"
    using assms(3) by (intro kpart_loop_total) (simp add: mult.commute)
  with assms show ?thesis
    by (simp add: kpart_def geom_size_def only_alignment_def check_def mult.commute)
qed

lemma region_resolve_depthcharge:
  assumes "parse_size (kp_offset (rdb_kpart b)) = Inr off" "parse_size (kp_size (rdb_kpart b)) = Inr sz"
    and "off + sz * kp_slots (rdb_kpart b) \<le> u64_max"
    and "kpart_flags (kp_priority (rdb_kpart b)) (kp_tries (rdb_kpart b)) (kp_successful (rdb_kpart b)) = Inr f"
    and "rdb_rootfs_offset b = format_size (off + sz * kp_slots (rdb_kpart b))" "kp_slots (rdb_kpart b) \<noteq> 0"
  shows "(\<exists>r. region_resolve (DepthchargeBoot b) = Inr r
             \<and> br_boot r = KpartSlots (map (slot_at off sz 0 f) [0..<kp_slots (rdb_kpart b)])
             \<and> br_rootfs_off r = off + sz * kp_slots (rdb_kpart b))
         \<or> (\<exists>e. region_resolve (DepthchargeBoot b) = Inl e \<and> only_alignment e)"
proof -
  let ?n = "kp_slots (rdb_kpart b)"
  have root: "parse_size (boot_rootfs_offset (DepthchargeBoot b)) = Inr (off + sz * ?n)"
    using parse_format_size[OF assms(3)] by (simp add: boot_rootfs_offset_def assms(5))
  consider "kpart (rdb_kpart b) = Inr (KpartSlots (map (slot_at off sz 0 f) [0..<?n]), off + sz * ?n)"
    | e where "kpart (rdb_kpart b) = Inl e" "only_alignment e"
    using kpart_total[OF assms(1-4)] by blast
  then show ?thesis
  proof cases
    case 1
    have slots: "map (slot_at off sz 0 f) [0..<?n] \<noteq> []" using assms(6) by simp
    then have "place_seed (KpartSlots (map (slot_at off sz 0 f) [0..<?n])) (off + sz * ?n) = Inl e \<Longrightarrow> only_alignment e" for e
      by (auto simp: place_seed_def only_alignment_def split: list.splits option.splits if_splits)
    then show ?thesis
      using 1 root
      by (cases "place_seed (KpartSlots (map (slot_at off sz 0 f) [0..<?n])) (off + sz * ?n)")
        (auto simp: region_resolve_def boot_head_def geom_size_def check_def only_alignment_def)
  next
    case 2
    then show ?thesis using root by (simp add: region_resolve_def boot_head_def geom_size_def)
  qed
qed

lemma slots_back_to_back:
  assumes "SECTOR dvd sz" "n \<noteq> 0"
  shows "map slot_extent (map (slot_at off sz 0 f) [0..<n]) = map (\<lambda>j. (off + j * sz, off + (j + 1) * sz)) [0..<n]"
    and "map slot_flags (map (slot_at off sz 0 f) [0..<n]) = f # replicate (n - 1) SPARE_KPART_FLAGS"
proof -
  have "sz div SECTOR * SECTOR = sz" using assms(1) by simp
  then show "map slot_extent (map (slot_at off sz 0 f) [0..<n]) = map (\<lambda>j. (off + j * sz, off + (j + 1) * sz)) [0..<n]"
    by (simp add: slot_extent_def slot_at_def algebra_simps)
  obtain m where n: "n = Suc m" using assms(2) by (cases n) auto
  show "map slot_flags (map (slot_at off sz 0 f) [0..<n]) = f # replicate (n - 1) SPARE_KPART_FLAGS"
    by (rule nth_equalityI) (auto simp: n slot_at_def nth_Cons' nth_append simp del: upt_Suc)
qed

lemma region_sector_size:
  assumes "region_resolve (DepthchargeBoot b) = Inr r" "parse_size (kp_size (rdb_kpart b)) = Inr sz"
  shows "SECTOR dvd sz"
  using assms by (auto simp: region_resolve_def boot_head_def kpart_def)


text \<open>The shipped depthcharge method and one of its boards.\<close>

definition depthcharge_method :: DepthchargeLayer where
  "depthcharge_method =
     \<lparr>dl_description = ''ChromeOS depthcharge'', dl_kpart_offset = ''12MiB'', dl_kpart_size = ''16MiB'',
      dl_kpart_slots = 2, dl_kpart_priority = 10, dl_kpart_tries = 5, dl_kpart_successful = True,
      dl_cmdline = ''console=tty1 rootwait ro'', dl_packages = [Plain ''depthcharge-tools''], dl_groups = [],
      dl_exclude = [], dl_extra_debs = [], dl_expect = [File ''/boot/vmlinuz-*'']\<rparr>"

definition no_blobs :: RkbinLayer where
  "no_blobs = \<lparr>rl_atf = None, rl_tpl = None, rl_bl32 = None, rl_upstream = None\<rparr>"

definition rk3288 :: SocLayer where
  "rk3288 =
     \<lparr>sl_description = ''Rockchip RK3288'', sl_arch = Armv7, sl_dt_dir = ''rockchip'', sl_rkbin = no_blobs,
      sl_modules = [''hantro_vpu'', ''rockchip_vdec''],
      sl_initramfs = \<lparr>il_modules = [''i2c-rk3x'', ''rk808-regulator'']\<rparr>,
      sl_packages = [Plain ''network-manager''], sl_groups = [''audio''],
      sl_nonfree_firmware_packages = [Plain ''firmware-brcm80211''], sl_exclude = [''dhcpcd''],
      sl_caveats = [], sl_extra_debs = [], sl_userspace = [], sl_ffmpeg = None,
      sl_expect = [Devnode ''/dev/dri/renderD128'']\<rparr>"

definition asus_c100p :: DeviceLayer where
  "asus_c100p =
     \<lparr>dev_extends = None, dev_description = ''ASUS Chromebook Flip C100P'', dev_soc = Rk3288,
      dev_boot_method = Depthcharge, dev_supported_boot_methods = [Depthcharge], dev_uboot_defconfig = None,
      dev_depthcharge = Some \<lparr>dd_board = ''minnie'', dd_supported_boards = [''minnie''], dd_kpart_size = None\<rparr>,
      dev_kernel_dtb = ''rockchip/rk3288-veyron-minnie.dtb'', dev_device_dts = [], dev_kernel_cmdline = None,
      dev_config_fragments = [], dev_patch_series = [], dev_kmods = [],
      dev_supported_kernels = [''debian-armmp''], dev_default_kernel = ''debian-armmp'',
      dev_supported_uboot_series = [], dev_default_uboot_series = None,
      dev_supported_suites = [''forky'', ''trixie''], dev_default_suite = ''forky'', dev_default_layout = Combined,
      dev_hostname = ''asus-c100p'', dev_image_size = ''2G'', dev_keymap = None, dev_rkbin = no_blobs,
      dev_packages = [], dev_groups = [], dev_initramfs = \<lparr>il_modules = []\<rparr>,
      dev_nonfree_firmware_packages = [], dev_exclude = [], dev_caveats = [], dev_extra_debs = [],
      dev_expect = [SoundCard ''VEYRON-I2S'']\<rparr>"

definition c100p_point :: BootPoint where
  "c100p_point =
     \<lparr>bpt_device_name = ''asus-c100p'', bpt_layout = Combined, bpt_board = None, bpt_kernel_cmdline = [],
      bpt_uboot_series = None\<rparr>"

lemma c100p_boot:
  "\<exists>b. resolve_boot (DepthchargeLayerOf depthcharge_method) asus_c100p rk3288 c100p_point = Inr (DepthchargeBoot b)
     \<and> kp_slots (rdb_kpart b) = 2 \<and> rdb_rootfs_offset b = ''44MiB''"
proof -
  have sizes: "parse_size ''12MiB'' = Inr 12582912" "parse_size ''16MiB'' = Inr 16777216"
    "format_size 46137344 = ''44MiB''" by code_simp+
  have fields: "validate_board_profile ''minnie'' = Inr ()"
    "validate_depthcharge_cmdline (signed_cmdline depthcharge_method []) = Inr ()" by code_simp+
  have e: "kpart_end 12582912 16777216 2 = Some 46137344" by code_simp
  obtain f where "kpart_flags 10 5 True = Inr f" by (simp add: kpart_flags_eq)
  then show ?thesis
    using fields
    by (simp add: resolve_boot_def resolve_depthcharge_boot_def asus_c100p_def c100p_point_def depthcharge_method_def
        sizes MAX_KPART_SLOTS_def e Let_def)
qed


end
