(* ===== verification/Apps.thy ===== *)
theory Apps
  imports Layers
begin

text \<open>
  The applications a feature declares to be built from source: \<open>check_app\<close> and \<open>merge_apps\<close> of
  \<open>crates/core/src/resolve.rs\<close>, \<open>dotnet_rid\<close> and \<open>dotnet_sdk_url\<close> of \<open>model.rs\<close> and the hash shape of \<open>sources.rs\<close>.
  A declaration is checked, its patches reference normalized, and the selection's declarations
  are unioned by name; the same name with two different declarations is an error.
\<close>

datatype app_why =
    NotBareName | NotDpkgSafe | EmptyValue | EmptySeries | NotPlainPath | NotSdkRelease | NoBuildHost
  | UnknownHost | NotSha512

datatype app_error =
    AppField string string app_why
  | ConflictingApp string string
  | MissingAppPatchesUrl string string "string list"
  | AppArchUnsupported string string string

definition dotnet_rid :: "string \<Rightarrow> string option" where
  "dotnet_rid arch =
     (if arch = ''amd64'' then Some ''linux-x64''
      else if arch = ''arm64'' then Some ''linux-arm64''
      else if arch = ''armhf'' then Some ''linux-arm''
      else None)"

definition dotnet_sdk_url :: "string \<Rightarrow> string \<Rightarrow> string option" where
  "dotnet_sdk_url version host_arch =
     map_option (\<lambda>rid.
       ''https://builds.dotnet.microsoft.com/dotnet/Sdk/'' @ version @ ''/dotnet-sdk-'' @ version @ ''-'' @ rid @ ''.tar.gz'')
       (dotnet_rid host_arch)"

definition is_lower_hex :: "string \<Rightarrow> bool" where
  "is_lower_hex s \<longleftrightarrow> list_all is_lower_hex_char s"

definition is_sha512_hex :: "string \<Rightarrow> bool" where
  "is_sha512_hex s \<longleftrightarrow> length s = 128 \<and> is_lower_hex s"

definition bare_identifier :: "string \<Rightarrow> bool" where
  "bare_identifier s \<longleftrightarrow> s \<noteq> [] \<and> list_all (\<lambda>c. is_lower c \<or> is_digit c \<or> c = CHR ''-'' \<or> c = CHR ''_'') s"

definition deb_ok :: "string \<Rightarrow> bool" where
  "deb_ok s \<longleftrightarrow> s \<noteq> [] \<and> is_alnum (hd s)
     \<and> list_all (\<lambda>c. is_lower c \<or> is_digit c \<or> c \<in> {CHR ''-'', CHR ''+'', CHR ''.''}) s"

definition version_ok :: "string \<Rightarrow> bool" where
  "version_ok s \<longleftrightarrow> s \<noteq> [] \<and> is_digit (hd s)
     \<and> list_all (\<lambda>c. is_alnum c \<or> c = CHR ''.'' \<or> c = CHR ''-'') s"

fun check_sdk_hosts :: "(string \<times> string) list \<Rightarrow> app_error + unit" where
  "check_sdk_hosts [] = Inr ()"
| "check_sdk_hosts ((host, hash) # rest) =
     (if dotnet_rid host = None then Inl (AppField ''app sdk sha512 host'' host UnknownHost)
      else if \<not> is_sha512_hex hash then Inl (AppField ''app sdk sha512'' hash NotSha512)
      else check_sdk_hosts rest)"

definition check_build :: "App \<Rightarrow> string \<Rightarrow> Arch \<Rightarrow> app_error + unit" where
  "check_build app feature arch =
     (case ap_build app of DotnetDeb d \<Rightarrow>
      let bad = (\<lambda>what value w. Inl (AppField what value w)) in
      if gs_git (dn_packaging d) = [] then bad ''app packaging git'' [] EmptyValue
      else if gs_git_ref (dn_packaging d) = [] then bad ''app packaging ref'' [] EmptyValue
      else if \<not> is_plain_relative_path (dn_source_dir d) then bad ''app source_dir'' (dn_source_dir d) NotPlainPath
      else if \<not> is_plain_relative_path (dn_project d) then bad ''app project'' (dn_project d) NotPlainPath
      else if \<not> version_ok (sk_version (dn_sdk d)) then bad ''app sdk version'' (sk_version (dn_sdk d)) NotSdkRelease
      else if sk_sha512 (dn_sdk d) = [] then bad ''app sdk sha512'' [] NoBuildHost
      else
        bind_r (check_sdk_hosts (sk_sha512 (dn_sdk d))) (\<lambda>_.
        if dotnet_rid (debian_arch arch) = None
        then Inl (AppArchUnsupported (ap_name app) feature (debian_arch arch)) else Inr ()))"

definition check_app :: "App \<Rightarrow> string \<Rightarrow> Arch \<Rightarrow> app_error + App" where
  "check_app app feature arch =
     (let bad = (\<lambda>what value w. Inl (AppField what value w)) in
      if \<not> bare_identifier (ap_name app) then bad ''app name'' (ap_name app) NotBareName
      else if \<not> deb_ok (ap_deb app) then bad ''app deb'' (ap_deb app) NotDpkgSafe
      else if ap_git app = [] then bad ''app git'' (ap_git app) EmptyValue
      else if ap_git_ref app = [] then bad ''app ref'' (ap_git_ref app) EmptyValue
      else if list_ex (\<lambda>s. s = []) (ap_patch_series app) then bad ''app patch series'' [] EmptySeries
      else if ap_patch_series app \<noteq> [] \<and> ap_patches_url app = None
      then Inl (MissingAppPatchesUrl (ap_name app) feature (ap_patch_series app))
      else
        bind_r (check_build app feature arch) (\<lambda>_.
        Inr (app\<lparr>ap_patches_ref :=
          (if ap_patch_series app = [] then None
           else Some (case ap_patches_ref app of Some r \<Rightarrow> r | None \<Rightarrow> DEFAULT_PATCHES_REF))\<rparr>)))"

fun merge_declared :: "App list \<Rightarrow> (string \<times> App) list \<Rightarrow> Arch \<Rightarrow> app_error + App list" where
  "merge_declared merged [] arch = Inr merged"
| "merge_declared merged ((feat_name, declared) # rest) arch =
     bind_r (check_app declared feat_name arch) (\<lambda>app.
     case find (\<lambda>a. ap_name a = ap_name app) merged of
       Some prior \<Rightarrow>
         if prior \<noteq> app then Inl (ConflictingApp (ap_name app) feat_name) else merge_declared merged rest arch
     | None \<Rightarrow> merge_declared (merged @ [app]) rest arch)"

definition declared_apps :: "(string \<times> Feature) list \<Rightarrow> (string \<times> App) list" where
  "declared_apps features = concat (map (\<lambda>(n, feat). map (Pair n) (ft_apps feat)) features)"

definition merge_apps :: "(string \<times> Feature) list \<Rightarrow> Arch \<Rightarrow> app_error + App list" where
  "merge_apps features arch = merge_declared [] (declared_apps features) arch"

section \<open>Checked declarations\<close>

lemma check_sdk_hosts_Inr:
  "check_sdk_hosts hs = Inr () \<longleftrightarrow> list_all (\<lambda>(host, hash). dotnet_rid host \<noteq> None \<and> is_sha512_hex hash) hs"
  by (induction hs) (auto split: if_splits)

text \<open>What the build stage may assume of an accepted declaration.\<close>

definition app_ok :: "App \<Rightarrow> Arch \<Rightarrow> bool" where
  "app_ok a arch \<longleftrightarrow>
     bare_identifier (ap_name a) \<and> deb_ok (ap_deb a) \<and> ap_git a \<noteq> [] \<and> ap_git_ref a \<noteq> []
     \<and> [] \<notin> set (ap_patch_series a) \<and> (ap_patch_series a \<noteq> [] \<longrightarrow> ap_patches_url a \<noteq> None)
     \<and> (case ap_build a of DotnetDeb d \<Rightarrow>
          gs_git (dn_packaging d) \<noteq> [] \<and> gs_git_ref (dn_packaging d) \<noteq> []
          \<and> is_plain_relative_path (dn_source_dir d) \<and> is_plain_relative_path (dn_project d)
          \<and> version_ok (sk_version (dn_sdk d)) \<and> sk_sha512 (dn_sdk d) \<noteq> []
          \<and> list_all (\<lambda>(host, hash). dotnet_rid host \<noteq> None \<and> is_sha512_hex hash) (sk_sha512 (dn_sdk d)))
     \<and> dotnet_rid (debian_arch arch) \<noteq> None"

definition normalized :: "App \<Rightarrow> App" where
  "normalized a = a\<lparr>ap_patches_ref :=
     (if ap_patch_series a = [] then None
      else Some (case ap_patches_ref a of Some r \<Rightarrow> r | None \<Rightarrow> DEFAULT_PATCHES_REF))\<rparr>"

lemma check_app_Inr: "check_app a feature arch = Inr b \<longleftrightarrow> app_ok a arch \<and> b = normalized a"
proof (cases "ap_build a")
  case (DotnetDeb d)
  have "check_build a feature arch = Inr () \<longleftrightarrow>
      gs_git (dn_packaging d) \<noteq> [] \<and> gs_git_ref (dn_packaging d) \<noteq> []
      \<and> is_plain_relative_path (dn_source_dir d) \<and> is_plain_relative_path (dn_project d)
      \<and> version_ok (sk_version (dn_sdk d)) \<and> sk_sha512 (dn_sdk d) \<noteq> []
      \<and> list_all (\<lambda>(host, hash). dotnet_rid host \<noteq> None \<and> is_sha512_hex hash) (sk_sha512 (dn_sdk d))
      \<and> dotnet_rid (debian_arch arch) \<noteq> None"
    by (simp add: check_build_def DotnetDeb Let_def check_sdk_hosts_Inr)
  then show ?thesis
    by (auto simp: check_app_def app_ok_def normalized_def DotnetDeb Let_def list_ex_iff)
qed

lemma normalized_simps [simp]:
  "ap_name (normalized a) = ap_name a" "ap_deb (normalized a) = ap_deb a"
  "ap_patch_series (normalized a) = ap_patch_series a"
  "normalized (normalized a) = normalized a"
  by (simp_all add: normalized_def split: option.splits)

section \<open>The union\<close>

definition apps_agree :: "App list \<Rightarrow> bool" where
  "apps_agree xs \<longleftrightarrow> (\<forall>a \<in> set xs. \<forall>b \<in> set xs. ap_name a = ap_name b \<longrightarrow> a = b)"

lemma merge_declared_Inr:
  assumes "apps_agree merged"
  shows "merge_declared merged rest arch = Inr res \<longleftrightarrow>
    list_all (\<lambda>(_, a). app_ok a arch) rest
    \<and> apps_agree (merged @ map (\<lambda>a. normalized (snd a)) rest)
    \<and> res = foldl (push_absent ap_name) merged (map (\<lambda>a. normalized (snd a)) rest)"
  using assms
proof (induction merged rest arch rule: merge_declared.induct)
  case (2 merged feat_name declared rest arch)
  show ?case
  proof (cases "app_ok declared arch")
    case ok: True
    then have c: "check_app declared feat_name arch = Inr (normalized declared)" by (simp add: check_app_Inr)
    let ?a = "normalized declared"
    show ?thesis
    proof (cases "find (\<lambda>a. ap_name a = ap_name ?a) merged")
      case None
      then have n: "\<forall>m \<in> set merged. ap_name m \<noteq> ap_name ?a" by (auto simp: find_None_iff)
      then have "push_absent ap_name merged ?a = merged @ [?a]" by (auto simp: push_absent_def list_ex_iff)
      moreover have "apps_agree (merged @ [?a])" using "2.prems" n unfolding apps_agree_def by simp metis
      ultimately show ?thesis using "2.IH"(1)[OF None] c ok None by simp
    next
      case (Some m)
      then have m: "m \<in> set merged" "ap_name m = ap_name ?a" by (auto simp: find_Some_iff)
      have p: "push_absent ap_name merged ?a = merged" using m by (auto simp: push_absent_def list_ex_iff)
      show ?thesis
      proof (cases "m = ?a")
        case True
        then have "set (merged @ ?a # map (\<lambda>a. normalized (snd a)) rest) = set (merged @ map (\<lambda>a. normalized (snd a)) rest)"
          using m(1) by auto
        then have "apps_agree (merged @ ?a # map (\<lambda>a. normalized (snd a)) rest)
            \<longleftrightarrow> apps_agree (merged @ map (\<lambda>a. normalized (snd a)) rest)"
          unfolding apps_agree_def by simp
        with True show ?thesis using "2.IH"(2)[OF Some] "2.prems" c ok Some p by simp
      next
        case False
        then have "\<not> apps_agree (merged @ ?a # map (\<lambda>a. normalized (snd a)) rest)"
          using m unfolding apps_agree_def by auto
        with False show ?thesis using c Some by simp
      qed
    qed
  next
    case False
    then have "check_app declared feat_name arch \<noteq> Inr b" for b by (simp add: check_app_Inr)
    then obtain e where "check_app declared feat_name arch = Inl e"
      by (cases "check_app declared feat_name arch") auto
    with False show ?thesis by simp
  qed
qed auto

text \<open>C38. Merging the selected features' applications succeeds exactly when every declaration is
  well formed for the target architecture and declarations of one name agree once their patches
  reference is normalized; the result then holds every application once, in selection order.\<close>

theorem apps_union:
  "merge_apps features arch = Inr res \<longleftrightarrow>
     (let declared = map snd (declared_apps features) in
      list_all (\<lambda>a. app_ok a arch) declared \<and> apps_agree (map normalized declared)
      \<and> res = dedup_on ap_name (map normalized declared))"
  by (auto simp: merge_apps_def merge_declared_Inr apps_agree_def foldl_push_absent list_all_iff Let_def o_def split_beta)

end
