(* ===== verification/Kernels.thy ===== *)
theory Kernels
  imports Features Loader
begin

text \<open>
  The kernel axis of \<open>crates/core/src/resolve.rs\<close>: what a kernel definition, the device and the
  selected features compose to (\<open>resolve_kernel\<close>), the out-of-tree modules the device opted into
  (\<open>resolve_kmods\<close>) and the run-time checks the layers declare (\<open>declared_expectations\<close>).
  A module name is looked up through the parameter \<open>load\<close>, the config root's \<open>kmod\<close>.
\<close>

section \<open>Data\<close>

record ResolvedKmod =
  rkm_name :: string
  rkm_description :: string
  rkm_git :: string
  rkm_git_ref :: string
  rkm_subdir :: string
  rkm_patch_dir :: string
  rkm_repo_patches :: "string list"
  rkm_local_patches :: "string list"
  rkm_make_args :: "string list"
  rkm_modules :: "string list"
  rkm_firmware :: "KmodFirmware option"

datatype kernel_error =
    MissingPatchesUrl string "string list"
  | FeatureNeedsCompiledKernel string string string
  | DistroKernelCompilesNothing string string string
  | DuplicateKmod string string
  | KmodLoad loader_error
  | KmodBad kmod_error

section \<open>The kernel\<close>

definition compile_kernel ::
  "CompiledKernelDef \<Rightarrow> string \<Rightarrow> DeviceLayer \<Rightarrow> selection \<Rightarrow> kernel_error + ResolvedKernel" where
  "compile_kernel k kid device features =
     (case kernel_contributions features of (feature_fragments, feature_series) \<Rightarrow>
      let config_fragments = ck_config_fragments k @ dev_config_fragments device @ feature_fragments;
          patch_series = ck_patch_series k @ dev_patch_series device @ feature_series in
      if patch_series \<noteq> [] \<and> ck_patches_url k = None then Inl (MissingPatchesUrl kid patch_series)
      else
        let patches_ref =
          (if patch_series \<noteq> []
           then Some (case ck_patches_ref k of Some r \<Rightarrow> r | None \<Rightarrow> DEFAULT_PATCHES_REF) else None) in
        Inr (CompiledKernel
          \<lparr>rck_id = kid, rck_flavor = ck_flavor k, rck_source = ck_source k, rck_track = ck_track k,
           rck_base_defconfig = ck_base_defconfig k, rck_patch_series = patch_series,
           rck_patches_url = ck_patches_url k, rck_patches_ref = patches_ref,
           rck_config_fragments = config_fragments, rck_libre = ck_libre k\<rparr>))"

definition compiled_inputs :: "DeviceLayer \<Rightarrow> (string \<times> bool) list" where
  "compiled_inputs device =
     [(''device_dts'', dev_device_dts device \<noteq> []),
      (''device_config_fragments'', dev_config_fragments device \<noteq> []),
      (''device_patch_series'', dev_patch_series device \<noteq> []),
      (''device_kmods'', dev_kmods device \<noteq> [])]"

definition install_kernel ::
  "DistroKernelDef \<Rightarrow> string \<Rightarrow> DeviceLayer \<Rightarrow> string \<Rightarrow> selection \<Rightarrow> kernel_error + ResolvedKernel" where
  "install_kernel k kid device device_name features =
     (case first_contributing_kernel_input features of
        Some (feature, what) \<Rightarrow> Inl (FeatureNeedsCompiledKernel feature kid what)
      | None \<Rightarrow>
          (case find snd (compiled_inputs device) of
             Some (what, _) \<Rightarrow> Inl (DistroKernelCompilesNothing device_name kid what)
           | None \<Rightarrow> Inr (DistroKernel \<lparr>rdk_id = kid, rdk_package = dk_package k\<rparr>)))"

definition resolve_kernel ::
  "KernelDef \<Rightarrow> string \<Rightarrow> DeviceLayer \<Rightarrow> string \<Rightarrow> selection \<Rightarrow> kernel_error + ResolvedKernel" where
  "resolve_kernel kdef kid device device_name features =
     (case kdef of
        CompiledDef k \<Rightarrow> compile_kernel k kid device features
      | DistroDef k \<Rightarrow> install_kernel k kid device device_name features)"

section \<open>Out-of-tree modules\<close>

definition resolved_kmod :: "string \<Rightarrow> KmodLayer \<Rightarrow> ResolvedKmod" where
  "resolved_kmod n k =
     \<lparr>rkm_name = n, rkm_description = kl_description k, rkm_git = kl_git k, rkm_git_ref = kl_git_ref k,
      rkm_subdir = kl_subdir k, rkm_patch_dir = kl_patch_dir k, rkm_repo_patches = kl_repo_patches k,
      rkm_local_patches = kl_local_patches k, rkm_make_args = kl_make_args k, rkm_modules = kl_modules k,
      rkm_firmware = kl_firmware k\<rparr>"

definition kmod_group :: "string \<Rightarrow> KmodLayer \<Rightarrow> ExpectationGroup list" where
  "kmod_group n k =
     (if kl_expect k \<noteq> [] then [\<lparr>eg_scope = ExKmod, eg_name = n, eg_expect = kl_expect k\<rparr>] else [])"

fun kmod_loop ::
  "(string \<Rightarrow> loader_error + KmodLayer) \<Rightarrow> string \<Rightarrow> string set \<Rightarrow> string list \<Rightarrow>
     kernel_error + ResolvedKmod list \<times> ExpectationGroup list" where
  "kmod_loop load device_name seen [] = Inr ([], [])"
| "kmod_loop load device_name seen (n # ns) =
     (if n \<in> seen then Inl (DuplicateKmod device_name n)
      else
        bind_r (lift_err KmodLoad (load n)) (\<lambda>k.
        bind_r (lift_err KmodBad (validate_kmod k n)) (\<lambda>_.
        bind_r (kmod_loop load device_name (insert n seen) ns) (\<lambda>(resolved, expectations).
        Inr (resolved_kmod n k # resolved, kmod_group n k @ expectations)))))"

definition resolve_kmods ::
  "(string \<Rightarrow> loader_error + KmodLayer) \<Rightarrow> string list \<Rightarrow> string \<Rightarrow>
     kernel_error + ResolvedKmod list \<times> ExpectationGroup list" where
  "resolve_kmods load ns device_name = kmod_loop load device_name {} ns"

section \<open>Declared checks\<close>

definition declared_expectations :: "ExpectationGroup list \<Rightarrow> ExpectationGroup list" where
  "declared_expectations layers = filter (\<lambda>g. eg_expect g \<noteq> []) layers"

section \<open>Lemmas\<close>

lemma first_contributing_None:
  "first_contributing_kernel_input fs = None \<longleftrightarrow>
     (\<forall>(_, f) \<in> set fs. ft_config_fragments f = [] \<and> ft_patch_series f = [])"
  by (induction fs rule: first_contributing_kernel_input.induct) auto

lemma install_kernel_Inr:
  "install_kernel k kid device n fs = Inr r \<longleftrightarrow>
     (\<forall>(_, f) \<in> set fs. ft_config_fragments f = [] \<and> ft_patch_series f = [])
     \<and> dev_device_dts device = [] \<and> dev_config_fragments device = [] \<and> dev_patch_series device = []
     \<and> dev_kmods device = [] \<and> r = DistroKernel \<lparr>rdk_id = kid, rdk_package = dk_package k\<rparr>"
  by (cases "first_contributing_kernel_input fs")
    (auto simp: install_kernel_def compiled_inputs_def first_contributing_None[symmetric] split: if_splits)

text \<open>The kernel's patch series and fragments: its own, the device's, then each contribution of the
  features once.\<close>

definition composed :: "string list \<Rightarrow> string list \<Rightarrow> string list list \<Rightarrow> string list" where
  "composed ks ds fs = ks @ ds @ dedup_on (\<lambda>s. s) (concat fs)"

lemma compile_kernel_Inr:
  "compile_kernel k kid device fs = Inr r \<longleftrightarrow>
     (let series = composed (ck_patch_series k) (dev_patch_series device) (map (ft_patch_series \<circ> snd) fs) in
      (series = [] \<or> ck_patches_url k \<noteq> None)
      \<and> r = CompiledKernel
          \<lparr>rck_id = kid, rck_flavor = ck_flavor k, rck_source = ck_source k, rck_track = ck_track k,
           rck_base_defconfig = ck_base_defconfig k, rck_patch_series = series,
           rck_patches_url = ck_patches_url k,
           rck_patches_ref = (if series = [] then None
             else Some (case ck_patches_ref k of Some r \<Rightarrow> r | None \<Rightarrow> DEFAULT_PATCHES_REF)),
           rck_config_fragments =
             composed (ck_config_fragments k) (dev_config_fragments device) (map (ft_config_fragments \<circ> snd) fs),
           rck_libre = ck_libre k\<rparr>)"
proof -
  have "kernel_contributions fs =
      (dedup_on (\<lambda>s. s) (concat (map (ft_config_fragments \<circ> snd) fs)),
       dedup_on (\<lambda>s. s) (concat (map (ft_patch_series \<circ> snd) fs)))"
    by (simp add: kernel_contributions_def keep_first_eq case_prod_unfold o_def)
  then show ?thesis
    unfolding compile_kernel_def composed_def Let_def by auto
qed

lemma kmod_loop_Inr:
  "kmod_loop load n seen names = Inr (resolved, groups) \<longleftrightarrow>
     distinct names \<and> set names \<inter> seen = {}
     \<and> (\<exists>ks. list_all2 (\<lambda>m k. load m = Inr k \<and> validate_kmod k m = Inr ()) names ks
          \<and> resolved = map2 resolved_kmod names ks \<and> groups = concat (map2 kmod_group names ks))"
proof (induction names arbitrary: seen resolved groups)
  case (Cons m ms)
  show ?case
    by (auto simp: Cons.IH list_all2_Cons1) fastforce+
qed auto

lemma resolve_kmods_Inr:
  "resolve_kmods load names n = Inr (resolved, groups) \<longleftrightarrow>
     distinct names
     \<and> (\<exists>ks. list_all2 (\<lambda>m k. load m = Inr k \<and> validate_kmod k m = Inr ()) names ks
          \<and> resolved = map2 resolved_kmod names ks \<and> groups = concat (map2 kmod_group names ks))"
  by (simp add: resolve_kmods_def kmod_loop_Inr)

lemma resolved_kmod_names:
  "list_all2 P names ks \<Longrightarrow> map rkm_name (map2 resolved_kmod names ks) = names"
  by (induction names ks rule: list_all2_induct) (simp_all add: resolved_kmod_def)

end
