(* ===== verification/Resolve.thy ===== *)
theory Resolve
  imports Kernels Boot Apps Distro Buildpoint
begin

text \<open>
  \<open>crates/core/src/resolve.rs\<close>: \<open>resolve_device\<close> and \<open>resolve_recipe\<close>, which compose every other
  part of the configuration into one build. The config root is the record \<open>config\<close> of its
  lookups: what \<open>ConfigRoot\<close> returns for a device with its lineage, a SoC, an architecture, a boot
  method, a kernel, a recipe, a feature, a module, the base layer, a distribution, and a listing.
  The phases of \<open>resolve_device\<close> are definitions of their own, in the code's order, so that each
  error is raised where the code raises it; a phase that fails ends the resolution.
\<close>

section \<open>Data\<close>

record config =
  cr_device :: "string \<Rightarrow> loader_error + DeviceLayer \<times> string list"
  cr_soc :: "Soc \<Rightarrow> loader_error + SocLayer"
  cr_arch :: "Arch \<Rightarrow> loader_error + ArchLayer"
  cr_boot_method :: "BootMethod \<Rightarrow> loader_error + BootMethodLayer"
  cr_kernel :: "string \<Rightarrow> loader_error + KernelDef"
  cr_recipe :: "string \<Rightarrow> loader_error + Recipe"
  cr_feature :: "string \<Rightarrow> loader_error + Feature"
  cr_kmod :: "string \<Rightarrow> loader_error + KmodLayer"
  cr_base :: "loader_error + BaseLayer"
  cr_distro :: "string \<Rightarrow> loader_error + DistroLayer"
  cr_list :: "string \<Rightarrow> loader_error + string list"

datatype resolve_error =
    RLoad loader_error
  | RField field_error
  | RLayer layer_error
  | RDts dts_error
  | RKernel kernel_error
  | RBoot boot_error
  | RFeature feature_error
  | RDistro distro_error
  | RApp app_error
  | RSize size_error
  | RVolume volume_error
  | RPoint point_error
  | UnsupportedBootMethod string BootMethod "BootMethod list"
  | UbootOnlyWithoutBootloader string BootMethod
  | RepeatedFeature string
  | UnknownKernelForDevice string string "string list"
  | SocMismatch string Soc "Soc list"
  | FeatureRequiresMediaAccel string Soc
  | LibreWithoutFreeComponents string string
  | InitramfsGeneratorUnsupported string BootMethod InitramfsGenerator
  | ZeroImageSize string
  | DataVolumeFeatureMismatch string bool
  | RecipeKeyNotApplicable string string
  | NonfreeSupportClaim string string

record ResolvedImage =
  im_kernel :: ResolvedKernel
  im_suite :: string
  im_features :: "string list"
  im_libre :: bool
  im_components :: "string list"
  im_user :: string
  im_initramfs_generator :: InitramfsGenerator
  im_image_size :: string
  im_hostname :: string
  im_data_volumes :: "DataVolume list"
  im_rootfs_packages :: "string list"
  im_rootfs_exclude :: "string list"
  im_locale :: string
  im_locales_generate :: "string list"
  im_timezone :: string
  im_ntp_servers :: "string list"
  im_keymap :: "Keymap option"
  im_sudo :: SudoPolicy
  im_first_boot_password_length :: nat
  im_ssh_authorized_keys :: "string list"
  im_groups :: "string list"
  im_initramfs_modules :: "string list"
  im_device_kmods :: "ResolvedKmod list"
  im_userspace :: "UserspaceTree list"
  im_ffmpeg :: "FfmpegSources option"
  im_ffmpeg_nonfree :: bool
  im_apt_sources :: "AptSource list"
  im_extra_debs :: "ExtraDeb list"
  im_ffmpeg_libs :: "FfmpegLib list"
  im_apps :: "App list"
  im_expectations :: "ExpectationGroup list"
  im_selftest_on_boot :: bool

record ResolvedBuild =
  rb_device :: string
  rb_device_lineage :: "string list"
  rb_description :: string
  rb_arch :: Arch
  rb_soc :: Soc
  rb_boot_method :: BootMethod
  rb_packaging_suite :: string
  rb_distro :: ResolvedDistro
  rb_layout :: Layout
  rb_boot :: ResolvedBoot
  rb_kernel_dtb :: string
  rb_device_dts :: "string list"
  rb_kernel_cmdline :: string
  rb_dt_dir :: string
  rb_modules :: "string list"
  rb_kernel_arch :: string
  rb_cross_compile :: string
  rb_kbuild_image :: string
  rb_caveats :: "Caveat list"
  rb_image :: "ResolvedImage option"

section \<open>Hardware\<close>

text \<open>What the first half of \<open>resolve_device\<close> has in scope when it reaches the deliverable.\<close>

record Hardware =
  hw_device :: DeviceLayer
  hw_lineage :: "string list"
  hw_soc :: SocLayer
  hw_arch :: ArchLayer
  hw_boot_method :: BootMethod
  hw_bm :: BootMethodLayer
  hw_kmods :: "ResolvedKmod list"
  hw_kmod_expect :: "ExpectationGroup list"
  hw_cmdline :: string
  hw_initramfs_modules :: "string list"
  hw_layout :: Layout
  hw_boot :: ResolvedBoot

definition choose_boot_method ::
  "config \<Rightarrow> string \<Rightarrow> DeviceLayer \<Rightarrow> Overrides \<Rightarrow> resolve_error + BootMethod \<times> BootMethodLayer" where
  "choose_boot_method root device_name device ov =
     (let boot_method = (case ov_boot_method ov of Some b \<Rightarrow> b | None \<Rightarrow> dev_boot_method device) in
      if boot_method \<notin> set (dev_supported_boot_methods device)
      then Inl (UnsupportedBootMethod device_name boot_method (dev_supported_boot_methods device))
      else
        bind_r (lift_err RLoad (cr_boot_method root boot_method)) (\<lambda>bm.
        if ov_deliverable ov = Deliverable.Uboot \<and> boot_method \<noteq> RockchipRkbin
        then Inl (UbootOnlyWithoutBootloader device_name boot_method)
        else Inr (boot_method, bm)))"

definition resolve_hardware :: "config \<Rightarrow> string \<Rightarrow> Overrides \<Rightarrow> resolve_error + Hardware" where
  "resolve_hardware root device_name ov =
     bind_r (lift_err RLoad (cr_device root device_name)) (\<lambda>(device, lineage).
     bind_r (lift_err RLoad (cr_soc root (dev_soc device))) (\<lambda>soc.
     bind_r (lift_err RLoad (cr_arch root (sl_arch soc))) (\<lambda>arch.
     bind_r (choose_boot_method root device_name device ov) (\<lambda>(boot_method, bm).
     bind_r (lift_err RDts (validate_device_dts (dev_device_dts device) (dev_kernel_dtb device) device_name)) (\<lambda>_.
     bind_r (lift_err RKernel (resolve_kmods (cr_kmod root) (dev_kmods device) device_name)) (\<lambda>(kmods, kmod_expect).
     bind_r (lift_err RField (validate_kernel_cmdline (dev_kernel_cmdline device))) (\<lambda>cmdline.
     bind_r (lift_err RField (validate_hostname (dev_hostname device))) (\<lambda>_.
     bind_r (lift_err RLayer (resolve_initramfs_modules (il_modules (sl_initramfs soc)) (il_modules (dev_initramfs device)))) (\<lambda>modules.
     let layout = (case ov_layout ov of Some l \<Rightarrow> l | None \<Rightarrow> dev_default_layout device) in
     bind_r (lift_err RBoot (resolve_boot bm device soc
       \<lparr>bpt_device_name = device_name, bpt_layout = layout, bpt_board = ov_board ov,
        bpt_kernel_cmdline = cmdline, bpt_uboot_series = ov_uboot_series ov\<rparr>)) (\<lambda>boot.
     Inr \<lparr>hw_device = device, hw_lineage = lineage, hw_soc = soc, hw_arch = arch, hw_boot_method = boot_method,
          hw_bm = bm, hw_kmods = kmods, hw_kmod_expect = kmod_expect, hw_cmdline = cmdline,
          hw_initramfs_modules = modules, hw_layout = layout, hw_boot = boot\<rparr>))))))))))"

text \<open>The part of a build every deliverable has.\<close>

definition build_of ::
  "Hardware \<Rightarrow> string \<Rightarrow> string \<Rightarrow> ResolvedDistro \<Rightarrow> Caveat list \<Rightarrow> ResolvedImage option \<Rightarrow> ResolvedBuild" where
  "build_of hw device_name packaging_suite distro caveats img =
     \<lparr>rb_device = device_name, rb_device_lineage = hw_lineage hw, rb_description = dev_description (hw_device hw),
      rb_arch = sl_arch (hw_soc hw), rb_soc = dev_soc (hw_device hw), rb_boot_method = hw_boot_method hw,
      rb_packaging_suite = packaging_suite, rb_distro = distro, rb_layout = hw_layout hw, rb_boot = hw_boot hw,
      rb_kernel_dtb = dev_kernel_dtb (hw_device hw), rb_device_dts = dev_device_dts (hw_device hw),
      rb_kernel_cmdline = hw_cmdline hw, rb_dt_dir = sl_dt_dir (hw_soc hw), rb_modules = sl_modules (hw_soc hw),
      rb_kernel_arch = al_kernel_arch (hw_arch hw), rb_cross_compile = al_cross_compile (hw_arch hw),
      rb_kbuild_image = al_kbuild_image (hw_arch hw), rb_caveats = caveats, rb_image = img\<rparr>"

definition distro_of :: "config \<Rightarrow> string \<Rightarrow> resolve_error + string \<times> DistroLayer" where
  "distro_of root suite = lift_err RDistro (distro_for_suite (cr_list root ''distros'') (cr_distro root) suite)"

definition resolve_uboot :: "config \<Rightarrow> string \<Rightarrow> Overrides \<Rightarrow> Hardware \<Rightarrow> resolve_error + ResolvedBuild" where
  "resolve_uboot root device_name ov hw =
     bind_r (lift_err RLayer (reject_rootfs_overrides device_name ov)) (\<lambda>_.
     let suite = dev_default_suite (hw_device hw) in
     bind_r (distro_of root suite) (\<lambda>(distro_name, distro).
     Inr (build_of hw device_name suite (distro_resolve distro distro_name suite)
       (hardware_caveats (sl_caveats (hw_soc hw)) (dev_caveats (hw_device hw))) None)))"

section \<open>Features\<close>

fun refuse_repeats :: "string set \<Rightarrow> string list \<Rightarrow> resolve_error + unit" where
  "refuse_repeats seen [] = Inr ()"
| "refuse_repeats seen (n # ns) =
     (if n \<in> seen then Inl (RepeatedFeature n) else refuse_repeats (insert n seen) ns)"

fun load_features :: "config \<Rightarrow> Soc \<Rightarrow> Arch \<Rightarrow> string list \<Rightarrow> resolve_error + selection" where
  "load_features root soc arch [] = Inr []"
| "load_features root soc arch (n # ns) =
     bind_r (lift_err RLoad (cr_feature root n)) (\<lambda>feat.
     bind_r (lift_err RFeature (ensure_supports_soc feat n soc)) (\<lambda>_.
     bind_r (lift_err RFeature (ensure_supports_arch feat n arch)) (\<lambda>_.
     bind_r (load_features root soc arch ns) (\<lambda>rest. Inr ((n, feat) # rest)))))"

text \<open>Every feature of the tree that loads and provides something.\<close>

fun known_providers :: "config \<Rightarrow> string list \<Rightarrow> (string \<times> string list) list" where
  "known_providers root [] = []"
| "known_providers root (n # ns) =
     (case cr_feature root n of
        Inr f \<Rightarrow> if ft_provides f \<noteq> [] then (n, ft_provides f) # known_providers root ns else known_providers root ns
      | Inl _ \<Rightarrow> known_providers root ns)"

definition select_features :: "config \<Rightarrow> Soc \<Rightarrow> Arch \<Rightarrow> string list \<Rightarrow> resolve_error + selection" where
  "select_features root soc arch features =
     bind_r (refuse_repeats {} features) (\<lambda>_.
     bind_r (load_features root soc arch features) (\<lambda>loaded.
     bind_r (lift_err RFeature (ensure_no_conflicts loaded)) (\<lambda>_.
     if list_ex (\<lambda>(_, f). ft_requires_capability f \<noteq> []) loaded then
       bind_r (lift_err RLoad (cr_list root ''features'')) (\<lambda>ns.
       bind_r (lift_err RFeature (ensure_capabilities_satisfied loaded (known_providers root ns))) (\<lambda>_.
       Inr loaded))
     else Inr loaded)))"

section \<open>Kernel and distribution\<close>

definition select_kernel ::
  "config \<Rightarrow> string \<Rightarrow> DeviceLayer \<Rightarrow> Overrides \<Rightarrow> selection \<Rightarrow> resolve_error + ResolvedKernel \<times> Expectation list" where
  "select_kernel root device_name device ov features =
     (let kid = (case ov_kernel ov of Some k \<Rightarrow> k | None \<Rightarrow> dev_default_kernel device) in
      if kid \<notin> set (dev_supported_kernels device)
      then Inl (UnknownKernelForDevice device_name kid (dev_supported_kernels device))
      else
        bind_r (lift_err RLoad (cr_kernel root kid)) (\<lambda>kdef.
        if dev_soc device \<notin> set (kdef_supported_socs kdef)
        then Inl (SocMismatch kid (dev_soc device) (kdef_supported_socs kdef))
        else
          bind_r (lift_err RKernel (resolve_kernel kdef kid device device_name features)) (\<lambda>kern.
          Inr (kern, kdef_expect kdef))))"

definition select_distro ::
  "config \<Rightarrow> string \<Rightarrow> DeviceLayer \<Rightarrow> Overrides \<Rightarrow> resolve_error + string \<times> string \<times> DistroLayer" where
  "select_distro root device_name device ov =
     (let suite = (case ov_suite ov of Some s \<Rightarrow> s | None \<Rightarrow> dev_default_suite device) in
      bind_r (distro_of root suite) (\<lambda>(distro_name, distro).
      bind_r (lift_err RLayer (check_suite_supported device_name (dev_supported_suites device) suite)) (\<lambda>_.
      Inr (suite, distro_name, distro))))"

definition media_accel :: "SocLayer \<Rightarrow> Soc \<Rightarrow> selection \<Rightarrow> resolve_error + bool" where
  "media_accel soc soc_name features =
     (case first_requiring_media_accel features of
        None \<Rightarrow> Inr False
      | Some feature \<Rightarrow>
          if sl_userspace soc = [] \<or> sl_ffmpeg soc = None
          then Inl (FeatureRequiresMediaAccel feature soc_name) else Inr True)"

definition choose_generator ::
  "string \<Rightarrow> BootMethod \<Rightarrow> DistroLayer \<Rightarrow> Overrides \<Rightarrow> resolve_error + InitramfsGenerator" where
  "choose_generator device_name boot_method distro ov =
     (let generator = (case ov_initramfs_generator ov of Some g \<Rightarrow> g | None \<Rightarrow> di_initramfs_generator distro) in
      if boot_method = Depthcharge \<and> generator \<noteq> InitramfsTools
      then Inl (InitramfsGeneratorUnsupported device_name boot_method generator)
      else Inr generator)"

section \<open>The root filesystem's packages\<close>

definition quoted :: "string \<Rightarrow> string \<Rightarrow> string" where
  "quoted what n = what @ '' '' @ [CHR 0x27] @ n @ [CHR 0x27]"

text \<open>The layers in merge order, each under the name a refusal states.\<close>

definition package_layers ::
  "Hardware \<Rightarrow> string \<Rightarrow> BaseLayer \<Rightarrow> string \<Rightarrow> DistroLayer \<Rightarrow> InitramfsGenerator \<Rightarrow> ResolvedKernel \<Rightarrow> selection \<Rightarrow>
     (string \<times> PackageEntry list) list" where
  "package_layers hw device_name base distro_name distro generator kern features =
     (let soc = hw_soc hw; device = hw_device hw; libre = kernel_libre kern;
          soc_layer = quoted ''soc'' (soc_as_str (dev_soc device));
          device_layer = quoted ''device'' device_name in
      [(''the base layer'', bl_packages base),
       (quoted ''distro'' distro_name, di_packages distro),
       (''the initramfs generator'', [Plain (generator_package generator)]),
       (soc_layer, sl_packages soc),
       (soc_layer, if libre then [] else sl_nonfree_firmware_packages soc),
       (''the boot method'', bm_packages (hw_bm hw)),
       (device_layer, dev_packages device),
       (device_layer, if libre then [] else dev_nonfree_firmware_packages device),
       (''the kernel'', case kern of DistroKernel k \<Rightarrow> [Plain (rdk_package k)] | CompiledKernel _ \<Rightarrow> [])]
      @ map (\<lambda>(n, feat). (quoted ''feature'' n, ft_packages feat)) features)"

fun extend_layers ::
  "string list \<times> string set \<Rightarrow> (string \<times> PackageEntry list) list \<Rightarrow> PackageFilter \<Rightarrow>
     layer_error + string list \<times> string set" where
  "extend_layers st [] flt = Inr st"
| "extend_layers st ((layer, src) # rest) flt =
     bind_r (extend_unique st src flt layer) (\<lambda>st. extend_layers st rest flt)"

definition exclude_lists :: "Hardware \<Rightarrow> BaseLayer \<Rightarrow> DistroLayer \<Rightarrow> selection \<Rightarrow> string list list" where
  "exclude_lists hw base distro features =
     [bl_exclude base, di_exclude distro, sl_exclude (hw_soc hw), bm_exclude (hw_bm hw), dev_exclude (hw_device hw)]
     @ map (\<lambda>(_, feat). ft_exclude feat) features"

definition rootfs_sets ::
  "Hardware \<Rightarrow> string \<Rightarrow> BaseLayer \<Rightarrow> string \<times> string \<times> DistroLayer \<Rightarrow> InitramfsGenerator \<Rightarrow> ResolvedKernel \<Rightarrow>
     selection \<Rightarrow> string list \<Rightarrow> resolve_error + string list \<times> string list \<times> App list" where
  "rootfs_sets hw device_name base chosen generator kern features known_distros =
     (case chosen of (suite, distro_name, distro) \<Rightarrow>
      let flt = \<lparr>pf_distro = distro_name, pf_suite = suite, pf_known_distros = known_distros\<rparr> in
      bind_r (lift_err RLayer (extend_layers ([], {})
        (package_layers hw device_name base distro_name distro generator kern features) flt)) (\<lambda>st.
      bind_r (lift_err RApp (merge_apps features (sl_arch (hw_soc hw)))) (\<lambda>apps.
      bind_r (lift_err RLayer (extend_unique st (map (\<lambda>a. Plain (ap_deb a)) apps) flt ''the selected apps'')) (\<lambda>(packages, _).
      let (exclude, seen_exclude) = foldl extend_names ([], {}) (exclude_lists hw base distro features) in
      Inr (filter (\<lambda>pkg. pkg \<notin> seen_exclude) packages, exclude, apps)))))"

definition choose_image_size :: "DeviceLayer \<Rightarrow> Overrides \<Rightarrow> resolve_error + string" where
  "choose_image_size device ov =
     (let image_size = (case ov_image_size ov of Some s \<Rightarrow> s | None \<Rightarrow> dev_image_size device) in
      bind_r (lift_err RSize (parse_image_size image_size)) (\<lambda>parsed.
      if parsed = Fixed 0 then Inl (ZeroImageSize image_size) else Inr image_size))"

definition expectation_layers ::
  "Hardware \<Rightarrow> string \<Rightarrow> ResolvedKernel \<Rightarrow> Expectation list \<Rightarrow> selection \<Rightarrow> ExpectationGroup list" where
  "expectation_layers hw device_name kern kernel_expect features =
     [\<lparr>eg_scope = ExSoc, eg_name = soc_as_str (dev_soc (hw_device hw)), eg_expect = sl_expect (hw_soc hw)\<rparr>,
      \<lparr>eg_scope = ExBootMethod, eg_name = boot_method_as_str (hw_boot_method hw), eg_expect = bm_expect (hw_bm hw)\<rparr>,
      \<lparr>eg_scope = ExDevice, eg_name = device_name, eg_expect = dev_expect (hw_device hw)\<rparr>,
      \<lparr>eg_scope = ExKernel, eg_name = kernel_id kern, eg_expect = kernel_expect\<rparr>]
     @ map (\<lambda>(n, feat). \<lparr>eg_scope = ExFeature, eg_name = n, eg_expect = ft_expect feat\<rparr>) features
     @ hw_kmod_expect hw"

section \<open>The image\<close>

definition resolve_image :: "config \<Rightarrow> string \<Rightarrow> Overrides \<Rightarrow> Hardware \<Rightarrow> resolve_error + ResolvedBuild" where
  "resolve_image root device_name ov hw =
     (let device = hw_device hw; soc = hw_soc hw;
          features = (case ov_features ov of Some fs \<Rightarrow> fs | None \<Rightarrow> []) in
      bind_r (select_features root (dev_soc device) (sl_arch soc) features) (\<lambda>loaded.
      bind_r (select_kernel root device_name device ov loaded) (\<lambda>(kern, kernel_expect).
      bind_r (select_distro root device_name device ov) (\<lambda>chosen.
      bind_r (media_accel soc (dev_soc device) loaded) (\<lambda>build_media_accel.
      bind_r (lift_err RLayer (merge_apt_sources loaded)) (\<lambda>apt_sources.
      bind_r (lift_err RLoad (cr_base root)) (\<lambda>base.
      let (suite, distro_name, distro) = chosen; libre = kernel_libre kern in
      bind_r (ok_or (LibreWithoutFreeComponents (kernel_id kern) distro_name) (image_components distro libre)) (\<lambda>components.
      bind_r (choose_generator device_name (hw_boot_method hw) distro ov) (\<lambda>generator.
      bind_r (lift_err RLoad (cr_list root ''distros'')) (\<lambda>known_distros.
      bind_r (rootfs_sets hw device_name base chosen generator kern loaded known_distros) (\<lambda>(packages, exclude, apps).
      bind_r (lift_err RLayer (merge_extra_debs (bl_extra_debs base) (sl_extra_debs soc) (bm_extra_debs (hw_bm hw))
        (dev_extra_debs device) loaded)) (\<lambda>extra_debs.
      bind_r (choose_image_size device ov) (\<lambda>image_size.
      bind_r (lift_err RLayer (resolve_l10n base (dev_keymap device) ov)) (\<lambda>(loc, locales_generate, timezone, keymap).
      bind_r (lift_err RLayer (resolve_ntp_servers base ov)) (\<lambda>ntp_servers.
      bind_r (lift_err RLayer (resolve_account base (sl_groups soc) (bm_groups (hw_bm hw)) (dev_groups device) ov)) (\<lambda>account.
      Inr (build_of hw device_name suite (distro_resolve distro distro_name suite)
        (feature_caveats (hardware_caveats (sl_caveats soc) (dev_caveats device)) loaded)
        (Some
          \<lparr>im_kernel = kern, im_suite = suite, im_features = features, im_libre = libre, im_components = components,
           im_user = di_default_user distro, im_initramfs_generator = generator, im_image_size = image_size,
           im_hostname = dev_hostname device, im_data_volumes = [], im_rootfs_packages = packages,
           im_rootfs_exclude = exclude, im_locale = loc, im_locales_generate = locales_generate,
           im_timezone = timezone, im_ntp_servers = ntp_servers, im_keymap = keymap, im_sudo = ac_sudo account,
           im_first_boot_password_length = ac_password_length account,
           im_ssh_authorized_keys = ac_authorized_keys account, im_groups = ac_groups account,
           im_initramfs_modules = hw_initramfs_modules hw, im_device_kmods = hw_kmods hw,
           im_userspace = (if build_media_accel then sl_userspace soc else []),
           im_ffmpeg = (if build_media_accel then sl_ffmpeg soc else None),
           im_ffmpeg_nonfree = first_enabling_ffmpeg_nonfree loaded \<noteq> None, im_apt_sources = apt_sources,
           im_extra_debs = extra_debs, im_ffmpeg_libs = merge_ffmpeg_libs loaded, im_apps = apps,
           im_expectations = declared_expectations (expectation_layers hw device_name kern kernel_expect loaded),
           im_selftest_on_boot = False\<rparr>))))))))))))))))))"

definition resolve_device :: "config \<Rightarrow> string \<Rightarrow> Overrides \<Rightarrow> resolve_error + ResolvedBuild" where
  "resolve_device root device_name ov =
     bind_r (resolve_hardware root device_name ov) (\<lambda>hw.
     if ov_deliverable ov = Deliverable.Uboot then resolve_uboot root device_name ov hw
     else resolve_image root device_name ov hw)"

section \<open>Recipes\<close>

definition recipe_overrides :: "Recipe \<Rightarrow> BuildPoint \<Rightarrow> Overrides \<Rightarrow> Overrides" where
  "recipe_overrides recipe point cli =
     \<lparr>ov_deliverable = rc_deliverable recipe,
      ov_kernel = or_else (ov_kernel cli) (rc_kernel recipe),
      ov_uboot_series = or_else (ov_uboot_series cli) (rc_uboot_series recipe),
      ov_suite = or_else (ov_suite cli) (rc_suite recipe),
      ov_initramfs_generator = or_else (ov_initramfs_generator cli) (rc_initramfs_generator recipe),
      ov_layout = or_else (ov_layout cli) (rc_layout recipe),
      ov_boot_method = ov_boot_method cli,
      ov_board = or_else (ov_board cli) (rc_board recipe),
      ov_features = or_else (or_else (ov_features cli) (feature_override point))
        (if rc_features recipe = [] then None else Some (rc_features recipe)),
      ov_image_size = or_else (ov_image_size cli) (rc_image_size recipe),
      ov_locale = or_else (ov_locale cli) (rc_locale recipe),
      ov_locales_generate = or_else (ov_locales_generate cli) (rc_locales_generate recipe),
      ov_timezone = or_else (ov_timezone cli) (rc_timezone recipe),
      ov_ntp_servers = or_else (ov_ntp_servers cli) (rc_ntp_servers recipe),
      ov_keymap = or_else (ov_keymap cli) (rc_keymap recipe),
      ov_sudo = or_else (ov_sudo cli) (rc_sudo recipe),
      ov_first_boot_password_length = or_else (ov_first_boot_password_length cli) (rc_first_boot_password_length recipe),
      ov_ssh_authorized_keys = or_else (ov_ssh_authorized_keys cli) (rc_ssh_authorized_keys recipe),
      ov_groups = or_else (ov_groups cli) (rc_groups recipe)\<rparr>"

text \<open>The recipe's own keys: into the image, or refused where there is none.\<close>

definition apply_recipe :: "Recipe \<Rightarrow> string \<Rightarrow> ResolvedBuild \<Rightarrow> resolve_error + ResolvedBuild" where
  "apply_recipe recipe ref0 build =
     (case rb_image build of
        Some img \<Rightarrow>
          bind_r (lift_err RVolume (validate_all (rc_data_volumes recipe))) (\<lambda>_.
          let has_feature = FEATURE \<in> set (im_features img) in
          if has_feature = (rc_data_volumes recipe = [])
          then Inl (DataVolumeFeatureMismatch ref0 has_feature)
          else Inr (build\<lparr>rb_image := Some (img\<lparr>im_data_volumes := rc_data_volumes recipe,
                                                    im_selftest_on_boot := rc_selftest_on_boot recipe\<rparr>)\<rparr>))
      | None \<Rightarrow>
          if rc_data_volumes recipe \<noteq> [] then Inl (RecipeKeyNotApplicable (rc_device recipe) ''data_volumes'')
          else if rc_selftest_on_boot recipe then Inl (RecipeKeyNotApplicable (rc_device recipe) ''selftest_on_boot'')
          else Inr build)"

definition is_nonfree :: "config \<Rightarrow> string \<Rightarrow> bool" where
  "is_nonfree root f = (case cr_feature root f of Inr ft \<Rightarrow> ft_ffmpeg_nonfree ft | Inl _ \<Rightarrow> False)"

definition check_claim :: "config \<Rightarrow> Recipe \<Rightarrow> string \<Rightarrow> bool \<Rightarrow> ResolvedBuild \<Rightarrow> resolve_error + unit" where
  "check_claim root recipe recipe_name authored_features build =
     (case (rb_image build, rc_support recipe) of
        (Some img, Some _) \<Rightarrow>
          if authored_features \<and> im_ffmpeg_nonfree img
          then Inl (NonfreeSupportClaim recipe_name
                 (case find (is_nonfree root) (im_features img) of
                    Some f \<Rightarrow> f | None \<Rightarrow> ''an ffmpeg_nonfree feature''))
          else Inr ()
      | _ \<Rightarrow> Inr ())"

definition recipe_caveats :: "Recipe \<Rightarrow> Caveat list \<Rightarrow> Caveat list" where
  "recipe_caveats recipe caveats =
     foldl (push_absent cv_text) caveats
       (map (\<lambda>t. \<lparr>cv_text = t, cv_scope = ScopeRecipe\<rparr>)
         (case rc_support recipe of Some s \<Rightarrow> su_caveats s | None \<Rightarrow> []))"

definition resolve_recipe :: "config \<Rightarrow> string \<Rightarrow> Overrides \<Rightarrow> resolve_error + ResolvedBuild" where
  "resolve_recipe root ref0 cli =
     bind_r (lift_err RPoint (bp_parse ref0)) (\<lambda>point.
     bind_r (lift_err RLoad (cr_recipe root (bp_recipe point))) (\<lambda>recipe.
     let authored_features = (ov_features cli = None \<and> feature_override point = None) in
     bind_r (resolve_device root (rc_device recipe) (recipe_overrides recipe point cli)) (\<lambda>build.
     bind_r (apply_recipe recipe ref0 build) (\<lambda>build.
     bind_r (check_claim root recipe (bp_recipe point) authored_features build) (\<lambda>_.
     Inr (build\<lparr>rb_caveats := recipe_caveats recipe (rb_caveats build)\<rparr>))))))"

section \<open>What a resolution went through\<close>

text \<open>The values in scope at the end of the image half, and that each phase returned them.\<close>

record Plan =
  pl_loaded :: selection
  pl_kern :: ResolvedKernel
  pl_kernel_expect :: "Expectation list"
  pl_suite :: string
  pl_distro_name :: string
  pl_distro :: DistroLayer
  pl_accel :: bool
  pl_base :: BaseLayer
  pl_generator :: InitramfsGenerator
  pl_known_distros :: "string list"
  pl_account :: Account

definition plan_ok :: "config \<Rightarrow> string \<Rightarrow> Overrides \<Rightarrow> Hardware \<Rightarrow> Plan \<Rightarrow> ResolvedImage \<Rightarrow> bool" where
  "plan_ok root device_name ov hw pl img \<longleftrightarrow>
     im_features img = (case ov_features ov of Some fs \<Rightarrow> fs | None \<Rightarrow> [])
     \<and> select_features root (dev_soc (hw_device hw)) (sl_arch (hw_soc hw)) (im_features img) = Inr (pl_loaded pl)
     \<and> select_kernel root device_name (hw_device hw) ov (pl_loaded pl) = Inr (pl_kern pl, pl_kernel_expect pl)
     \<and> select_distro root device_name (hw_device hw) ov = Inr (pl_suite pl, pl_distro_name pl, pl_distro pl)
     \<and> media_accel (hw_soc hw) (dev_soc (hw_device hw)) (pl_loaded pl) = Inr (pl_accel pl)
     \<and> merge_apt_sources (pl_loaded pl) = Inr (im_apt_sources img)
     \<and> cr_base root = Inr (pl_base pl)
     \<and> image_components (pl_distro pl) (kernel_libre (pl_kern pl)) = Some (im_components img)
     \<and> choose_generator device_name (hw_boot_method hw) (pl_distro pl) ov = Inr (pl_generator pl)
     \<and> cr_list root ''distros'' = Inr (pl_known_distros pl)
     \<and> rootfs_sets hw device_name (pl_base pl) (pl_suite pl, pl_distro_name pl, pl_distro pl) (pl_generator pl) (pl_kern pl)
         (pl_loaded pl) (pl_known_distros pl) = Inr (im_rootfs_packages img, im_rootfs_exclude img, im_apps img)
     \<and> merge_extra_debs (bl_extra_debs (pl_base pl)) (sl_extra_debs (hw_soc hw)) (bm_extra_debs (hw_bm hw))
         (dev_extra_debs (hw_device hw)) (pl_loaded pl) = Inr (im_extra_debs img)
     \<and> choose_image_size (hw_device hw) ov = Inr (im_image_size img)
     \<and> resolve_l10n (pl_base pl) (dev_keymap (hw_device hw)) ov
         = Inr (im_locale img, im_locales_generate img, im_timezone img, im_keymap img)
     \<and> resolve_ntp_servers (pl_base pl) ov = Inr (im_ntp_servers img)
     \<and> resolve_account (pl_base pl) (sl_groups (hw_soc hw)) (bm_groups (hw_bm hw)) (dev_groups (hw_device hw)) ov
         = Inr (pl_account pl)"

text \<open>The fields of the image that are copied from a phase's result.\<close>

definition image_from :: "Hardware \<Rightarrow> string \<Rightarrow> Plan \<Rightarrow> ResolvedImage \<Rightarrow> bool" where
  "image_from hw device_name pl img \<longleftrightarrow>
     im_kernel img = pl_kern pl \<and> im_suite img = pl_suite pl \<and> im_libre img = kernel_libre (pl_kern pl)
     \<and> im_user img = di_default_user (pl_distro pl) \<and> im_initramfs_generator img = pl_generator pl
     \<and> im_hostname img = dev_hostname (hw_device hw)
     \<and> im_data_volumes img = [] \<and> im_sudo img = ac_sudo (pl_account pl)
     \<and> im_first_boot_password_length img = ac_password_length (pl_account pl)
     \<and> im_ssh_authorized_keys img = ac_authorized_keys (pl_account pl) \<and> im_groups img = ac_groups (pl_account pl)
     \<and> im_initramfs_modules img = hw_initramfs_modules hw \<and> im_device_kmods img = hw_kmods hw
     \<and> im_userspace img = (if pl_accel pl then sl_userspace (hw_soc hw) else [])
     \<and> im_ffmpeg img = (if pl_accel pl then sl_ffmpeg (hw_soc hw) else None)
     \<and> im_ffmpeg_nonfree img = (first_enabling_ffmpeg_nonfree (pl_loaded pl) \<noteq> None)
     \<and> im_ffmpeg_libs img = merge_ffmpeg_libs (pl_loaded pl)
     \<and> im_expectations img
         = declared_expectations (expectation_layers hw device_name (pl_kern pl) (pl_kernel_expect pl) (pl_loaded pl))
     \<and> \<not> im_selftest_on_boot img"

lemma resolve_image_Inr:
  assumes "resolve_image root device_name ov hw = Inr b"
  obtains pl img where
    "plan_ok root device_name ov hw pl img" "image_from hw device_name pl img"
    "b = build_of hw device_name (pl_suite pl) (distro_resolve (pl_distro pl) (pl_distro_name pl) (pl_suite pl))
       (feature_caveats (hardware_caveats (sl_caveats (hw_soc hw)) (dev_caveats (hw_device hw))) (pl_loaded pl)) (Some img)"
proof -
  let ?fs = "case ov_features ov of Some fs \<Rightarrow> fs | None \<Rightarrow> []"
  note r = assms[unfolded resolve_image_def Let_def bind_r_eq_Inr lift_err_eq_Inr ok_or_eq_Inr split_paired_Ex prod.case]
  obtain loaded kern kernel_expect suite distro_name distro accel apt base components generator known packages
      exclude apps extra_debs image_size loc locs tz km ntp account where
    "select_features root (dev_soc (hw_device hw)) (sl_arch (hw_soc hw)) ?fs = Inr loaded"
    "select_kernel root device_name (hw_device hw) ov loaded = Inr (kern, kernel_expect)"
    "select_distro root device_name (hw_device hw) ov = Inr (suite, distro_name, distro)"
    "media_accel (hw_soc hw) (dev_soc (hw_device hw)) loaded = Inr accel"
    "merge_apt_sources loaded = Inr apt"
    "cr_base root = Inr base"
    "image_components distro (kernel_libre kern) = Some components"
    "choose_generator device_name (hw_boot_method hw) distro ov = Inr generator"
    "cr_list root ''distros'' = Inr known"
    "rootfs_sets hw device_name base (suite, distro_name, distro) generator kern loaded known = Inr (packages, exclude, apps)"
    "merge_extra_debs (bl_extra_debs base) (sl_extra_debs (hw_soc hw)) (bm_extra_debs (hw_bm hw))
       (dev_extra_debs (hw_device hw)) loaded = Inr extra_debs"
    "choose_image_size (hw_device hw) ov = Inr image_size"
    "resolve_l10n base (dev_keymap (hw_device hw)) ov = Inr (loc, locs, tz, km)"
    "resolve_ntp_servers base ov = Inr ntp"
    "resolve_account base (sl_groups (hw_soc hw)) (bm_groups (hw_bm hw)) (dev_groups (hw_device hw)) ov = Inr account"
    and b: "b = build_of hw device_name suite (distro_resolve distro distro_name suite)
        (feature_caveats (hardware_caveats (sl_caveats (hw_soc hw)) (dev_caveats (hw_device hw))) loaded)
        (Some
          \<lparr>im_kernel = kern, im_suite = suite, im_features = ?fs, im_libre = kernel_libre kern, im_components = components,
           im_user = di_default_user distro, im_initramfs_generator = generator, im_image_size = image_size,
           im_hostname = dev_hostname (hw_device hw), im_data_volumes = [], im_rootfs_packages = packages,
           im_rootfs_exclude = exclude, im_locale = loc, im_locales_generate = locs,
           im_timezone = tz, im_ntp_servers = ntp, im_keymap = km, im_sudo = ac_sudo account,
           im_first_boot_password_length = ac_password_length account,
           im_ssh_authorized_keys = ac_authorized_keys account, im_groups = ac_groups account,
           im_initramfs_modules = hw_initramfs_modules hw, im_device_kmods = hw_kmods hw,
           im_userspace = (if accel then sl_userspace (hw_soc hw) else []),
           im_ffmpeg = (if accel then sl_ffmpeg (hw_soc hw) else None),
           im_ffmpeg_nonfree = first_enabling_ffmpeg_nonfree loaded \<noteq> None, im_apt_sources = apt,
           im_extra_debs = extra_debs, im_ffmpeg_libs = merge_ffmpeg_libs loaded, im_apps = apps,
           im_expectations = declared_expectations (expectation_layers hw device_name kern kernel_expect loaded),
           im_selftest_on_boot = False\<rparr>)"
    by (insert r, elim exE conjE, rule that, assumption+, simp only: sum.inject)
  note facts = this
  show thesis
    by (rule that[where pl = "\<lparr>pl_loaded = loaded, pl_kern = kern, pl_kernel_expect = kernel_expect, pl_suite = suite,
          pl_distro_name = distro_name, pl_distro = distro, pl_accel = accel, pl_base = base, pl_generator = generator,
          pl_known_distros = known, pl_account = account\<rparr>"])
      (simp_all add: plan_ok_def image_from_def facts)
qed

lemma choose_boot_method_Inr:
  "choose_boot_method root n device ov = Inr (m, bm) \<longleftrightarrow>
     m = (case ov_boot_method ov of Some b \<Rightarrow> b | None \<Rightarrow> dev_boot_method device)
     \<and> m \<in> set (dev_supported_boot_methods device) \<and> cr_boot_method root m = Inr bm
     \<and> (ov_deliverable ov = Deliverable.Uboot \<longrightarrow> m = RockchipRkbin)"
  by (auto simp: choose_boot_method_def Let_def)

definition point_of :: "string \<Rightarrow> Overrides \<Rightarrow> Hardware \<Rightarrow> BootPoint" where
  "point_of device_name ov hw =
     \<lparr>bpt_device_name = device_name, bpt_layout = hw_layout hw, bpt_board = ov_board ov,
      bpt_kernel_cmdline = hw_cmdline hw, bpt_uboot_series = ov_uboot_series ov\<rparr>"

text \<open>A hardware half and the phases it came from.\<close>

definition hardware_ok :: "config \<Rightarrow> string \<Rightarrow> Overrides \<Rightarrow> Hardware \<Rightarrow> bool" where
  "hardware_ok root device_name ov hw \<longleftrightarrow>
     cr_device root device_name = Inr (hw_device hw, hw_lineage hw)
     \<and> cr_soc root (dev_soc (hw_device hw)) = Inr (hw_soc hw)
     \<and> cr_arch root (sl_arch (hw_soc hw)) = Inr (hw_arch hw)
     \<and> choose_boot_method root device_name (hw_device hw) ov = Inr (hw_boot_method hw, hw_bm hw)
     \<and> validate_device_dts (dev_device_dts (hw_device hw)) (dev_kernel_dtb (hw_device hw)) device_name = Inr ()
     \<and> resolve_kmods (cr_kmod root) (dev_kmods (hw_device hw)) device_name = Inr (hw_kmods hw, hw_kmod_expect hw)
     \<and> validate_kernel_cmdline (dev_kernel_cmdline (hw_device hw)) = Inr (hw_cmdline hw)
     \<and> validate_hostname (dev_hostname (hw_device hw)) = Inr ()
     \<and> resolve_initramfs_modules (il_modules (sl_initramfs (hw_soc hw))) (il_modules (dev_initramfs (hw_device hw)))
         = Inr (hw_initramfs_modules hw)
     \<and> hw_layout hw = (case ov_layout ov of Some l \<Rightarrow> l | None \<Rightarrow> dev_default_layout (hw_device hw))
     \<and> resolve_boot (hw_bm hw) (hw_device hw) (hw_soc hw) (point_of device_name ov hw) = Inr (hw_boot hw)"

lemma resolve_hardware_Inr:
  assumes "resolve_hardware root device_name ov = Inr hw"
  shows "hardware_ok root device_name ov hw"
proof -
  note r = assms[unfolded resolve_hardware_def Let_def bind_r_eq_Inr lift_err_eq_Inr split_paired_Ex prod.case]
  show ?thesis
    by (insert r, elim exE conjE, drule Inr_inject, hypsubst)
      (simp add: hardware_ok_def point_of_def split: option.split)
qed

end
