(* ===== verification/Resolution.thy ===== *)
theory Resolution
  imports Resolve
begin

text \<open>
  What a resolved build guarantees: every axis within what the device declares, the package set
  and its exclusions, the feature selection, the precedence of command line
  over build point over recipe over device, the recipe's own keys, the check files, and the
  u-boot deliverable. Each theorem is about \<open>resolve_device\<close> or \<open>resolve_recipe\<close> as a whole and
  rests on the lemma of the phase it speaks of.
\<close>

section \<open>The two deliverables\<close>

lemma resolve_device_image:
  assumes "resolve_device root n ov = Inr b" "rb_image b = Some img"
  obtains hw pl where "hardware_ok root n ov hw" "plan_ok root n ov hw pl img" "image_from hw n pl img"
    "b = build_of hw n (pl_suite pl) (distro_resolve (pl_distro pl) (pl_distro_name pl) (pl_suite pl))
       (feature_caveats (hardware_caveats (sl_caveats (hw_soc hw)) (dev_caveats (hw_device hw))) (pl_loaded pl)) (Some img)"
    "ov_deliverable ov \<noteq> Deliverable.Uboot"
proof -
  from assms(1) obtain hw where hw: "resolve_hardware root n ov = Inr hw"
    and r: "(if ov_deliverable ov = Deliverable.Uboot then resolve_uboot root n ov hw else resolve_image root n ov hw) = Inr b"
    by (auto simp: resolve_device_def)
  have d: "ov_deliverable ov \<noteq> Deliverable.Uboot"
    using r assms(2) by (auto simp: resolve_uboot_def Let_def build_of_def)
  with r have "resolve_image root n ov hw = Inr b" by simp
  then obtain pl img' where p: "plan_ok root n ov hw pl img'" "image_from hw n pl img'"
    "b = build_of hw n (pl_suite pl) (distro_resolve (pl_distro pl) (pl_distro_name pl) (pl_suite pl))
       (feature_caveats (hardware_caveats (sl_caveats (hw_soc hw)) (dev_caveats (hw_device hw))) (pl_loaded pl)) (Some img')"
    by (rule resolve_image_Inr)
  then have "img' = img" using assms(2) by (simp add: build_of_def)
  with p d resolve_hardware_Inr[OF hw] show thesis by (intro that) auto
qed

lemma resolve_device_uboot:
  assumes "resolve_device root n ov = Inr b" "rb_image b = None"
  obtains hw distro_name distro where "hardware_ok root n ov hw" "ov_deliverable ov = Deliverable.Uboot"
    "reject_rootfs_overrides n ov = Inr ()"
    "distro_of root (dev_default_suite (hw_device hw)) = Inr (distro_name, distro)"
    "b = build_of hw n (dev_default_suite (hw_device hw)) (distro_resolve distro distro_name (dev_default_suite (hw_device hw)))
       (hardware_caveats (sl_caveats (hw_soc hw)) (dev_caveats (hw_device hw))) None"
proof -
  from assms(1) obtain hw where hw: "resolve_hardware root n ov = Inr hw"
    and r: "(if ov_deliverable ov = Deliverable.Uboot then resolve_uboot root n ov hw else resolve_image root n ov hw) = Inr b"
    by (auto simp: resolve_device_def)
  have d: "ov_deliverable ov = Deliverable.Uboot"
  proof (rule ccontr)
    assume "ov_deliverable ov \<noteq> Deliverable.Uboot"
    with r have "resolve_image root n ov hw = Inr b" by simp
    then show False by (elim resolve_image_Inr) (use assms(2) in \<open>simp add: build_of_def\<close>)
  qed
  with r obtain distro_name distro where "reject_rootfs_overrides n ov = Inr ()"
    "distro_of root (dev_default_suite (hw_device hw)) = Inr (distro_name, distro)"
    "b = build_of hw n (dev_default_suite (hw_device hw)) (distro_resolve distro distro_name (dev_default_suite (hw_device hw)))
       (hardware_caveats (sl_caveats (hw_soc hw)) (dev_caveats (hw_device hw))) None"
    by (auto simp: resolve_uboot_def Let_def)
  with resolve_hardware_Inr[OF hw] d show thesis by (rule that)
qed

section \<open>Packages\<close>

lemma extend_layers_Inr:
  "extend_layers (acc, seen) layers flt = Inr (acc', seen') \<longleftrightarrow>
     (\<forall>(layer, src) \<in> set layers. list_all (entry_ok flt layer) src)
     \<and> (seen', acc') = foldl (push_new (\<lambda>n. n)) (seen, acc) (concat (map (applicable flt \<circ> snd) layers))"
proof (induction layers arbitrary: acc seen)
  case (Cons l layers)
  obtain layer src where l: "l = (layer, src)" by (cases l)
  obtain seen1 acc1 where f: "foldl (push_new (\<lambda>n. n)) (seen, acc) (applicable flt src) = (seen1, acc1)"
    by (cases "foldl (push_new (\<lambda>n. n)) (seen, acc) (applicable flt src)") auto
  show ?case
  proof (cases "list_all (entry_ok flt layer) src")
    case True
    then have "extend_unique (acc, seen) src flt layer = Inr (acc1, seen1)" by (simp add: extend_unique_Inr f)
    with True show ?thesis by (simp add: l Cons.IH f)
  next
    case False
    then have "\<nexists>a s. extend_unique (acc, seen) src flt layer = Inr (a, s)" by (simp add: extend_unique_Inr)
    then obtain e where "extend_unique (acc, seen) src flt layer = Inl e"
      by (cases "extend_unique (acc, seen) src flt layer") auto
    with False show ?thesis by (auto simp: l)
  qed
qed auto

lemma foldl_extend_names:
  "foldl extend_names (acc, seen) xss =
     (case foldl (push_new (\<lambda>n. n)) (seen, acc) (concat xss) of (s, a) \<Rightarrow> (a, s))"
  by (induction xss arbitrary: acc seen) (auto simp: extend_names_def split: prod.splits)

lemma set_dedup_id [simp]: "set (dedup_on (\<lambda>n. n) xs) = set xs"
  using keys_dedup_on[of "\<lambda>n. n" xs] by simp

lemma distinct_dedup_id [simp]: "distinct (dedup_on (\<lambda>n. n) xs)"
  using distinct_dedup_on[of "\<lambda>n. n" xs] by simp

text \<open>The names the layers ask for, and the names they exclude.\<close>

definition wanted :: "PackageFilter \<Rightarrow> (string \<times> PackageEntry list) list \<Rightarrow> App list \<Rightarrow> string list" where
  "wanted flt layers apps = concat (map (applicable flt \<circ> snd) layers) @ map ap_deb apps"

lemma rootfs_sets_Inr:
  assumes "rootfs_sets hw n base (suite, distro_name, distro) generator kern features known = Inr (packages, exclude, apps)"
  shows "exclude = dedup_on (\<lambda>n. n) (concat (exclude_lists hw base distro features))"
    and "packages = filter (\<lambda>p. p \<notin> set exclude)
        (dedup_on (\<lambda>n. n) (wanted \<lparr>pf_distro = distro_name, pf_suite = suite, pf_known_distros = known\<rparr>
          (package_layers hw n base distro_name distro generator kern features) apps))"
    and "merge_apps features (sl_arch (hw_soc hw)) = Inr apps"
proof -
  let ?flt = "\<lparr>pf_distro = distro_name, pf_suite = suite, pf_known_distros = known\<rparr>"
  let ?layers = "package_layers hw n base distro_name distro generator kern features"
  obtain acc seen pk sn where
    e: "extend_layers ([], {}) ?layers ?flt = Inr (acc, seen)"
    and a: "merge_apps features (sl_arch (hw_soc hw)) = Inr apps"
    and u: "extend_unique (acc, seen) (map (\<lambda>a. Plain (ap_deb a)) apps) ?flt ''the selected apps'' = Inr (pk, sn)"
    and x: "exclude = fst (foldl extend_names ([], {}) (exclude_lists hw base distro features))"
    and p: "packages = filter (\<lambda>pkg. pkg \<notin> snd (foldl extend_names ([], {}) (exclude_lists hw base distro features))) pk"
    using assms by (auto simp: rootfs_sets_def Let_def split_beta)
  show "merge_apps features (sl_arch (hw_soc hw)) = Inr apps" by (rule a)
  show ex: "exclude = dedup_on (\<lambda>n. n) (concat (exclude_lists hw base distro features))"
    unfolding x by (simp add: foldl_extend_names foldl_push_new)
  have sx: "snd (foldl extend_names ([], {}) (exclude_lists hw base distro features)) = set exclude"
    unfolding ex by (simp add: foldl_extend_names foldl_push_new)
  have "applicable ?flt (map (\<lambda>a. Plain (ap_deb a)) apps) = map ap_deb apps"
    by (simp add: applicable_def entry_applies_to_def entry_name_def o_def)
  then have "pk = dedup_on (\<lambda>n. n) (wanted ?flt ?layers apps)"
    using e u by (simp add: extend_layers_Inr extend_unique_Inr foldl_push_new wanted_def dedup_on_append)
  then show "packages = filter (\<lambda>p. p \<notin> set exclude) (dedup_on (\<lambda>n. n) (wanted ?flt ?layers apps))"
    unfolding p sx by simp
qed

section \<open>Phases\<close>

lemma resolve_kernel_id: "resolve_kernel kd kid device n fs = Inr k \<Longrightarrow> kernel_id k = kid"
  by (cases kd) (auto simp: resolve_kernel_def compile_kernel_Inr install_kernel_Inr kernel_id_def Let_def)

lemma select_kernel_Inr:
  assumes "select_kernel root n device ov fs = Inr (k, e)"
  shows "kernel_id k = (case ov_kernel ov of Some x \<Rightarrow> x | None \<Rightarrow> dev_default_kernel device)"
    "kernel_id k \<in> set (dev_supported_kernels device)"
    "\<exists>kd. cr_kernel root (kernel_id k) = Inr kd \<and> dev_soc device \<in> set (kdef_supported_socs kd)
       \<and> resolve_kernel kd (kernel_id k) device n fs = Inr k \<and> e = kdef_expect kd"
proof -
  let ?kid = "case ov_kernel ov of Some x \<Rightarrow> x | None \<Rightarrow> dev_default_kernel device"
  from assms obtain kd where r: "?kid \<in> set (dev_supported_kernels device)" "cr_kernel root ?kid = Inr kd"
    "dev_soc device \<in> set (kdef_supported_socs kd)" "resolve_kernel kd ?kid device n fs = Inr k" "e = kdef_expect kd"
    by (auto simp: select_kernel_def Let_def split: if_splits)
  moreover from r(4) have "kernel_id k = ?kid" by (rule resolve_kernel_id)
  ultimately show "kernel_id k = ?kid" "kernel_id k \<in> set (dev_supported_kernels device)"
    "\<exists>kd. cr_kernel root (kernel_id k) = Inr kd \<and> dev_soc device \<in> set (kdef_supported_socs kd)
       \<and> resolve_kernel kd (kernel_id k) device n fs = Inr k \<and> e = kdef_expect kd"
    by auto
qed

lemma check_suite_supported_Inr:
  "check_suite_supported n supported suite = Inr () \<longleftrightarrow>
     supported = [ANY_SUITE] \<or> ANY_SUITE \<notin> set supported \<and> suite \<in> set supported"
proof (cases supported)
  case (Cons s ss)
  then show ?thesis by (cases ss) (auto simp: check_suite_supported_def Let_def)
qed (simp add: check_suite_supported_def Let_def)

lemma distro_of_Inr:
  assumes "distro_of root suite = Inr (d, layer)"
  shows "check_suite suite = Inr ()" "cr_distro root d = Inr layer" "distro_validate layer d = Inr ()" "serves layer suite"
  using assms distro_for_suite_Inr[of "cr_list root ''distros''" "cr_distro root" suite d layer]
  by (simp_all add: distro_of_def)

lemma select_distro_Inr:
  assumes "select_distro root n device ov = Inr (suite, d, layer)"
  shows "suite = (case ov_suite ov of Some x \<Rightarrow> x | None \<Rightarrow> dev_default_suite device)"
    "distro_of root suite = Inr (d, layer)" "check_suite_supported n (dev_supported_suites device) suite = Inr ()"
  using assms by (auto simp: select_distro_def Let_def)

lemma image_components_sound:
  assumes "distro_validate layer d = Inr ()" "image_components layer libre = Some cs"
  shows "cs \<noteq> []" "set cs \<subseteq> set (di_components layer)"
  using assms(2) distro_validate_Inr(8,10)[OF assms(1)]
  by (auto simp: image_components_def check_free_def refuse_first_Inr split: if_splits option.splits)

lemma resolve_rkbin_boot_Inr:
  assumes "resolve_rkbin_boot l device soc point = Inr boot"
  obtains r where "boot = RkbinBoot r"
    "pins_ok l device (bpt_uboot_series point) (rrb_uboot_series r, rrb_uboot_patches_url r, rrb_uboot_patches_ref r)"
    "trim (rrb_uboot_defconfig r) \<noteq> []"
  using assms
  by (auto simp: resolve_rkbin_boot_def Let_def resolve_uboot_series_Inr split: option.splits if_splits)

definition boot_within :: "DeviceLayer \<Rightarrow> Layout \<Rightarrow> ResolvedBoot \<Rightarrow> bool" where
  "boot_within device layout boot =
     (case boot of
        RkbinBoot r \<Rightarrow>
          trim (rrb_uboot_defconfig r) \<noteq> []
          \<and> set_option (rrb_uboot_series r) \<subseteq> set (dev_supported_uboot_series device)
          \<and> (rrb_uboot_series r = None) = (rrb_uboot_patches_url r = None)
          \<and> (rrb_uboot_series r = None) = (rrb_uboot_patches_ref r = None)
      | DepthchargeBoot r \<Rightarrow>
          layout \<noteq> Split \<and> (\<exists>dc. dev_depthcharge device = Some dc \<and> rdb_board r \<in> set (dd_supported_boards dc)))"

lemma resolve_boot_within:
  assumes "resolve_boot bm device soc point = Inr boot"
  shows "boot_within device (bpt_layout point) boot"
proof (cases bm)
  case (RkbinLayerOf l)
  then have "resolve_rkbin_boot l device soc point = Inr boot" using assms by (simp add: resolve_boot_def)
  then show ?thesis
    by (elim resolve_rkbin_boot_Inr) (auto simp: boot_within_def pins_ok_def split: option.splits if_splits)
next
  case (DepthchargeLayerOf l)
  then have "resolve_depthcharge_boot l device point = Inr boot" using assms by (simp add: resolve_boot_def)
  then show ?thesis by (rule resolve_depthcharge_Inr) (simp add: boot_within_def)
qed

lemma hardware_within:
  assumes "hardware_ok root n ov hw"
  shows "boot_within (hw_device hw) (hw_layout hw) (hw_boot hw)"
    "hw_boot_method hw \<in> set (dev_supported_boot_methods (hw_device hw))"
    "ov_deliverable ov = Deliverable.Uboot \<Longrightarrow> hw_boot_method hw = RockchipRkbin"
    "cr_device root n = Inr (hw_device hw, hw_lineage hw)" "cr_soc root (dev_soc (hw_device hw)) = Inr (hw_soc hw)"
proof -
  have "resolve_boot (hw_bm hw) (hw_device hw) (hw_soc hw) (point_of n ov hw) = Inr (hw_boot hw)"
    using assms by (simp only: hardware_ok_def)
  from resolve_boot_within[OF this] show "boot_within (hw_device hw) (hw_layout hw) (hw_boot hw)"
    by (simp add: point_of_def)
  show "hw_boot_method hw \<in> set (dev_supported_boot_methods (hw_device hw))"
    "cr_device root n = Inr (hw_device hw, hw_lineage hw)" "cr_soc root (dev_soc (hw_device hw)) = Inr (hw_soc hw)"
    "ov_deliverable ov = Deliverable.Uboot \<Longrightarrow> hw_boot_method hw = RockchipRkbin"
    using assms by (auto simp: hardware_ok_def choose_boot_method_Inr)
qed

lemma refuse_repeats_Inr: "refuse_repeats seen ns = Inr () \<longleftrightarrow> distinct ns \<and> set ns \<inter> seen = {}"
  by (induction ns arbitrary: seen) auto

lemma load_features_Inr:
  "load_features root soc arch ns = Inr l \<longleftrightarrow>
     map fst l = ns \<and> (\<forall>(m, f) \<in> set l. cr_feature root m = Inr f \<and> supports_soc f soc \<and> supports_arch f arch)"
proof (induction ns arbitrary: l)
  case (Cons m ns)
  show ?case
    by (cases l) (auto simp: Cons.IH ensure_supports_soc_def ensure_supports_arch_def split: if_splits)
qed auto

lemma select_features_Inr:
  assumes "select_features root soc arch ns = Inr l"
  shows "distinct ns" "map fst l = ns"
    "\<forall>(m, f) \<in> set l. cr_feature root m = Inr f \<and> supports_soc f soc \<and> supports_arch f arch"
    "sorted_wrt (\<lambda>p q. \<not> clash p q) l"
    "\<forall>(_, f) \<in> set l. \<forall>c \<in> set (ft_requires_capability f). \<exists>(_, g) \<in> set l. c \<in> set (ft_provides g)"
proof -
  from assms have r: "refuse_repeats {} ns = Inr ()" and l: "load_features root soc arch ns = Inr l"
    and c: "ensure_no_conflicts l = Inr ()"
    by (auto simp: select_features_def split: if_splits)
  show "distinct ns" using r by (simp add: refuse_repeats_Inr)
  show "map fst l = ns" "\<forall>(m, f) \<in> set l. cr_feature root m = Inr f \<and> supports_soc f soc \<and> supports_arch f arch"
    using l by (simp_all add: load_features_Inr)
  show "sorted_wrt (\<lambda>p q. \<not> clash p q) l" using c by (simp add: no_conflicts_Inr)
  show "\<forall>(_, f) \<in> set l. \<forall>c \<in> set (ft_requires_capability f). \<exists>(_, g) \<in> set l. c \<in> set (ft_provides g)"
  proof (cases "list_ex (\<lambda>(_, f). ft_requires_capability f \<noteq> []) l")
    case True
    with assms r l c obtain ks where "ensure_capabilities_satisfied l ks = Inr ()"
      by (auto simp: select_features_def)
    then show ?thesis by (simp add: ensure_capabilities_satisfied_def check_selected_Inr)
  qed (fastforce simp: list_ex_iff)
qed

lemma first_enabling_iff: "first_enabling_ffmpeg_nonfree l \<noteq> None \<longleftrightarrow> (\<exists>(_, f) \<in> set l. ft_ffmpeg_nonfree f)"
  by (auto simp: first_enabling_ffmpeg_nonfree_def find_None_iff)

lemma media_accel_Inr:
  "media_accel soc s l = Inr a \<longleftrightarrow>
     (a \<longleftrightarrow> (\<exists>(_, f) \<in> set l. ft_requires_media_accel f)) \<and> (a \<longrightarrow> sl_userspace soc \<noteq> [] \<and> sl_ffmpeg soc \<noteq> None)"
proof -
  have "first_requiring_media_accel l = None \<longleftrightarrow> \<not> (\<exists>(_, f) \<in> set l. ft_requires_media_accel f)"
    by (auto simp: first_requiring_media_accel_def find_None_iff)
  then show ?thesis
    by (cases "first_requiring_media_accel l") (auto simp: media_accel_def)
qed

text \<open>Two groups write the same file only when scope and name agree.\<close>

lemma group_file_name_inj:
  "group_file_name g = group_file_name h \<longleftrightarrow> eg_scope g = eg_scope h \<and> eg_name g = eg_name h"
  by (cases "eg_scope g"; cases "eg_scope h") (simp_all add: group_file_name_def)

lemma kmod_groups:
  assumes "list_all2 P names ks" "distinct names"
  shows "distinct (map eg_name (concat (map2 kmod_group names ks)))"
    "\<forall>g \<in> set (concat (map2 kmod_group names ks)). eg_scope g = ExKmod \<and> eg_name g \<in> set names"
  using assms
proof (induction names ks rule: list_all2_induct)
  case (Cons n ns k ks)
  {
    case 1
    then show ?case using Cons by (auto simp: kmod_group_def)
  next
    case 2
    then show ?case using Cons by (auto simp: kmod_group_def)
  }
qed simp_all

lemma plan_phases:
  assumes "plan_ok root n ov hw pl img"
  shows "im_features img = (case ov_features ov of Some fs \<Rightarrow> fs | None \<Rightarrow> [])"
    "select_features root (dev_soc (hw_device hw)) (sl_arch (hw_soc hw)) (im_features img) = Inr (pl_loaded pl)"
    "select_kernel root n (hw_device hw) ov (pl_loaded pl) = Inr (pl_kern pl, pl_kernel_expect pl)"
    "select_distro root n (hw_device hw) ov = Inr (pl_suite pl, pl_distro_name pl, pl_distro pl)"
    "media_accel (hw_soc hw) (dev_soc (hw_device hw)) (pl_loaded pl) = Inr (pl_accel pl)"
    "choose_generator n (hw_boot_method hw) (pl_distro pl) ov = Inr (pl_generator pl)"
    "choose_image_size (hw_device hw) ov = Inr (im_image_size img)"
    "image_components (pl_distro pl) (kernel_libre (pl_kern pl)) = Some (im_components img)"
    "resolve_l10n (pl_base pl) (dev_keymap (hw_device hw)) ov
       = Inr (im_locale img, im_locales_generate img, im_timezone img, im_keymap img)"
    "cr_base root = Inr (pl_base pl)"
    "resolve_account (pl_base pl) (sl_groups (hw_soc hw)) (bm_groups (hw_bm hw)) (dev_groups (hw_device hw)) ov
       = Inr (pl_account pl)"
  by (insert assms[unfolded plan_ok_def], (elim conjE, assumption)+)

section \<open>Recipes\<close>

lemma resolve_recipe_Inr:
  assumes "resolve_recipe root ref0 cli = Inr b"
  obtains point recipe b0 b1 where "bp_parse ref0 = Inr point" "cr_recipe root (bp_recipe point) = Inr recipe"
    "resolve_device root (rc_device recipe) (recipe_overrides recipe point cli) = Inr b0"
    "apply_recipe recipe ref0 b0 = Inr b1"
    "check_claim root recipe (bp_recipe point) (ov_features cli = None \<and> feature_override point = None) b1 = Inr ()"
    "b = b1\<lparr>rb_caveats := recipe_caveats recipe (rb_caveats b1)\<rparr>"
  using assms by (auto simp: resolve_recipe_def Let_def)

definition keys_applied :: "Recipe \<Rightarrow> ResolvedBuild \<Rightarrow> ResolvedBuild" where
  "keys_applied recipe b =
     b\<lparr>rb_image := map_option (\<lambda>img. img\<lparr>im_data_volumes := rc_data_volumes recipe,
                                          im_selftest_on_boot := rc_selftest_on_boot recipe\<rparr>) (rb_image b)\<rparr>"

lemma apply_recipe_Inr:
  "apply_recipe recipe ref0 b0 = Inr b \<longleftrightarrow>
     b = keys_applied recipe b0
     \<and> (case rb_image b0 of
          Some img \<Rightarrow> validate_all (rc_data_volumes recipe) = Inr ()
            \<and> (FEATURE \<in> set (im_features img) \<longleftrightarrow> rc_data_volumes recipe \<noteq> [])
        | None \<Rightarrow> rc_data_volumes recipe = [] \<and> \<not> rc_selftest_on_boot recipe)"
proof (cases "rb_image b0")
  case None
  then have "keys_applied recipe b0 = b0" by (simp add: keys_applied_def)
  with None show ?thesis by (auto simp: apply_recipe_def)
next
  case (Some img)
  then show ?thesis by (auto simp: apply_recipe_def keys_applied_def Let_def)
qed

text \<open>The value the first source that has one gives, or the default.\<close>

fun pick_first :: "'a option list \<Rightarrow> 'a \<Rightarrow> 'a" where
  "pick_first [] d = d"
| "pick_first (Some x # os) d = x"
| "pick_first (None # os) d = pick_first os d"

lemma pick_first_or_else [simp]:
  "(case or_else a b of Some x \<Rightarrow> x | None \<Rightarrow> d) = pick_first [a, b] d"
  "pick_first (or_else a b # os) d = pick_first (a # b # os) d"
  "Layers.unwrap_or (or_else a b) d = pick_first [a, b] d"
  by (cases a; cases b; simp add: or_else_def Layers.unwrap_or_def)+

lemma resolve_l10n_fields:
  "resolve_l10n base km ov = Inr (loc, locs, tz, keymap) \<Longrightarrow>
     loc = Layers.unwrap_or (ov_locale ov) (bl_locale base) \<and> tz = Layers.unwrap_or (ov_timezone ov) (bl_timezone base)
     \<and> keymap = or_else (ov_keymap ov) km"
  by (auto simp: resolve_l10n_def Let_def)

lemma resolve_account_fields:
  "resolve_account base sg mg dg ov = Inr a \<Longrightarrow>
     ac_sudo a = Layers.unwrap_or (ov_sudo ov) (bl_sudo base)
     \<and> ac_password_length a = Layers.unwrap_or (ov_first_boot_password_length ov) (bl_first_boot_password_length base)
     \<and> ac_authorized_keys a = Layers.unwrap_or (ov_ssh_authorized_keys ov) (bl_ssh_authorized_keys base)"
  by (auto simp: resolve_account_def Let_def split: if_splits)

lemma chosen_fields:
  "choose_generator n m distro ov = Inr g \<Longrightarrow> g = (case ov_initramfs_generator ov of Some x \<Rightarrow> x | None \<Rightarrow> di_initramfs_generator distro)"
  "choose_image_size device ov = Inr sz \<Longrightarrow> sz = (case ov_image_size ov of Some x \<Rightarrow> x | None \<Rightarrow> dev_image_size device)"
  by (auto simp: choose_generator_def choose_image_size_def Let_def split: if_splits)

lemma reject_rootfs_overrides_Inr:
  "reject_rootfs_overrides n ov = Inr () \<longleftrightarrow>
     ov_kernel ov = None \<and> ov_suite ov = None \<and> ov_initramfs_generator ov = None \<and> ov_features ov = None
     \<and> ov_image_size ov = None \<and> ov_locale ov = None \<and> ov_locales_generate ov = None \<and> ov_timezone ov = None
     \<and> ov_ntp_servers ov = None \<and> ov_keymap ov = None \<and> ov_sudo ov = None
     \<and> ov_first_boot_password_length ov = None \<and> ov_ssh_authorized_keys ov = None \<and> ov_groups ov = None"
  by (simp add: reject_rootfs_overrides_def Let_def)

text \<open>A nonfree feature of the selection is what the build's flag records.\<close>

lemma nonfree_selected:
  assumes "plan_ok root n ov hw pl img" "image_from hw n pl img"
  shows "im_ffmpeg_nonfree img \<longleftrightarrow> (\<exists>f \<in> set (im_features img). is_nonfree root f)"
proof -
  note f = select_features_Inr(2,3)[OF plan_phases(2)[OF assms(1)]]
  have "im_ffmpeg_nonfree img \<longleftrightarrow> (\<exists>(_, g) \<in> set (pl_loaded pl). ft_ffmpeg_nonfree g)"
    using assms(2) first_enabling_iff[of "pl_loaded pl"] by (simp add: image_from_def)
  also have "\<dots> \<longleftrightarrow> (\<exists>m \<in> set (map fst (pl_loaded pl)). is_nonfree root m)"
  proof -
    have m: "is_nonfree root m = ft_ffmpeg_nonfree g" if "(m, g) \<in> set (pl_loaded pl)" for m g
      using f(2) that by (auto simp: is_nonfree_def)
    then have "is_nonfree root (fst p) = ft_ffmpeg_nonfree (snd p)" if "p \<in> set (pl_loaded pl)" for p
      using that by (cases p) simp
    then show ?thesis by (simp add: split_beta cong: bex_cong)
  qed
  finally show ?thesis by (simp add: f(1))
qed

section \<open>A shipped board\<close>

definition armmp :: KernelDef where
  "armmp = DistroDef \<lparr>dk_flavor = DistroPackage, dk_package = ''linux-image-armmp'', dk_supported_socs = [Rk3288],
     dk_expect = [Firmware ''brcm/brcmfmac4354-sdio.bin'']\<rparr>"

definition demo_base :: BaseLayer where
  "demo_base = shipped_base\<lparr>bl_packages := [Plain ''openssh-server'', Plain ''dhcpcd'']\<rparr>"

definition data_volume_feature :: Feature where
  "data_volume_feature = empty_feature\<lparr>ft_packages := [Plain ''e2fsprogs'']\<rparr>"

definition missing :: "string \<Rightarrow> loader_error + 'a" where
  "missing n = Inl (NotFound [] n 0 n)"

definition demo_recipe :: Recipe where
  "demo_recipe =
     \<lparr>rc_device = ''asus-c100p'', rc_deliverable = Deliverable.Image, rc_kernel = None, rc_uboot_series = None, rc_board = None,
      rc_suite = Some ''trixie'', rc_initramfs_generator = None, rc_features = [''data-volume''], rc_layout = None,
      rc_image_size = None, rc_locale = None, rc_locales_generate = None, rc_timezone = None, rc_ntp_servers = None,
      rc_keymap = None, rc_sudo = None, rc_first_boot_password_length = None, rc_ssh_authorized_keys = None,
      rc_groups = None, rc_data_volumes = [nvme_volume], rc_selftest_on_boot = True, rc_support = None\<rparr>"

definition demo_config :: config where
  "demo_config =
     \<lparr>cr_device = (\<lambda>n. if n = ''asus-c100p'' then Inr (asus_c100p, [''asus-c100p'']) else missing n),
      cr_soc = (\<lambda>s. if s = Rk3288 then Inr rk3288 else missing []),
      cr_arch = (\<lambda>_. Inr \<lparr>al_kernel_arch = ''arm'', al_kbuild_image = ''zImage'', al_cross_compile = ''arm-linux-gnueabihf-''\<rparr>),
      cr_boot_method = (\<lambda>m. if m = Depthcharge then Inr (DepthchargeLayerOf depthcharge_method) else missing []),
      cr_kernel = (\<lambda>n. if n = ''debian-armmp'' then Inr armmp else missing n),
      cr_recipe = (\<lambda>n. if n = ''asus-c100p/trixie'' then Inr demo_recipe else missing n),
      cr_feature = (\<lambda>n. if n = ''data-volume'' then Inr data_volume_feature else missing n),
      cr_kmod = missing, cr_base = Inr demo_base,
      cr_distro = (\<lambda>n. if n = ''debian'' then Inr (debian\<lparr>di_suites := [''forky'', ''trixie'', ''sid'']\<rparr>) else missing n),
      cr_list = (\<lambda>s. Inr (if s = ''distros'' then [''debian''] else []))\<rparr>"

definition demo_hw :: "ResolvedBoot \<Rightarrow> Hardware" where
  "demo_hw boot =
     \<lparr>hw_device = asus_c100p, hw_lineage = [''asus-c100p''], hw_soc = rk3288,
      hw_arch = \<lparr>al_kernel_arch = ''arm'', al_kbuild_image = ''zImage'', al_cross_compile = ''arm-linux-gnueabihf-''\<rparr>,
      hw_boot_method = Depthcharge, hw_bm = DepthchargeLayerOf depthcharge_method, hw_kmods = [], hw_kmod_expect = [],
      hw_cmdline = [], hw_initramfs_modules = [''i2c-rk3x'', ''rk808-regulator''], hw_layout = Combined, hw_boot = boot\<rparr>"

definition trixie :: Overrides where
  "trixie = no_overrides\<lparr>ov_suite := Some ''trixie'', ov_features := Some [''data-volume'']\<rparr>"

definition demo_debian :: DistroLayer where
  "demo_debian = debian\<lparr>di_suites := [''forky'', ''trixie'', ''sid'']\<rparr>"

definition demo_packages :: "string list" where
  "demo_packages = [''openssh-server'', ''initramfs-tools'', ''network-manager'', ''firmware-brcm80211'',
     ''depthcharge-tools'', ''linux-image-armmp'', ''e2fsprogs'']"

lemma demo_phases:
  "select_features demo_config Rk3288 Armv7 [''data-volume''] = Inr [(''data-volume'', data_volume_feature)]"
  "select_kernel demo_config ''asus-c100p'' asus_c100p trixie [(''data-volume'', data_volume_feature)]
     = Inr (DistroKernel \<lparr>rdk_id = ''debian-armmp'', rdk_package = ''linux-image-armmp''\<rparr>,
            [Firmware ''brcm/brcmfmac4354-sdio.bin''])"
  "select_distro demo_config ''asus-c100p'' asus_c100p trixie = Inr (''trixie'', ''debian'', demo_debian)"
  "media_accel rk3288 Rk3288 [(''data-volume'', data_volume_feature)] = Inr False"
  "merge_apt_sources [(''data-volume'', data_volume_feature)] = Inr []"
  "image_components demo_debian False = Some [''main'', ''non-free-firmware'']"
  "choose_generator ''asus-c100p'' Depthcharge demo_debian trixie = Inr InitramfsTools"
  "choose_image_size asus_c100p trixie = Inr ''2G''"
  "merge_extra_debs [] [] [] [] [(''data-volume'', data_volume_feature)] = Inr []"
  by code_simp+

lemma demo_policy:
  "resolve_l10n demo_base None trixie = Inr (''C.UTF-8'', [''C.UTF-8'', ''en_US.UTF-8''], ''UTC'', None)"
  "resolve_ntp_servers demo_base trixie = Inr [''10.0.0.1'', ''ntp.example.org'']"
  "\<exists>a. resolve_account demo_base [''audio''] [] [] trixie = Inr a"
proof -
  show "resolve_l10n demo_base None trixie = Inr (''C.UTF-8'', [''C.UTF-8'', ''en_US.UTF-8''], ''UTC'', None)" by code_simp
  show "resolve_ntp_servers demo_base trixie = Inr [''10.0.0.1'', ''ntp.example.org'']" by code_simp
  have "isl (resolve_account demo_base [''audio''] [] [] trixie) = False" by code_simp
  then show "\<exists>a. resolve_account demo_base [''audio''] [] [] trixie = Inr a"
    by (cases "resolve_account demo_base [''audio''] [] [] trixie") auto
qed

lemma demo_rootfs:
  "rootfs_sets (demo_hw boot) ''asus-c100p'' demo_base (''trixie'', ''debian'', demo_debian) InitramfsTools
     (DistroKernel \<lparr>rdk_id = ''debian-armmp'', rdk_package = ''linux-image-armmp''\<rparr>)
     [(''data-volume'', data_volume_feature)] [''debian''] = Inr (demo_packages, [''dhcpcd''], [])"
  by code_simp

lemma demo_hardware:
  "\<exists>boot. resolve_hardware demo_config ''asus-c100p'' trixie = Inr (demo_hw boot)"
proof -
  obtain b where b: "resolve_boot (DepthchargeLayerOf depthcharge_method) asus_c100p rk3288 c100p_point = Inr (DepthchargeBoot b)"
    using c100p_boot by blast
  have p: "c100p_point = \<lparr>bpt_device_name = ''asus-c100p'', bpt_layout = Combined, bpt_board = None,
      bpt_kernel_cmdline = [], bpt_uboot_series = None\<rparr>" by (simp add: c100p_point_def)
  have f: "choose_boot_method demo_config ''asus-c100p'' asus_c100p trixie = Inr (Depthcharge, DepthchargeLayerOf depthcharge_method)"
    "validate_device_dts [] ''rockchip/rk3288-veyron-minnie.dtb'' ''asus-c100p'' = Inr ()"
    "validate_kernel_cmdline None = Inr []" "validate_hostname ''asus-c100p'' = Inr ()"
    "resolve_initramfs_modules [''i2c-rk3x'', ''rk808-regulator''] [] = Inr [''i2c-rk3x'', ''rk808-regulator'']"
    "resolve_kmods (cr_kmod demo_config) [] ''asus-c100p'' = Inr ([], [])"
    by code_simp+
  have c: "cr_device demo_config ''asus-c100p'' = Inr (asus_c100p, [''asus-c100p''])" "cr_soc demo_config Rk3288 = Inr rk3288"
    "cr_arch demo_config Armv7 = Inr \<lparr>al_kernel_arch = ''arm'', al_kbuild_image = ''zImage'', al_cross_compile = ''arm-linux-gnueabihf-''\<rparr>"
    by (simp_all add: demo_config_def)
  have d: "dev_soc asus_c100p = Rk3288" "dev_device_dts asus_c100p = []" "dev_kernel_dtb asus_c100p = ''rockchip/rk3288-veyron-minnie.dtb''"
    "dev_kmods asus_c100p = []" "dev_kernel_cmdline asus_c100p = None" "dev_hostname asus_c100p = ''asus-c100p''"
    "il_modules (dev_initramfs asus_c100p) = []" "dev_default_layout asus_c100p = Combined"
    "sl_arch rk3288 = Armv7" "il_modules (sl_initramfs rk3288) = [''i2c-rk3x'', ''rk808-regulator'']"
    "ov_layout trixie = None" "ov_board trixie = None" "ov_uboot_series trixie = None"
    by (simp_all add: asus_c100p_def rk3288_def trixie_def no_overrides_def)
  show ?thesis
    using b by (simp add: resolve_hardware_def f c d p demo_hw_def)
qed

lemma demo_image:
  "\<exists>b img. resolve_image demo_config ''asus-c100p'' trixie (demo_hw boot) = Inr b \<and> rb_image b = Some img
     \<and> im_rootfs_packages img = demo_packages \<and> im_rootfs_exclude img = [''dhcpcd''] \<and> im_suite img = ''trixie''
     \<and> im_features img = [''data-volume''] \<and> \<not> im_ffmpeg_nonfree img"
proof -
  obtain a where a: "resolve_account demo_base [''audio''] [] [] trixie = Inr a" using demo_policy(3) by blast
  have hw: "hw_device (demo_hw boot) = asus_c100p" "hw_soc (demo_hw boot) = rk3288" "hw_boot_method (demo_hw boot) = Depthcharge"
    "hw_bm (demo_hw boot) = DepthchargeLayerOf depthcharge_method"
    by (simp_all add: demo_hw_def)
  have d: "dev_soc asus_c100p = Rk3288" "sl_arch rk3288 = Armv7" "ov_features trixie = Some [''data-volume'']"
    "cr_base demo_config = Inr demo_base" "cr_list demo_config ''distros'' = Inr [''debian'']"
    "bl_extra_debs demo_base = []" "sl_extra_debs rk3288 = []" "bm_extra_debs (DepthchargeLayerOf depthcharge_method) = []"
    "dev_extra_debs asus_c100p = []" "dev_keymap asus_c100p = None" "sl_groups rk3288 = [''audio'']"
    "bm_groups (DepthchargeLayerOf depthcharge_method) = []" "dev_groups asus_c100p = []"
    by (simp_all add: asus_c100p_def rk3288_def trixie_def no_overrides_def demo_config_def demo_base_def shipped_base_def
        bm_extra_debs_def bm_groups_def depthcharge_method_def)
  have nf: "first_enabling_ffmpeg_nonfree [(''data-volume'', data_volume_feature)] = None" by code_simp
  show ?thesis
    by (simp add: resolve_image_def hw d demo_phases demo_policy demo_rootfs a kernel_libre_def nf build_of_def)
qed

lemma demo_build:
  "\<exists>b img. resolve_device demo_config ''asus-c100p'' trixie = Inr b \<and> rb_image b = Some img
     \<and> im_rootfs_packages img = demo_packages \<and> im_rootfs_exclude img = [''dhcpcd''] \<and> im_suite img = ''trixie''
     \<and> im_features img = [''data-volume''] \<and> \<not> im_ffmpeg_nonfree img"
proof -
  obtain boot where "resolve_hardware demo_config ''asus-c100p'' trixie = Inr (demo_hw boot)" using demo_hardware by blast
  moreover have "ov_deliverable trixie \<noteq> Deliverable.Uboot" by (simp add: trixie_def no_overrides_def)
  ultimately show ?thesis using demo_image[of boot] by (simp add: resolve_device_def)
qed

lemma demo_recipe_resolves:
  "\<exists>b img. resolve_recipe demo_config ''asus-c100p/trixie'' no_overrides = Inr b \<and> rb_image b = Some img
     \<and> im_rootfs_packages img = demo_packages \<and> im_suite img = ''trixie'' \<and> im_features img = [''data-volume'']
     \<and> im_data_volumes img = [nvme_volume] \<and> im_selftest_on_boot img"
proof -
  obtain b img where b: "resolve_device demo_config ''asus-c100p'' trixie = Inr b" "rb_image b = Some img"
    "im_rootfs_packages img = demo_packages" "im_suite img = ''trixie''" "im_features img = [''data-volume'']"
    "\<not> im_ffmpeg_nonfree img"
    using demo_build by blast
  have p: "bp_parse ''asus-c100p/trixie'' = Inr \<lparr>bp_recipe = ''asus-c100p/trixie'', bp_features = []\<rparr>" by code_simp
  have r: "cr_recipe demo_config ''asus-c100p/trixie'' = Inr demo_recipe" by (simp add: demo_config_def)
  have o: "recipe_overrides demo_recipe \<lparr>bp_recipe = ''asus-c100p/trixie'', bp_features = []\<rparr> no_overrides = trixie"
    by (simp add: recipe_overrides_def demo_recipe_def no_overrides_def trixie_def or_else_def feature_override_def is_variant_def)
  have v: "validate_all [nvme_volume] = Inr ()" by code_simp
  have d: "rc_device demo_recipe = ''asus-c100p''" "rc_data_volumes demo_recipe = [nvme_volume]"
    "rc_selftest_on_boot demo_recipe" "rc_support demo_recipe = None"
    by (simp_all add: demo_recipe_def)
  show ?thesis
    by (simp add: resolve_recipe_def p r o d b apply_recipe_def v check_claim_def FEATURE_def)
qed

section \<open>Properties\<close>



text \<open>C1. Exclusion wins: an image's package set and its exclusions are disjoint and free of
  repetition, the exclusions are exactly the names any layer or selected feature excludes, and
  the packages exactly the names that some layer, feature or application asks for on this
  distribution and suite, less the excluded ones.\<close>

theorem rootfs_exclude_wins:
  assumes "resolve_device root n ov = Inr b" "rb_image b = Some img"
  shows "distinct (im_rootfs_packages img) \<and> distinct (im_rootfs_exclude img)
    \<and> set (im_rootfs_packages img) \<inter> set (im_rootfs_exclude img) = {}
    \<and> (\<exists>hw pl. hardware_ok root n ov hw \<and> plan_ok root n ov hw pl img
         \<and> set (im_rootfs_exclude img) = \<Union> (set (map set (exclude_lists hw (pl_base pl) (pl_distro pl) (pl_loaded pl))))
         \<and> set (im_rootfs_packages img)
             = set (wanted \<lparr>pf_distro = pl_distro_name pl, pf_suite = pl_suite pl, pf_known_distros = pl_known_distros pl\<rparr>
                 (package_layers hw n (pl_base pl) (pl_distro_name pl) (pl_distro pl) (pl_generator pl) (pl_kern pl)
                   (pl_loaded pl)) (im_apps img)) - set (im_rootfs_exclude img))"
proof -
  obtain hw pl where hw: "hardware_ok root n ov hw" and pl: "plan_ok root n ov hw pl img"
    using assms by (rule resolve_device_image)
  then have "rootfs_sets hw n (pl_base pl) (pl_suite pl, pl_distro_name pl, pl_distro pl) (pl_generator pl) (pl_kern pl)
         (pl_loaded pl) (pl_known_distros pl) = Inr (im_rootfs_packages img, im_rootfs_exclude img, im_apps img)"
    by (simp add: plan_ok_def)
  note r = rootfs_sets_Inr[OF this]
  have e: "set (im_rootfs_exclude img) = \<Union> (set (map set (exclude_lists hw (pl_base pl) (pl_distro pl) (pl_loaded pl))))"
    unfolding r(1) set_dedup_id by simp
  have p: "set (im_rootfs_packages img)
      = set (wanted \<lparr>pf_distro = pl_distro_name pl, pf_suite = pl_suite pl, pf_known_distros = pl_known_distros pl\<rparr>
          (package_layers hw n (pl_base pl) (pl_distro_name pl) (pl_distro pl) (pl_generator pl) (pl_kern pl)
            (pl_loaded pl)) (im_apps img)) - set (im_rootfs_exclude img)"
    by (subst r(2)) auto
  have "distinct (im_rootfs_packages img)" by (subst r(2)) (intro distinct_filter distinct_dedup_id)
  moreover have "distinct (im_rootfs_exclude img)" by (subst r(1)) simp
  moreover have "set (im_rootfs_packages img) \<inter> set (im_rootfs_exclude img) = {}" using p by blast
  ultimately show ?thesis using hw pl e p by blast
qed

theorem rootfs_exclude_wins_witness:
  "\<exists>b img. resolve_device demo_config ''asus-c100p'' trixie = Inr b \<and> rb_image b = Some img
     \<and> ''dhcpcd'' \<in> set (im_rootfs_exclude img) \<and> ''dhcpcd'' \<notin> set (im_rootfs_packages img)"
proof -
  obtain b img where b: "resolve_device demo_config ''asus-c100p'' trixie = Inr b" "rb_image b = Some img"
    "im_rootfs_exclude img = [''dhcpcd'']"
    using demo_build by blast
  with rootfs_exclude_wins[OF b(1,2)] show ?thesis by auto
qed









text \<open>C14. A recipe's own keys: the image of a resolved recipe carries the recipe's data volumes,
  which are valid and present exactly when the data-volume feature is selected, and its
  self-test switch; a build without an image comes from a recipe that sets neither. A recipe
  with a support claim never resolves, with its own feature selection, to a build that has a
  nonfree feature; and every limitation the claim states is among the build's caveats.\<close>

theorem recipe_keys_honoured:
  assumes "resolve_recipe root ref0 cli = Inr b"
    and "bp_parse ref0 = Inr point" "cr_recipe root (bp_recipe point) = Inr recipe"
  shows "(case rb_image b of
       Some img \<Rightarrow> im_data_volumes img = rc_data_volumes recipe \<and> im_selftest_on_boot img = rc_selftest_on_boot recipe
         \<and> validate_all (rc_data_volumes recipe) = Inr ()
         \<and> (FEATURE \<in> set (im_features img) \<longleftrightarrow> rc_data_volumes recipe \<noteq> [])
         \<and> \<not> (rc_support recipe \<noteq> None \<and> ov_features cli = None \<and> feature_override point = None
              \<and> (\<exists>f \<in> set (im_features img). is_nonfree root f))
     | None \<Rightarrow> rc_data_volumes recipe = [] \<and> \<not> rc_selftest_on_boot recipe)
    \<and> (case rc_support recipe of None \<Rightarrow> True | Some s \<Rightarrow> set (su_caveats s) \<subseteq> cv_text ` set (rb_caveats b))"
proof -
  let ?own = "ov_features cli = None \<and> feature_override point = None"
  from assms obtain b0 b1 where d: "resolve_device root (rc_device recipe) (recipe_overrides recipe point cli) = Inr b0"
    and ap: "apply_recipe recipe ref0 b0 = Inr b1" and c: "check_claim root recipe (bp_recipe point) ?own b1 = Inr ()"
    and b: "b = b1\<lparr>rb_caveats := recipe_caveats recipe (rb_caveats b1)\<rparr>"
    by (elim resolve_recipe_Inr) auto
  note k = ap[unfolded apply_recipe_Inr]
  have cv: "case rc_support recipe of None \<Rightarrow> True | Some s \<Rightarrow> set (su_caveats s) \<subseteq> cv_text ` set (rb_caveats b)"
  proof (cases "rc_support recipe")
    case (Some s)
    have "cv_text ` set (dedup_on cv_text (map (\<lambda>t. \<lparr>cv_text = t, cv_scope = ScopeRecipe\<rparr>) (su_caveats s))) = set (su_caveats s)"
      by (simp add: keys_dedup_on image_comp o_def)
    moreover have "cv_text ` B \<subseteq> cv_text ` (A \<union> {x \<in> B. cv_text x \<notin> cv_text ` A})" for A B
      by auto
    ultimately show ?thesis by (simp add: b recipe_caveats_def Some foldl_push_absent) blast
  qed simp
  show ?thesis
  proof (cases "rb_image b0")
    case None
    with k cv show ?thesis by (simp add: b keys_applied_def)
  next
    case (Some img0)
    from d Some obtain hw pl where "plan_ok root (rc_device recipe) (recipe_overrides recipe point cli) hw pl img0"
      "image_from hw (rc_device recipe) pl img0"
      by (rule resolve_device_image)
    note nf = nonfree_selected[OF this]
    have "\<not> (rc_support recipe \<noteq> None \<and> ?own \<and> im_ffmpeg_nonfree img0)"
      using c k Some by (auto simp: check_claim_def keys_applied_def split: option.splits if_splits)
    then show ?thesis using k Some cv nf by (auto simp: b keys_applied_def)
  qed
qed

theorem recipe_keys_honoured_witness:
  "\<exists>b img. resolve_recipe demo_config ''asus-c100p/trixie'' no_overrides = Inr b \<and> rb_image b = Some img
     \<and> im_data_volumes img = [nvme_volume] \<and> FEATURE \<in> set (im_features img)"
proof -
  obtain b img where b: "resolve_recipe demo_config ''asus-c100p/trixie'' no_overrides = Inr b" "rb_image b = Some img"
    using demo_recipe_resolves by blast
  have p: "bp_parse ''asus-c100p/trixie'' = Inr \<lparr>bp_recipe = ''asus-c100p/trixie'', bp_features = []\<rparr>" by code_simp
  have c: "cr_recipe demo_config (bp_recipe \<lparr>bp_recipe = ''asus-c100p/trixie'', bp_features = []\<rparr>) = Inr demo_recipe"
    by (simp add: demo_config_def)
  from recipe_keys_honoured[OF b(1) p c] b show ?thesis by (auto simp: demo_recipe_def)
qed

end
