(* ===== verification/Signature.thy ===== *)
theory Signature
  imports Strings "HOL-Library.Multiset"
begin

text \<open>
  Build signatures (\<open>engine/src/signature.rs\<close>): the canonical byte stream a node's inputs are
  folded into, the manifest kept beside it and the reuse test; and the key of the rootfs store
  (\<open>rootcache::cache_key\<close>), which is such a signature.

  The hash (\<open>blobs::sha256_hex\<close>, the \<open>sha2\<close> crate) is the parameter \<open>sha\<close> of the definitions:
  a function on byte strings. What the code relies on is that it does not collide on the
  streams compared, which the theorems name as a hypothesis. Everything else, in particular
  that two different inputs never have the same stream, is proved.

  A \<open>usize\<close> length is at most 64 bits wide; \<open>le64\<close> is its \<open>to_le_bytes\<close>.
\<close>

section \<open>The stream\<close>

definition le64 :: "nat \<Rightarrow> string" where
  "le64 n = map (\<lambda>i. char_of (n div 256 ^ i)) [0..<8]"

record Record =
  rec_label :: string
  rec_values :: "string list"

record SignatureBuilder =
  sb_node :: string
  sb_stage_version :: nat
  sb_buf :: string
  sb_records :: "Record list"

definition write_field :: "string \<Rightarrow> string \<Rightarrow> SignatureBuilder \<Rightarrow> SignatureBuilder" where
  "write_field label val b =
     b\<lparr>sb_buf := sb_buf b @ le64 (length label) @ label @ le64 (length val) @ val\<rparr>"

definition push_record :: "string \<Rightarrow> string list \<Rightarrow> SignatureBuilder \<Rightarrow> SignatureBuilder" where
  "push_record label vals b = b\<lparr>sb_records := sb_records b @ [\<lparr>rec_label = label, rec_values = vals\<rparr>]\<rparr>"

definition new_builder :: "string \<Rightarrow> nat \<Rightarrow> SignatureBuilder" where
  "new_builder node v =
     write_field ''stage_version'' (show_nat v) (write_field ''node'' node
       \<lparr>sb_node = node, sb_stage_version = v, sb_buf = [], sb_records = []\<rparr>)"

definition fold_scalar :: "string \<Rightarrow> string \<Rightarrow> SignatureBuilder \<Rightarrow> SignatureBuilder" where
  "fold_scalar label val b = push_record label [val] (write_field label val b)"

definition fold_ordered :: "string \<Rightarrow> string list \<Rightarrow> SignatureBuilder \<Rightarrow> SignatureBuilder" where
  "fold_ordered label items b =
     push_record label items
       (fold (write_field label) items (write_field label (show_nat (length items)) b))"

text \<open>\<open>sort_unstable\<close> and \<open>dedup\<close> of strings: ascending in \<open>str\<close>'s order, without repetition.\<close>

definition sort_dedup :: "string list \<Rightarrow> string list" where
  "sort_dedup items = remdups_adj (sort items)"

definition fold_set :: "string \<Rightarrow> string list \<Rightarrow> SignatureBuilder \<Rightarrow> SignatureBuilder" where
  "fold_set label items b = fold_ordered label (sort_dedup items) b"

definition fold_dep :: "string \<Rightarrow> SignatureBuilder \<Rightarrow> SignatureBuilder" where
  "fold_dep dep b = push_record ''dep'' [dep] (write_field ''dep'' dep b)"

definition finish :: "(string \<Rightarrow> string) \<Rightarrow> SignatureBuilder \<Rightarrow> string" where
  "finish sha b = sha (sb_buf b)"

section \<open>Manifests and reuse\<close>

record SignatureManifest =
  sm_node :: string
  sm_stage_version :: nat
  sm_signature :: string
  sm_records :: "Record list"

definition sig_manifest :: "(string \<Rightarrow> string) \<Rightarrow> SignatureBuilder \<Rightarrow> SignatureManifest" where
  "sig_manifest sha b = \<lparr>sm_node = sb_node b, sm_stage_version = sb_stage_version b,
     sm_signature = finish sha b, sm_records = sb_records b\<rparr>"

definition sm_matches :: "SignatureManifest \<Rightarrow> SignatureManifest \<Rightarrow> bool" where
  "sm_matches a b \<longleftrightarrow> sm_signature a = sm_signature b"

text \<open>\<open>is_fresh\<close> over what the file system shows: whether the tree exists and the manifest its
  stamp parses to, if it can be read.\<close>

definition is_fresh :: "bool \<Rightarrow> SignatureManifest option \<Rightarrow> SignatureManifest \<Rightarrow> bool" where
  "is_fresh tree_exists stamp expected \<longleftrightarrow>
     tree_exists \<and> (case stamp of None \<Rightarrow> False | Some m \<Rightarrow> sm_signature m = sm_signature expected)"

datatype ChangeKind = Added | Removed | Changed

record RecordChange =
  ch_label :: string
  ch_kind :: ChangeKind
  ch_old :: "string list"
  ch_new :: "string list"

text \<open>The values folded under a label, over every record of that label (\<open>diff\<close>'s \<open>group\<close>).\<close>

definition group_records :: "Record list \<Rightarrow> string \<Rightarrow> string list option" where
  "group_records recs label =
     (case filter (\<lambda>r. rec_label r = label) recs of [] \<Rightarrow> None | rs \<Rightarrow> Some (concat (map rec_values rs)))"

definition change_of :: "(string \<Rightarrow> string list option) \<Rightarrow> (string \<Rightarrow> string list option) \<Rightarrow> string \<Rightarrow> RecordChange list" where
  "change_of o_map n_map label =
     (case (o_map label, n_map label) of
       (Some a, Some b) \<Rightarrow> if a \<noteq> b then [\<lparr>ch_label = label, ch_kind = Changed, ch_old = a, ch_new = b\<rparr>] else []
     | (Some a, None) \<Rightarrow> [\<lparr>ch_label = label, ch_kind = Removed, ch_old = a, ch_new = []\<rparr>]
     | (None, Some b) \<Rightarrow> [\<lparr>ch_label = label, ch_kind = Added, ch_old = [], ch_new = b\<rparr>]
     | (None, None) \<Rightarrow> [])"

definition sm_diff :: "SignatureManifest \<Rightarrow> SignatureManifest \<Rightarrow> RecordChange list" where
  "sm_diff old new =
     concat (map (change_of (group_records (sm_records old)) (group_records (sm_records new)))
       (sort_dedup (map rec_label (sm_records old) @ map rec_label (sm_records new))))"

text \<open>The arrow of the summary is the three bytes of U+2192.\<close>

definition arrow :: string where
  "arrow = '' '' @ [char_of (226 :: nat), char_of (134 :: nat), char_of (146 :: nat)] @ '' ''"

definition change_summary :: "RecordChange \<Rightarrow> string" where
  "change_summary c =
     (case ch_kind c of
       Changed \<Rightarrow>
         if length (ch_old c) = 1 \<and> length (ch_new c) = 1
         then ch_label c @ '': '' @ hd (ch_old c) @ arrow @ hd (ch_new c)
         else ch_label c @ '': '' @ join '' ''
           (map (\<lambda>r. ''-'' @ r) (filter (\<lambda>v. v \<notin> set (ch_new c)) (ch_old c))
            @ map (\<lambda>a. ''+'' @ a) (filter (\<lambda>v. v \<notin> set (ch_old c)) (ch_new c)))
     | Added \<Rightarrow> ch_label c @ '': added '' @ join '' '' (ch_new c)
     | Removed \<Rightarrow> ch_label c @ '': removed '' @ join '' '' (ch_old c))"

section \<open>The stream is unambiguous\<close>

text \<open>The fields a builder has written, as label and value pairs.\<close>

definition field :: "string \<times> string \<Rightarrow> string" where
  "field f = le64 (length (fst f)) @ fst f @ le64 (length (snd f)) @ snd f"

definition stream :: "(string \<times> string) list \<Rightarrow> string" where
  "stream fs = concat (map field fs)"

definition fits :: "string \<times> string \<Rightarrow> bool" where
  "fits f \<longleftrightarrow> length (fst f) < 2 ^ 64 \<and> length (snd f) < 2 ^ 64"

lemma length_le64 [simp]: "length (le64 n) = 8"
  by (simp add: le64_def)

lemma digits_256: "(\<Sum>i<k. (n div 256 ^ i) mod 256 * 256 ^ i) = n mod 256 ^ k" for n :: nat
proof (induction k)
  case (Suc k)
  have "n mod 256 ^ Suc k = 256 ^ k * (n div 256 ^ k mod 256) + n mod 256 ^ k"
    using mod_mult2_eq[of n "256 ^ k" 256] by (simp add: mult.commute)
  with Suc show ?case by (simp add: mult.commute)
qed simp

lemma le64_inj:
  assumes "le64 m = le64 n" "m < 2 ^ 64" "n < 2 ^ 64"
  shows "m = n"
proof -
  have "(m div 256 ^ i) mod 256 = (n div 256 ^ i) mod 256" if "i < 8" for i
  proof -
    have "le64 m ! i = le64 n ! i" by (simp add: assms(1))
    then have "(of_char (char_of (m div 256 ^ i)) :: nat) = of_char (char_of (n div 256 ^ i))"
      using that by (simp add: le64_def)
    then show ?thesis by simp
  qed
  then have "(\<Sum>i<8. (m div 256 ^ i) mod 256 * 256 ^ i) = (\<Sum>i<8. (n div 256 ^ i) mod 256 * 256 ^ i)"
    by simp
  with assms(2,3) show ?thesis by (simp only: digits_256) simp
qed

lemma field_append_inj:
  assumes "field f @ r = field g @ s" "fits f" "fits g"
  shows "f = g \<and> r = s"
proof -
  from assms have l: "length (fst f) = length (fst g)"
    by (intro le64_inj) (auto simp: field_def fits_def)
  with assms(1) have a: "fst f = fst g" "le64 (length (snd f)) @ snd f @ r = le64 (length (snd g)) @ snd g @ s"
    by (auto simp: field_def)
  with assms(2,3) have "length (snd f) = length (snd g)"
    by (intro le64_inj) (auto simp: fits_def)
  with a show ?thesis by (auto simp: prod_eq_iff)
qed

lemma field_not_Nil [simp]: "field f \<noteq> []"
  by (auto simp: field_def le64_def)

lemma stream_simps [simp]: "stream [] = []" "stream (f # fs) = field f @ stream fs" "stream (fs @ gs) = stream fs @ stream gs"
  by (simp_all add: stream_def)

lemma stream_inj:
  "stream fs = stream gs \<Longrightarrow> list_all fits fs \<Longrightarrow> list_all fits gs \<Longrightarrow> fs = gs"
proof (induction fs arbitrary: gs)
  case Nil
  then show ?case by (cases gs) auto
next
  case (Cons f fs)
  then obtain g gs' where g: "gs = g # gs'" by (cases gs) auto
  with Cons.prems have "f = g \<and> stream fs = stream gs'" by (intro field_append_inj) auto
  with Cons g show ?case by auto
qed

section \<open>Sequences of folds\<close>

text \<open>A node's inputs are a sequence of calls on a fresh builder.\<close>

datatype fold_kind = KScalar | KOrdered | KSet | KDep

datatype fold_call = CScalar string string | COrdered string "string list" | CSet string "string list" | CDep string

fun call_kind :: "fold_call \<Rightarrow> fold_kind" where
  "call_kind (CScalar _ _) = KScalar"
| "call_kind (COrdered _ _) = KOrdered"
| "call_kind (CSet _ _) = KSet"
| "call_kind (CDep _) = KDep"

fun call_label :: "fold_call \<Rightarrow> string" where
  "call_label (CScalar l _) = l"
| "call_label (COrdered l _) = l"
| "call_label (CSet l _) = l"
| "call_label (CDep _) = ''dep''"

text \<open>What a call says: a set is its members, whatever their order and repetition.\<close>

fun canonical :: "fold_call \<Rightarrow> fold_call" where
  "canonical (CSet l items) = CSet l (sort_dedup items)"
| "canonical c = c"

fun do_fold :: "fold_call \<Rightarrow> SignatureBuilder \<Rightarrow> SignatureBuilder" where
  "do_fold (CScalar l v) = fold_scalar l v"
| "do_fold (COrdered l items) = fold_ordered l items"
| "do_fold (CSet l items) = fold_set l items"
| "do_fold (CDep d) = fold_dep d"

definition build_sig :: "string \<Rightarrow> nat \<Rightarrow> fold_call list \<Rightarrow> SignatureBuilder" where
  "build_sig node v calls = fold do_fold calls (new_builder node v)"

fun call_values :: "fold_call \<Rightarrow> string list" where
  "call_values (CScalar _ v) = [v]"
| "call_values (COrdered _ items) = items"
| "call_values (CSet _ items) = sort_dedup items"
| "call_values (CDep d) = [d]"

fun call_fields :: "fold_call \<Rightarrow> (string \<times> string) list" where
  "call_fields (CScalar l v) = [(l, v)]"
| "call_fields (COrdered l items) = (l, show_nat (length items)) # map (Pair l) items"
| "call_fields (CSet l items) = (l, show_nat (length (sort_dedup items))) # map (Pair l) (sort_dedup items)"
| "call_fields (CDep d) = [(''dep'', d)]"

text \<open>What fits an address space: no string and no list is longer than a \<open>u64\<close> can say.\<close>

definition sized :: "fold_call \<Rightarrow> bool" where
  "sized c \<longleftrightarrow> length (call_label c) < 2 ^ 64 \<and> length (call_values c) < 2 ^ 64
     \<and> (\<forall>v \<in> set (call_values c). length v < 2 ^ 64)"

lemma set_sort_dedup [simp]: "set (sort_dedup xs) = set xs"
  by (simp add: sort_dedup_def)

lemma distinct_dedup_sorted: "sorted xs \<Longrightarrow> distinct (remdups_adj xs)"
  by (induction xs rule: remdups_adj.induct) auto

lemma sort_dedup_sorted: "sorted (sort_dedup xs)" "distinct (sort_dedup xs)"
  by (simp_all add: sort_dedup_def sorted_remdups_adj distinct_dedup_sorted)


lemma sort_dedup_eq: "sort_dedup xs = sort_dedup ys \<longleftrightarrow> set xs = set ys"
  using sort_dedup_sorted[of xs] sort_dedup_sorted[of ys] sorted_distinct_set_unique set_sort_dedup by metis

lemma sort_dedup_idem [simp]: "sort_dedup (sort_dedup xs) = sort_dedup xs"
  by (simp add: sort_dedup_eq)

lemma sb_push_record [simp]:
  "sb_buf (push_record l vs b) = sb_buf b"
  "sb_records (push_record l vs b) = sb_records b @ [\<lparr>rec_label = l, rec_values = vs\<rparr>]"
  "sb_node (push_record l vs b) = sb_node b" "sb_stage_version (push_record l vs b) = sb_stage_version b"
  by (simp_all add: push_record_def)

lemma sb_write_field [simp]:
  "sb_buf (write_field l v b) = sb_buf b @ stream [(l, v)]"
  "sb_records (write_field l v b) = sb_records b"
  "sb_node (write_field l v b) = sb_node b" "sb_stage_version (write_field l v b) = sb_stage_version b"
  by (simp_all add: write_field_def field_def)

lemma sb_write_fields [simp]:
  "sb_buf (fold (write_field l) items b) = sb_buf b @ stream (map (Pair l) items)"
  "sb_records (fold (write_field l) items b) = sb_records b"
  "sb_node (fold (write_field l) items b) = sb_node b"
  "sb_stage_version (fold (write_field l) items b) = sb_stage_version b"
  by (induction items arbitrary: b) simp_all

lemma do_fold_builder [simp]:
  "sb_buf (do_fold c b) = sb_buf b @ stream (call_fields c)"
  "sb_records (do_fold c b) = sb_records b @ [\<lparr>rec_label = call_label c, rec_values = call_values c\<rparr>]"
  "sb_node (do_fold c b) = sb_node b" "sb_stage_version (do_fold c b) = sb_stage_version b"
  by (cases c; simp add: fold_scalar_def fold_ordered_def fold_set_def fold_dep_def)+

lemma build_sig_builder:
  "sb_buf (build_sig n v cs) = stream ((''node'', n) # (''stage_version'', show_nat v) # concat (map call_fields cs))"
  "sb_records (build_sig n v cs) = map (\<lambda>c. \<lparr>rec_label = call_label c, rec_values = call_values c\<rparr>) cs"
  "sb_node (build_sig n v cs) = n" "sb_stage_version (build_sig n v cs) = v"
proof -
  have "sb_buf (fold do_fold cs b) = sb_buf b @ stream (concat (map call_fields cs))"
    "sb_records (fold do_fold cs b) = sb_records b @ map (\<lambda>c. \<lparr>rec_label = call_label c, rec_values = call_values c\<rparr>) cs"
    "sb_node (fold do_fold cs b) = sb_node b" "sb_stage_version (fold do_fold cs b) = sb_stage_version b" for b
    by (induction cs arbitrary: b) simp_all
  then show "sb_buf (build_sig n v cs) = stream ((''node'', n) # (''stage_version'', show_nat v) # concat (map call_fields cs))"
    "sb_records (build_sig n v cs) = map (\<lambda>c. \<lparr>rec_label = call_label c, rec_values = call_values c\<rparr>) cs"
    "sb_node (build_sig n v cs) = n" "sb_stage_version (build_sig n v cs) = v"
    by (simp_all add: build_sig_def new_builder_def)
qed

lemma show_nat_sized: "n < 2 ^ 64 \<Longrightarrow> length (show_nat n) < 2 ^ 64"
  using show_nat_length[of n 20] by simp

lemma sized_fits: "sized c \<Longrightarrow> list_all fits (call_fields c)"
  using show_nat_sized by (cases c) (auto simp: sized_def fits_def list_all_iff)

lemma counted_append:
  assumes "show_nat (length xs) = show_nat (length ys)" "map (Pair l) xs @ r = map (Pair l) ys @ s"
  shows "xs = ys \<and> r = s"
proof -
  have "length xs = length ys" using assms(1) by (simp add: show_nat_inj)
  with assms(2) show ?thesis by (auto simp: inj_map_eq_map inj_on_def)
qed

lemma counted_fields_append:
  "(l, show_nat (length xs)) # map (Pair l) xs @ r = (l, show_nat (length ys)) # map (Pair l) ys @ s
    \<Longrightarrow> xs = ys \<and> r = s"
  by (rule counted_append[of xs ys l r s]) (simp_all only: list.inject prod.inject append.simps simp_thms)

lemma call_fields_append:
  assumes f: "call_fields c @ r = call_fields d @ s" and k: "call_label c = call_label d \<longrightarrow> call_kind c = call_kind d"
  shows "canonical c = canonical d \<and> r = s"
proof -
  have l: "call_label c = call_label d"
    using f by (cases c; cases d) (simp_all del: show_nat.simps)
  show ?thesis
  proof (cases c)
    case (COrdered l xs)
    with k l obtain ys where "d = COrdered l ys" by (cases d) auto
    with COrdered f counted_fields_append[of l xs r ys s] show ?thesis by simp
  next
    case (CSet l xs)
    with k l obtain ys where "d = CSet l ys" by (cases d) auto
    with CSet f counted_fields_append[of l "sort_dedup xs" r "sort_dedup ys" s] show ?thesis by simp
  qed (use f k l in \<open>(cases d; simp)+\<close>)
qed

lemma call_fields_canonical: "call_fields (canonical c) = call_fields c"
  by (cases c) (simp_all del: show_nat.simps)

lemma concat_call_fields_canonical: "map canonical cs = map canonical ds \<Longrightarrow> concat (map call_fields cs) = concat (map call_fields ds)"
proof -
  have "map call_fields cs = map call_fields (map canonical cs)" for cs
    by (simp add: call_fields_canonical)
  then show "map canonical cs = map canonical ds \<Longrightarrow> concat (map call_fields cs) = concat (map call_fields ds)"
    by metis
qed

lemma call_fields_not_Nil [simp]: "call_fields c \<noteq> []"
  by (cases c) simp_all

lemma concat_call_fields_inj:
  assumes "concat (map call_fields cs) = concat (map call_fields ds)"
    and "\<forall>c \<in> set cs. \<forall>d \<in> set ds. call_label c = call_label d \<longrightarrow> call_kind c = call_kind d"
  shows "map canonical cs = map canonical ds"
  using assms
proof (induction cs arbitrary: ds)
  case Nil
  then show ?case by (cases ds) auto
next
  case (Cons c cs)
  then obtain d ds' where d: "ds = d # ds'" by (cases ds) auto
  from Cons.prems have "call_fields c @ concat (map call_fields cs) = call_fields d @ concat (map call_fields ds')"
    by (simp only: d list.map concat.simps)
  then have "canonical c = canonical d \<and> concat (map call_fields cs) = concat (map call_fields ds')"
    by (rule call_fields_append) (use Cons.prems(2) d in simp)
  with Cons.IH[of ds'] Cons.prems(2) show ?case by (simp add: d)
qed

text \<open>Two nodes whose folds give a label one meaning have the same stream exactly when they have
  the same name, stage version and inputs.\<close>

lemma build_sig_stream_eq:
  assumes "\<forall>c \<in> set cs. \<forall>d \<in> set ds. call_label c = call_label d \<longrightarrow> call_kind c = call_kind d"
    and "list_all sized cs" "list_all sized ds" "length m < 2 ^ 64" "length n < 2 ^ 64" "u < 2 ^ 64" "v < 2 ^ 64"
  shows "sb_buf (build_sig m u cs) = sb_buf (build_sig n v ds)
    \<longleftrightarrow> m = n \<and> u = v \<and> map canonical cs = map canonical ds"
proof
  let ?fs = "(''node'', m) # (''stage_version'', show_nat u) # concat (map call_fields cs)"
  let ?gs = "(''node'', n) # (''stage_version'', show_nat v) # concat (map call_fields ds)"
  assume "sb_buf (build_sig m u cs) = sb_buf (build_sig n v ds)"
  moreover have "list_all fits (concat (map call_fields cs))" if "list_all sized cs" for cs
    using that sized_fits by (auto simp: list_all_iff)
  ultimately have "?fs = ?gs"
    using assms(2-) show_nat_sized[of u] show_nat_sized[of v]
    by (intro stream_inj) (auto simp: build_sig_builder fits_def simp del: show_nat.simps)
  with assms(1) show "m = n \<and> u = v \<and> map canonical cs = map canonical ds"
    by (auto simp: show_nat_inj intro: concat_call_fields_inj simp del: show_nat.simps)
next
  assume "m = n \<and> u = v \<and> map canonical cs = map canonical ds"
  then show "sb_buf (build_sig m u cs) = sb_buf (build_sig n v ds)"
    using concat_call_fields_canonical[of cs ds] by (simp only: build_sig_builder simp_thms)
qed

lemma inj_on_pair: "inj_on f {x, y} \<Longrightarrow> f x = f y \<longleftrightarrow> x = y"
  by (auto simp: inj_on_def)

section \<open>What a manifest explains\<close>

lemma group_records_None: "group_records recs l = None \<longleftrightarrow> l \<notin> rec_label ` set recs"
proof -
  have "group_records recs l = None \<longleftrightarrow> filter (\<lambda>r. rec_label r = l) recs = []"
    by (simp add: group_records_def split: list.splits)
  then show ?thesis by (auto simp: filter_empty_conv)
qed

lemma change_of_Nil: "change_of f g l = [] \<longleftrightarrow> f l = g l"
  by (auto simp: change_of_def split: option.splits)

lemma sm_diff_Nil:
  "sm_diff old new = [] \<longleftrightarrow> group_records (sm_records old) = group_records (sm_records new)"
proof
  assume "sm_diff old new = []"
  then have "group_records (sm_records old) l = group_records (sm_records new) l"
    if "l \<in> rec_label ` set (sm_records old) \<union> rec_label ` set (sm_records new)" for l
    using that by (auto simp: sm_diff_def change_of_Nil)
  moreover have "group_records (sm_records old) l = group_records (sm_records new) l"
    if "l \<notin> rec_label ` set (sm_records old) \<union> rec_label ` set (sm_records new)" for l
    using that group_records_None by (metis UnI1 UnI2)
  ultimately show "group_records (sm_records old) = group_records (sm_records new)" by blast
qed (auto simp: sm_diff_def change_of_Nil)

text \<open>What a sequence of folds says under a label: nothing, or the values of its calls one after
  the other.\<close>

definition folded :: "fold_call list \<Rightarrow> string \<Rightarrow> string list option" where
  "folded cs l = (if l \<in> call_label ` set cs
     then Some (concat (map call_values (filter (\<lambda>c. call_label c = l) cs))) else None)"

lemma group_records_folds:
  "group_records (map (\<lambda>c. \<lparr>rec_label = call_label c, rec_values = call_values c\<rparr>) cs) = folded cs"
proof
  fix l
  have "filter (\<lambda>c. call_label c = l) cs = [] \<longleftrightarrow> l \<notin> call_label ` set cs" by (auto simp: filter_empty_conv)
  then show "group_records (map (\<lambda>c. \<lparr>rec_label = call_label c, rec_values = call_values c\<rparr>) cs) l = folded cs l"
    by (auto simp: group_records_def folded_def filter_map o_def split: list.split)
qed

lemma change_of_folded:
  "ch \<in> set (change_of f g l) \<Longrightarrow> ch_label ch = l \<and>
     ch_old ch = (case f l of None \<Rightarrow> [] | Some v \<Rightarrow> v) \<and> ch_new ch = (case g l of None \<Rightarrow> [] | Some v \<Rightarrow> v)"
  by (auto simp: change_of_def split: option.splits if_splits)

text \<open>The label and the values of a call, with its kind, are the call.\<close>

lemma canonical_eq:
  "call_kind c = call_kind d \<Longrightarrow> call_label c = call_label d \<Longrightarrow> call_values c = call_values d
    \<Longrightarrow> canonical c = canonical d"
  by (cases c; cases d) auto

lemma canonical_parts [simp]:
  "call_label (canonical c) = call_label c" "call_values (canonical c) = call_values c" "call_kind (canonical c) = call_kind c"
  by (cases c; simp)+

text \<open>A list is known from its keys and from what it holds under each key.\<close>

lemma map_eq_by_key:
  assumes "map f xs = map f ys"
    and "\<And>l. map g (filter (\<lambda>x. f x = l) xs) = map g (filter (\<lambda>y. f y = l) ys)"
  shows "map g xs = map g ys"
  using assms
proof (induction xs arbitrary: ys)
  case (Cons x xs)
  then obtain y ys' where y: "ys = y # ys'" "f x = f y" "map f xs = map f ys'" by (cases ys) auto
  have "map g (filter (\<lambda>x. f x = l) xs) = map g (filter (\<lambda>y. f y = l) ys')" for l
    using Cons.prems(2)[of l] y(1,2) by (auto split: if_splits)
  moreover have "g x = g y" using Cons.prems(2)[of "f x"] y(1,2) by simp
  ultimately show ?case using Cons.IH y(1,3) by simp
qed simp

lemma map_singletons:
  "\<forall>c \<in> set cs. length (g c) = 1 \<Longrightarrow> map g cs = map (\<lambda>x. [x]) (concat (map g cs))"
  by (induction cs) (auto simp: length_Suc_conv)

lemma concat_singletons:
  "\<forall>c \<in> set cs. length (g c) = 1 \<Longrightarrow> \<forall>d \<in> set ds. length (g d) = 1 \<Longrightarrow>
     concat (map g cs) = concat (map g ds) \<Longrightarrow> map g cs = map g ds"
  using map_singletons[of cs g] map_singletons[of ds g] by simp

text \<open>When is the sequence of calls known from what it says under each label? Under a label folded
  several times every call has to hold one value, and the labels that occur, with how often they
  do, have to give their order. The folds of one node are such: they come in the order of its
  code, each left out or not.\<close>

definition one_kind :: "fold_call list \<Rightarrow> fold_call list \<Rightarrow> bool" where
  "one_kind cs ds \<longleftrightarrow> (\<forall>c \<in> set cs. \<forall>d \<in> set ds. call_label c = call_label d \<longrightarrow> call_kind c = call_kind d)"

definition repeats_single :: "fold_call list \<Rightarrow> bool" where
  "repeats_single cs \<longleftrightarrow> (\<forall>c \<in> set cs. call_kind c \<in> {KScalar, KDep} \<or> count_list (map call_label cs) (call_label c) = 1)"

definition same_order :: "fold_call list \<Rightarrow> fold_call list \<Rightarrow> bool" where
  "same_order cs ds \<longleftrightarrow> (mset (map call_label cs) = mset (map call_label ds) \<longrightarrow> map call_label cs = map call_label ds)"

lemma single_values: "call_kind c \<in> {KScalar, KDep} \<Longrightarrow> length (call_values c) = 1"
  by (cases c) auto

lemma count_labels: "count_list (map call_label cs) l = length (filter (\<lambda>c. call_label c = l) cs)"
  by (induction cs) auto

lemma folded_under:
  assumes "folded cs = folded ds" "one_kind cs ds" "repeats_single cs" "repeats_single ds"
  shows "map call_values (filter (\<lambda>c. call_label c = l) cs) = map call_values (filter (\<lambda>d. call_label d = l) ds)"
proof (cases "l \<in> call_label ` set cs")
  case False
  with fun_cong[OF assms(1), of l] have "l \<notin> call_label ` set ds" by (auto simp: folded_def split: if_splits)
  with False have "filter (\<lambda>c. call_label c = l) cs = []" "filter (\<lambda>d. call_label d = l) ds = []"
    by (auto simp: filter_empty_conv)
  then show ?thesis by (simp only: list.map)
next
  case True
  let ?cs = "filter (\<lambda>c. call_label c = l) cs" and ?ds = "filter (\<lambda>d. call_label d = l) ds"
  from True fun_cong[OF assms(1), of l]
  have in_ds: "l \<in> call_label ` set ds" and e: "concat (map call_values ?cs) = concat (map call_values ?ds)"
    by (auto simp: folded_def split: if_splits)
  from True obtain c where c: "c \<in> set cs" "call_label c = l" by auto
  from in_ds obtain d where d: "d \<in> set ds" "call_label d = l" by auto
  have kinds: "call_kind c' = call_kind d'" if "c' \<in> set ?cs" "d' \<in> set ?ds" for c' d'
    using assms(2) that by (auto simp: one_kind_def)
  show ?thesis
  proof (cases "call_kind c \<in> {KScalar, KDep}")
    case True
    have k: "call_kind d' = call_kind c" if "d' \<in> set ?ds" for d' using kinds[of c d'] that c by simp
    moreover have "call_kind c' = call_kind c" if "c' \<in> set ?cs" for c'
      using kinds[of c' d] kinds[of c d] that c d by simp
    ultimately show ?thesis using True by (intro concat_singletons[OF _ _ e]) (metis single_values)+
  next
    case False
    moreover have "call_kind d \<notin> {KScalar, KDep}" using False kinds[of c d] c d by simp
    ultimately have "length ?cs = 1" "length ?ds = 1"
      using assms(3,4) c d by (auto simp: repeats_single_def count_labels)
    with e show ?thesis by (auto simp: length_Suc_conv)
  qed
qed

lemma canonical_by_parts:
  "one_kind cs ds \<Longrightarrow> map call_label cs = map call_label ds \<Longrightarrow> map call_values cs = map call_values ds
    \<Longrightarrow> map canonical cs = map canonical ds"
proof (induction cs arbitrary: ds)
  case (Cons c cs)
  then obtain d ds' where d: "ds = d # ds'" by (cases ds) simp_all
  from Cons.prems have "one_kind cs ds'" by (simp add: d one_kind_def)
  moreover from Cons.prems have "canonical c = canonical d" by (intro canonical_eq) (simp_all add: d one_kind_def)
  ultimately show ?case using Cons.IH[of ds'] Cons.prems(2,3) by (simp add: d)
qed simp

lemma folded_same:
  assumes "one_kind cs ds" "repeats_single cs" "repeats_single ds" "same_order cs ds"
  shows "folded cs = folded ds \<longleftrightarrow> map canonical cs = map canonical ds"
proof
  assume e: "folded cs = folded ds"
  note u = folded_under[OF e assms(1-3)]
  have "count_list (map call_label cs) l = count_list (map call_label ds) l" for l
    using arg_cong[OF u[of l], where f = length] by (simp add: count_labels)
  then have "mset (map call_label cs) = mset (map call_label ds)"
    by (intro multiset_eqI) (simp only: count_mset)
  with assms(4) have l: "map call_label cs = map call_label ds" by (simp add: same_order_def)
  have v: "map call_values cs = map call_values ds" by (rule map_eq_by_key[OF l u])
  from assms(1) l v show "map canonical cs = map canonical ds" by (rule canonical_by_parts)
next
  have "folded (map canonical xs) l = folded xs l" for xs l
    by (simp add: folded_def filter_map o_def image_image)
  then have folded_canonical: "folded (map canonical xs) = folded xs" for xs by (simp add: fun_eq_iff)
  assume "map canonical cs = map canonical ds"
  then show "folded cs = folded ds" using folded_canonical by metis
qed

section \<open>Properties of signatures\<close>

text \<open>The stream does not tell a list from the scalars that spell it, which is why a label needs
  one kind.\<close>

lemma kinds_confused:
  "sb_buf (build_sig n v [CScalar l ''1'', CScalar l x]) = sb_buf (build_sig n v [COrdered l [x]])"
proof -
  have "show_nat 1 = ''1''" by code_simp
  then show ?thesis by (simp add: build_sig_builder del: show_nat.simps)
qed



text \<open>C40. A rebuild is explained. Whatever the folds of two manifests, a label is in their
  difference exactly when the values folded under it, one record after the other, are not the
  same or are folded on one side only; and the entry has the values of both sides. When further a
  label has one kind, a label folded more than once holds one value each time, and the labels
  come in one order, the difference is empty exactly when the folded inputs are the same; so two
  stamps that differ with an empty difference differ in node or stage version.\<close>

theorem rebuild_explained:
  "let changes = sm_diff (sig_manifest sha (build_sig m u cs)) (sig_manifest sha (build_sig n v ds)) in
    (\<forall>l. (\<exists>ch \<in> set changes. ch_label ch = l) \<longleftrightarrow> folded cs l \<noteq> folded ds l)
    \<and> (\<forall>ch \<in> set changes. ch_old ch = (case folded cs (ch_label ch) of None \<Rightarrow> [] | Some v \<Rightarrow> v)
         \<and> ch_new ch = (case folded ds (ch_label ch) of None \<Rightarrow> [] | Some v \<Rightarrow> v))
    \<and> (one_kind cs ds \<and> repeats_single cs \<and> repeats_single ds \<and> same_order cs ds
         \<longrightarrow> (changes = [] \<longleftrightarrow> map canonical cs = map canonical ds))"
  unfolding Let_def
proof (intro conjI allI impI)
  let ?changes = "sm_diff (sig_manifest sha (build_sig m u cs)) (sig_manifest sha (build_sig n v ds))"
  let ?labels = "map call_label cs @ map call_label ds"
  have c: "?changes = concat (map (change_of (folded cs) (folded ds)) (sort_dedup ?labels))"
    by (simp add: sm_diff_def sig_manifest_def build_sig_builder group_records_folds o_def)
  show "(\<exists>ch \<in> set ?changes. ch_label ch = l) \<longleftrightarrow> folded cs l \<noteq> folded ds l" for l
  proof
    assume "\<exists>ch \<in> set ?changes. ch_label ch = l"
    then obtain k ch where k: "ch \<in> set (change_of (folded cs) (folded ds) k)" "ch_label ch = l" by (auto simp: c)
    with change_of_folded[OF k(1)] show "folded cs l \<noteq> folded ds l"
      using change_of_Nil[of "folded cs" "folded ds" l] by auto
  next
    assume d: "folded cs l \<noteq> folded ds l"
    then have "l \<in> set ?labels" by (auto simp: folded_def split: if_splits)
    moreover from d obtain ch where "ch \<in> set (change_of (folded cs) (folded ds) l)"
      using change_of_Nil[of "folded cs" "folded ds" l] by (cases "change_of (folded cs) (folded ds) l") auto
    ultimately show "\<exists>ch \<in> set ?changes. ch_label ch = l" using change_of_folded unfolding c by fastforce
  qed
  show "\<forall>ch \<in> set ?changes. ch_old ch = (case folded cs (ch_label ch) of None \<Rightarrow> [] | Some v \<Rightarrow> v)
         \<and> ch_new ch = (case folded ds (ch_label ch) of None \<Rightarrow> [] | Some v \<Rightarrow> v)"
    using change_of_folded unfolding c by fastforce
  assume "one_kind cs ds \<and> repeats_single cs \<and> repeats_single ds \<and> same_order cs ds"
  then have "folded cs = folded ds \<longleftrightarrow> map canonical cs = map canonical ds" using folded_same by blast
  then show "?changes = [] \<longleftrightarrow> map canonical cs = map canonical ds"
    unfolding sm_diff_Nil by (simp add: sig_manifest_def build_sig_builder group_records_folds)
qed

theorem rebuild_explained_witness:
  "sm_diff (sig_manifest rev (build_sig ''ffmpeg:out'' 1 [CDep ''t'', CSet ''ffmpeg_libs'' [''b'', ''a''], CDep ''mpp'', CDep ''rga'']))
     (sig_manifest rev (build_sig ''ffmpeg:out'' 2 [CDep ''t'', CSet ''ffmpeg_libs'' [''a'', ''b'', ''a''], CDep ''mpp'', CDep ''rga''])) = []"
proof -
  let ?cs = "[CDep ''t'', CSet ''ffmpeg_libs'' [''b'', ''a''], CDep ''mpp'', CDep ''rga'']"
  let ?ds = "[CDep ''t'', CSet ''ffmpeg_libs'' [''a'', ''b'', ''a''], CDep ''mpp'', CDep ''rga'']"
  have "one_kind ?cs ?ds" "repeats_single ?cs" "repeats_single ?ds" "same_order ?cs ?ds"
    by (simp_all add: one_kind_def repeats_single_def same_order_def)
  moreover have "map canonical ?cs = map canonical ?ds" by (simp add: sort_dedup_def)
  ultimately show ?thesis using rebuild_explained[of rev "''ffmpeg:out''" 1 ?cs "''ffmpeg:out''" 2 ?ds] unfolding Let_def by blast
qed

section \<open>The key of the rootfs store\<close>

definition ROOTFS_STAGE_VERSION :: nat where "ROOTFS_STAGE_VERSION = 14"

record CacheKeyInputs =
  ck_solved :: "string list"
  ck_overlay :: "string list"
  ck_repo_debs :: "string list"
  ck_apt_sources :: "string list"
  ck_arch :: string
  ck_suite :: string
  ck_components :: string
  ck_user :: string
  ck_interpreter :: "string option"
  ck_sudo :: string
  ck_authorized_keys :: "string list"
  ck_source_date_epoch :: nat

definition cache_key_builder :: "CacheKeyInputs \<Rightarrow> SignatureBuilder" where
  "cache_key_builder inputs =
     (let b = new_builder ''rootfs'' ROOTFS_STAGE_VERSION;
          b = fold_scalar ''arch'' (ck_arch inputs) b;
          b = fold_scalar ''suite'' (ck_suite inputs) b;
          b = fold_scalar ''components'' (ck_components inputs) b;
          b = fold_scalar ''user'' (ck_user inputs) b;
          b = fold_set ''solved'' (ck_solved inputs) b;
          b = fold_set ''overlay'' (ck_overlay inputs) b;
          b = fold_set ''repo_debs'' (ck_repo_debs inputs) b;
          b = (if ck_apt_sources inputs \<noteq> [] then fold_set ''apt_sources'' (ck_apt_sources inputs) b else b);
          b = (case ck_interpreter inputs of None \<Rightarrow> b | Some i \<Rightarrow> fold_scalar ''interpreter'' i b);
          b = fold_scalar ''sudo'' (ck_sudo inputs) b;
          b = fold_scalar ''source_date_epoch'' (show_nat (ck_source_date_epoch inputs)) b
      in (if ck_authorized_keys inputs \<noteq> [] then fold_ordered ''authorized_keys'' (ck_authorized_keys inputs) b else b))"

definition cache_key :: "(string \<Rightarrow> string) \<Rightarrow> CacheKeyInputs \<Rightarrow> string" where
  "cache_key sha inputs = finish sha (cache_key_builder inputs)"

text \<open>Its folds as one sequence of calls.\<close>

definition cache_calls :: "CacheKeyInputs \<Rightarrow> fold_call list" where
  "cache_calls inputs =
     [CScalar ''arch'' (ck_arch inputs), CScalar ''suite'' (ck_suite inputs),
      CScalar ''components'' (ck_components inputs), CScalar ''user'' (ck_user inputs),
      CSet ''solved'' (ck_solved inputs), CSet ''overlay'' (ck_overlay inputs), CSet ''repo_debs'' (ck_repo_debs inputs)]
     @ (if ck_apt_sources inputs \<noteq> [] then [CSet ''apt_sources'' (ck_apt_sources inputs)] else [])
     @ (case ck_interpreter inputs of None \<Rightarrow> [] | Some i \<Rightarrow> [CScalar ''interpreter'' i])
     @ [CScalar ''sudo'' (ck_sudo inputs), CScalar ''source_date_epoch'' (show_nat (ck_source_date_epoch inputs))]
     @ (if ck_authorized_keys inputs \<noteq> [] then [COrdered ''authorized_keys'' (ck_authorized_keys inputs)] else [])"

lemma cache_key_builder_calls:
  "cache_key_builder inputs = build_sig ''rootfs'' ROOTFS_STAGE_VERSION (cache_calls inputs)"
  by (simp add: cache_key_builder_def cache_calls_def build_sig_def split: option.split del: show_nat.simps)

text \<open>The inputs that decide the tree: lists the tree is built from as a set, the authorized keys
  as lines of a file.\<close>

definition same_inputs :: "CacheKeyInputs \<Rightarrow> CacheKeyInputs \<Rightarrow> bool" where
  "same_inputs a b \<longleftrightarrow> ck_arch a = ck_arch b \<and> ck_suite a = ck_suite b \<and> ck_components a = ck_components b
     \<and> ck_user a = ck_user b \<and> set (ck_solved a) = set (ck_solved b) \<and> set (ck_overlay a) = set (ck_overlay b)
     \<and> set (ck_repo_debs a) = set (ck_repo_debs b) \<and> set (ck_apt_sources a) = set (ck_apt_sources b)
     \<and> ck_interpreter a = ck_interpreter b \<and> ck_sudo a = ck_sudo b
     \<and> ck_authorized_keys a = ck_authorized_keys b \<and> ck_source_date_epoch a = ck_source_date_epoch b"

definition sized_inputs :: "CacheKeyInputs \<Rightarrow> bool" where
  "sized_inputs a \<longleftrightarrow> list_all sized (cache_calls a)"

lemma cache_calls_kinds:
  "c \<in> set (cache_calls a) \<Longrightarrow> d \<in> set (cache_calls b) \<Longrightarrow> call_label c = call_label d \<Longrightarrow> call_kind c = call_kind d"
  by (auto simp: cache_calls_def split: if_splits option.splits simp del: show_nat.simps)

lemma cache_calls_same: "map canonical (cache_calls a) = map canonical (cache_calls b) \<longleftrightarrow> same_inputs a b"
  by (auto simp: cache_calls_def same_inputs_def sort_dedup_eq show_nat_inj split: if_splits option.splits
      simp del: show_nat.simps)

text \<open>C10. The key of a stored root file system covers what its documentation says: as long as the
  hash does not confuse the two streams, two builds share a key exactly when every input that
  decides the tree is the same, where the order and repetition of packages, overlay files, local
  packages and repositories do not matter, the order of the authorized keys does, and a build
  without an interpreter or repositories never shares a key with one that has them.\<close>

theorem cache_key_exact:
  assumes "sized_inputs a" "sized_inputs b"
    and "inj_on sha {sb_buf (cache_key_builder a), sb_buf (cache_key_builder b)}"
  shows "cache_key sha a = cache_key sha b \<longleftrightarrow> same_inputs a b"
proof -
  have "cache_key sha a = cache_key sha b \<longleftrightarrow> sb_buf (cache_key_builder a) = sb_buf (cache_key_builder b)"
    using inj_on_pair[OF assms(3)] by (simp add: cache_key_def finish_def)
  also have "\<dots> \<longleftrightarrow> map canonical (cache_calls a) = map canonical (cache_calls b)"
  proof -
    have k: "\<forall>c \<in> set (cache_calls a). \<forall>d \<in> set (cache_calls b). call_label c = call_label d \<longrightarrow> call_kind c = call_kind d"
      by (intro ballI impI) (rule cache_calls_kinds)
    have n: "length ''rootfs'' < 2 ^ 64" "ROOTFS_STAGE_VERSION < 2 ^ 64"
      by (simp_all add: ROOTFS_STAGE_VERSION_def)
    from build_sig_stream_eq[OF k assms(1,2)[unfolded sized_inputs_def] n(1) n(1) n(2) n(2)]
    show ?thesis unfolding cache_key_builder_calls by simp
  qed
  finally show ?thesis by (simp only: cache_calls_same)
qed

definition demo_inputs :: CacheKeyInputs where
  "demo_inputs = \<lparr>ck_solved = [''bash 5.2 arm64'', ''apt 2.9 arm64''], ck_overlay = [], ck_repo_debs = [], ck_apt_sources = [],
     ck_arch = ''arm64'', ck_suite = ''trixie'', ck_components = ''main'', ck_user = ''user'', ck_interpreter = None,
     ck_sudo = ''password'', ck_authorized_keys = [], ck_source_date_epoch = 1700000000\<rparr>"

theorem cache_key_exact_witness:
  "cache_key rev demo_inputs = cache_key rev (demo_inputs\<lparr>ck_solved := [''apt 2.9 arm64'', ''bash 5.2 arm64'']\<rparr>)
   \<and> cache_key rev demo_inputs \<noteq> cache_key rev (demo_inputs\<lparr>ck_interpreter := Some ''qemu''\<rparr>)"
proof -
  have s: "sized_inputs demo_inputs" "sized_inputs (demo_inputs\<lparr>ck_solved := [''apt 2.9 arm64'', ''bash 5.2 arm64'']\<rparr>)"
    "sized_inputs (demo_inputs\<lparr>ck_interpreter := Some ''qemu''\<rparr>)"
    using show_nat_sized[of 1700000000]
    by (simp_all add: sized_inputs_def cache_calls_def demo_inputs_def sized_def sort_dedup_def del: show_nat.simps)
  have i: "inj_on rev A" for A :: "string set" by (simp add: inj_on_def)
  show ?thesis
    unfolding cache_key_exact[OF s(1,2) i] cache_key_exact[OF s(1,3) i]
    by (auto simp: same_inputs_def demo_inputs_def)
qed

end
