(* ===== verification/Artstore.thy ===== *)
theory Artstore
  imports Strings "HOL-Library.Sublist"
begin

text \<open>
  The store of build outputs (\<open>engine/src/artstore.rs\<close>): its entries, \<open>has\<close>, \<open>restore\<close> and
  \<open>put\<close>, the listing the liveness sweep of \<open>clean --artifacts\<close> reads
  (\<open>cli/src/commands/clean.rs\<close>), and a store shared by any number of builds.

  The file system is modelled as far as the store uses it: a directory of the store's two
  levels (\<open>(node directory, entry name)\<close>) is the map of its files to their bytes. Renaming a
  directory is atomic, succeeds onto an absent or an empty directory and fails onto another,
  as POSIX has it. \<open>put\<close> is cut at its system calls (\<open>put_advance\<close>), so that what other
  processes do between two of them is visible: the relation \<open>store_step\<close> lets any number of
  \<open>put\<close>s run interleaved, each of them fail or be killed at any point, even inside a copy, and
  files and empty directories be taken away at any time, which covers a sweep of stale
  temporaries, an interrupted \<open>clean\<close> and a damaged disk alike.

  The TOML printer and reader (\<open>toml\<close> crate) are the parameters \<open>to_toml\<close> and \<open>of_toml\<close>;
  what is relied on is that a printed manifest reads back as itself.
\<close>

section \<open>Entries\<close>

record StoredArtifact =
  sa_role :: string
  sa_file :: string

record StoreManifest =
  man_node :: string
  man_signature :: string
  man_artifacts :: "StoredArtifact list"

record StoreKey =
  sk_node :: string
  sk_signature :: string

type_synonym dir = "string \<rightharpoonup> string"

type_synonym store = "string \<times> string \<rightharpoonup> dir"

abbreviation MANIFEST :: string where "MANIFEST \<equiv> ''manifest.toml''"

definition node_dir :: "string \<Rightarrow> string" where
  "node_dir node = map (\<lambda>c. if c = CHR '':'' then CHR ''-'' else c) node"

definition entry_dir :: "string \<Rightarrow> string \<Rightarrow> string \<times> string" where
  "entry_dir node signature = (node_dir node, signature)"

definition is_file :: "store \<Rightarrow> string \<times> string \<Rightarrow> string \<Rightarrow> bool" where
  "is_file st d f \<longleftrightarrow> (case st d of None \<Rightarrow> False | Some files \<Rightarrow> files f \<noteq> None)"

definition store_has :: "store \<Rightarrow> string \<Rightarrow> string \<Rightarrow> bool" where
  "store_has st node signature = is_file st (entry_dir node signature) MANIFEST"

definition copy_into :: "dir \<Rightarrow> StoredArtifact list \<Rightarrow> dir \<Rightarrow> dir" where
  "copy_into src arts dest = fold (\<lambda>a d. d(sa_file a := src (sa_file a))) arts dest"

text \<open>\<open>restore\<close>: the restored roles with their files, and the destination after the copies.\<close>

definition restore ::
  "(string \<Rightarrow> StoreManifest option) \<Rightarrow> store \<Rightarrow> string \<Rightarrow> string \<Rightarrow> dir \<Rightarrow> ((string \<times> string) list \<times> dir) option" where
  "restore of_toml st node signature dest =
     (case st (entry_dir node signature) of
       None \<Rightarrow> None
     | Some files \<Rightarrow>
        (case files MANIFEST of
          None \<Rightarrow> None
        | Some txt \<Rightarrow>
           (case of_toml txt of
             None \<Rightarrow> None
           | Some man \<Rightarrow>
               if man_signature man \<noteq> signature then None
               else if list_ex (\<lambda>a. files (sa_file a) = None) (man_artifacts man) then None
               else Some (map (\<lambda>a. (sa_role a, sa_file a)) (man_artifacts man), copy_into files (man_artifacts man) dest))))"

text \<open>\<open>restore_stage_outputs\<close> of \<open>build/mod.rs\<close>: every asked role, or a miss.\<close>

definition role_path :: "(string \<times> string) list \<Rightarrow> string \<Rightarrow> string option" where
  "role_path restored role = map_option snd (find (\<lambda>(r, _). r = role) restored)"

fun role_paths :: "(string \<times> string) list \<Rightarrow> string list \<Rightarrow> string list option" where
  "role_paths restored [] = Some []"
| "role_paths restored (role # roles) =
     (case role_path restored role of
       None \<Rightarrow> None
     | Some p \<Rightarrow> map_option (Cons p) (role_paths restored roles))"

definition restore_stage_outputs ::
  "(string \<Rightarrow> StoreManifest option) \<Rightarrow> store option \<Rightarrow> string \<Rightarrow> string \<Rightarrow> dir \<Rightarrow> string list \<Rightarrow> string list option" where
  "restore_stage_outputs of_toml store_root node signature out_dir roles =
     (case store_root of
       None \<Rightarrow> None
     | Some st \<Rightarrow>
        (case restore of_toml st node signature out_dir of
          None \<Rightarrow> None
        | Some (files, _) \<Rightarrow> role_paths files roles))"

section \<open>Storing\<close>

text \<open>A \<open>put\<close> call: the artifacts are the role, the base name and the bytes of each source file.\<close>

record put_call =
  pc_node :: string
  pc_signature :: string
  pc_files :: "(string \<times> string \<times> string) list"

definition temp_name :: "string \<Rightarrow> nat \<Rightarrow> string" where
  "temp_name signature pid = ''.'' @ signature @ ''.'' @ show_nat pid @ ''.partial''"

definition temp_dir :: "nat \<Rightarrow> put_call \<Rightarrow> string \<times> string" where
  "temp_dir pid c = (node_dir (pc_node c), temp_name (pc_signature c) pid)"

definition final_dir :: "put_call \<Rightarrow> string \<times> string" where
  "final_dir c = entry_dir (pc_node c) (pc_signature c)"

definition manifest_of :: "put_call \<Rightarrow> StoreManifest" where
  "manifest_of c = \<lparr>man_node = pc_node c, man_signature = pc_signature c,
     man_artifacts = map (\<lambda>(role, file, _). \<lparr>sa_role = role, sa_file = file\<rparr>) (pc_files c)\<rparr>"

definition rename_dir :: "store \<Rightarrow> string \<times> string \<Rightarrow> string \<times> string \<Rightarrow> store option" where
  "rename_dir st src dst =
     (case st src of
       None \<Rightarrow> None
     | Some files \<Rightarrow>
        (case st dst of
          None \<Rightarrow> Some (st(dst \<mapsto> files, src := None))
        | Some old \<Rightarrow> if old = Map.empty then Some (st(dst \<mapsto> files, src := None)) else None))"

datatype put_pc = CheckHas | RemoveTemp | CreateTemp | Copying nat | Publish | Finished | Failed

text \<open>One system call of \<open>put\<close>, none of them failing on its own account: a copy into a
  temporary directory that was taken away fails, as does a rename that POSIX refuses.\<close>

definition put_advance ::
  "(StoreManifest \<Rightarrow> string) \<Rightarrow> nat \<Rightarrow> put_call \<Rightarrow> store \<times> put_pc \<Rightarrow> store \<times> put_pc" where
  "put_advance to_toml pid c s =
     (let st = fst s; tmp = temp_dir pid c in
      case snd s of
        CheckHas \<Rightarrow> if store_has st (pc_node c) (pc_signature c) then (st, Finished) else (st, RemoveTemp)
      | RemoveTemp \<Rightarrow> (st(tmp := None), CreateTemp)
      | CreateTemp \<Rightarrow> (st(tmp \<mapsto> (case st tmp of None \<Rightarrow> Map.empty | Some files \<Rightarrow> files)), Copying 0)
      | Copying i \<Rightarrow>
          (case st tmp of
            None \<Rightarrow> (st, Failed)
          | Some files \<Rightarrow>
              if i < length (pc_files c)
              then (st(tmp \<mapsto> files(fst (snd (pc_files c ! i)) \<mapsto> snd (snd (pc_files c ! i)))), Copying (Suc i))
              else (st(tmp \<mapsto> files(MANIFEST \<mapsto> to_toml (manifest_of c))), Publish))
      | Publish \<Rightarrow>
          (case rename_dir st tmp (final_dir c) of
            Some st' \<Rightarrow> (st', Finished)
          | None \<Rightarrow>
              if is_file st (final_dir c) MANIFEST then (st(tmp := None), Finished)
              else (st(tmp := None), Failed))
      | Finished \<Rightarrow> s
      | Failed \<Rightarrow> s)"

text \<open>The whole call when nothing else runs: the check, the removal, the directory, one step per
  file, the manifest and the rename.\<close>

definition put_steps :: "put_call \<Rightarrow> nat" where
  "put_steps c = length (pc_files c) + 5"

definition put :: "(StoreManifest \<Rightarrow> string) \<Rightarrow> nat \<Rightarrow> put_call \<Rightarrow> store \<Rightarrow> store \<times> put_pc" where
  "put to_toml pid c st = (put_advance to_toml pid c ^^ put_steps c) (st, CheckHas)"

section \<open>Listing and pruning\<close>

record StoreEntry =
  se_dir :: "string \<times> string"
  se_key :: "StoreKey option"

text \<open>\<open>entries\<close> over the directories the two levels list: names with a leading dot are the
  temporaries and are skipped.\<close>

definition entry_key :: "(string \<Rightarrow> StoreManifest option) \<Rightarrow> store \<Rightarrow> string \<times> string \<Rightarrow> StoreKey option" where
  "entry_key of_toml st d =
     (case Option.bind (Option.bind (st d) (\<lambda>files. files MANIFEST)) of_toml of
       None \<Rightarrow> None
     | Some man \<Rightarrow> if man_signature man = snd d
                   then Some \<lparr>sk_node = man_node man, sk_signature = man_signature man\<rparr> else None)"

definition store_entries :: "(string \<Rightarrow> StoreManifest option) \<Rightarrow> store \<Rightarrow> (string \<times> string) list \<Rightarrow> StoreEntry list" where
  "store_entries of_toml st listing =
     map (\<lambda>d. \<lparr>se_dir = d, se_key = entry_key of_toml st d\<rparr>)
       (sort_by (\<lambda>a b. and_then (cmp (fst a) (fst b)) (cmp (snd a) (snd b)))
         (filter (\<lambda>d. \<not> starts_with ''.'' (snd d)) listing))"

definition dead_artifacts :: "StoreEntry list \<Rightarrow> StoreKey set \<Rightarrow> (string \<times> string) list" where
  "dead_artifacts es live =
     map se_dir (filter (\<lambda>e. case se_key e of None \<Rightarrow> True | Some k \<Rightarrow> k \<notin> live) es)"

text \<open>\<open>subsets\<close>: one list per mask, bit \<open>i\<close> of the mask keeping the \<open>i\<close>th name.\<close>

definition subsets :: "'a list \<Rightarrow> 'a list list" where
  "subsets names =
     map (\<lambda>mask. map snd (filter (\<lambda>(i, _). mask div 2 ^ i mod 2 = 1) (enumerate 0 names))) [0..<2 ^ length names]"

section \<open>Builds sharing one store\<close>

record put_proc =
  pp_call :: put_call
  pp_pc :: put_pc

record world =
  w_store :: store
  w_procs :: "nat \<rightharpoonup> put_proc"
  w_log :: "put_call set"

text \<open>What the stages pass: a signature is a hex string, so it has no leading dot, and the files
  of a node are packages and payloads with distinct names, none of them the manifest's.\<close>

definition call_ok :: "put_call \<Rightarrow> bool" where
  "call_ok c \<longleftrightarrow> \<not> starts_with ''.'' (pc_signature c)
     \<and> distinct (map (fst \<circ> snd) (pc_files c)) \<and> MANIFEST \<notin> (fst \<circ> snd) ` set (pc_files c)"

inductive store_step :: "(StoreManifest \<Rightarrow> string) \<Rightarrow> world \<Rightarrow> world \<Rightarrow> bool" for to_toml where
  begin_put: "store_step to_toml w (w\<lparr>w_procs := (w_procs w)(pid \<mapsto> \<lparr>pp_call = c, pp_pc = CheckHas\<rparr>), w_log := insert c (w_log w)\<rparr>)"
    if "w_procs w pid = None" "call_ok c"
| advance: "store_step to_toml w (w\<lparr>w_store := st, w_procs := (w_procs w)(pid \<mapsto> p\<lparr>pp_pc := pc\<rparr>)\<rparr>)"
    if "w_procs w pid = Some p" "put_advance to_toml pid (pp_call p) (w_store w, pp_pc p) = (st, pc)"
| keep_temp: "store_step to_toml w (w\<lparr>w_procs := (w_procs w)(pid \<mapsto> p\<lparr>pp_pc := CreateTemp\<rparr>)\<rparr>)"
    if "w_procs w pid = Some p" "pp_pc p = RemoveTemp"
| io_error: "store_step to_toml w (w\<lparr>w_procs := (w_procs w)(pid \<mapsto> p\<lparr>pp_pc := Failed\<rparr>)\<rparr>)"
    if "w_procs w pid = Some p" "pp_pc p \<noteq> Finished"
| torn_copy: "store_step to_toml w (w\<lparr>w_store := (w_store w)(temp_dir pid (pp_call p) \<mapsto> files(f \<mapsto> bytes)), w_procs := (w_procs w)(pid := None)\<rparr>)"
    if "w_procs w pid = Some p" "pp_pc p = Copying i" "w_store w (temp_dir pid (pp_call p)) = Some files"
| return_or_kill: "store_step to_toml w (w\<lparr>w_procs := (w_procs w)(pid := None)\<rparr>)"
| lose_file: "store_step to_toml w (w\<lparr>w_store := (w_store w)(d \<mapsto> files(f := None))\<rparr>)"
    if "w_store w d = Some files"
| lose_dir: "store_step to_toml w (w\<lparr>w_store := (w_store w)(d := None)\<rparr>)"
    if "w_store w d = Some Map.empty"

definition empty_world :: world where
  "empty_world = \<lparr>w_store = Map.empty, w_procs = Map.empty, w_log = {}\<rparr>"

inductive store_reachable :: "(StoreManifest \<Rightarrow> string) \<Rightarrow> world \<Rightarrow> bool" for to_toml where
  start: "store_reachable to_toml empty_world"
| more: "store_reachable to_toml w \<Longrightarrow> store_step to_toml w w' \<Longrightarrow> store_reachable to_toml w'"

section \<open>Names\<close>

lemma temp_name_dot [simp]: "starts_with ''.'' (temp_name signature pid)"
  by (simp add: temp_name_def starts_with_def)

lemma final_not_temp: "call_ok d \<Longrightarrow> temp_dir pid c \<noteq> final_dir d"
  by (auto simp: call_ok_def temp_dir_def final_dir_def entry_dir_def dest: arg_cong[where f = "starts_with ''.''"])

lemma temp_dir_pid: "temp_dir p c = temp_dir q d \<Longrightarrow> p = q"
proof -
  assume "temp_dir p c = temp_dir q d"
  then have "(''.'' @ pc_signature c) @ CHR ''.'' # show_nat p = (''.'' @ pc_signature d) @ CHR ''.'' # show_nat q"
    by (simp add: temp_dir_def temp_name_def del: show_nat.simps)
  moreover have "CHR ''.'' \<notin> set (show_nat n)" for n
    using show_nat_digits[of n] by (auto simp: all_digits_iff is_digit_def simp del: show_nat.simps)
  ultimately have "show_nat p = show_nat q"
    using rsplit_once_Some[of "CHR ''.''" _ _ "show_nat p"] rsplit_once_Some[of "CHR ''.''" _ _ "show_nat q"]
    by (metis option.inject prod.inject)
  then show "p = q" by (simp only: show_nat_inj)
qed

section \<open>The invariant of a shared store\<close>

text \<open>A directory holds, of the first \<open>n\<close> files of a call, nothing but what the call put there.\<close>

definition holds_files :: "put_call \<Rightarrow> nat \<Rightarrow> dir \<Rightarrow> bool" where
  "holds_files c n files \<longleftrightarrow>
     (\<forall>(_, f, bytes) \<in> set (take n (pc_files c)). files f = None \<or> files f = Some bytes)"

definition holds_entry :: "(StoreManifest \<Rightarrow> string) \<Rightarrow> put_call \<Rightarrow> dir \<Rightarrow> bool" where
  "holds_entry to_toml c files \<longleftrightarrow> holds_files c (length (pc_files c)) files
     \<and> (files MANIFEST = None \<or> files MANIFEST = Some (to_toml (manifest_of c)))"

definition temp_ok :: "(StoreManifest \<Rightarrow> string) \<Rightarrow> store \<Rightarrow> nat \<Rightarrow> put_proc \<Rightarrow> bool" where
  "temp_ok to_toml st pid p \<longleftrightarrow>
     (case pp_pc p of
       Copying i \<Rightarrow> i \<le> length (pc_files (pp_call p))
         \<and> (\<forall>files. st (temp_dir pid (pp_call p)) = Some files \<longrightarrow> holds_files (pp_call p) i files)
     | Publish \<Rightarrow> \<forall>files. st (temp_dir pid (pp_call p)) = Some files \<longrightarrow> holds_entry to_toml (pp_call p) files
     | _ \<Rightarrow> True)"

definition entry_ok :: "(StoreManifest \<Rightarrow> string) \<Rightarrow> put_call set \<Rightarrow> store \<Rightarrow> string \<times> string \<Rightarrow> bool" where
  "entry_ok to_toml calls st d \<longleftrightarrow>
     (\<forall>files. st d = Some files \<longrightarrow> files MANIFEST \<noteq> None \<longrightarrow>
       (\<exists>c \<in> calls. call_ok c \<and> final_dir c = d \<and> holds_entry to_toml c files))"

definition store_inv :: "(StoreManifest \<Rightarrow> string) \<Rightarrow> world \<Rightarrow> bool" where
  "store_inv to_toml w \<longleftrightarrow>
     (\<forall>pid p. w_procs w pid = Some p \<longrightarrow> pp_call p \<in> w_log w \<and> call_ok (pp_call p) \<and> temp_ok to_toml (w_store w) pid p)
     \<and> (\<forall>d. \<not> starts_with ''.'' (snd d) \<longrightarrow> entry_ok to_toml (w_log w) (w_store w) d)"

text \<open>Losing files and directories keeps all of it.\<close>

lemma map_le_cases: "g \<subseteq>\<^sub>m f \<Longrightarrow> g x = None \<or> g x = f x"
  by (auto simp: map_le_def domIff)

lemma holds_files_le:
  assumes "holds_files c n files" "files' \<subseteq>\<^sub>m files"
  shows "holds_files c n files'"
  unfolding holds_files_def
proof (intro ballI, clarify)
  fix r f b assume "(r, f, b) \<in> set (take n (pc_files c))" "files' f \<noteq> Some b"
  with assms map_le_cases[OF assms(2), of f] show "files' f = None"
    by (auto simp: holds_files_def)
qed

lemma holds_entry_le:
  assumes "holds_entry to_toml c files" "files' \<subseteq>\<^sub>m files"
  shows "holds_entry to_toml c files'"
  using assms holds_files_le[OF _ assms(2)] map_le_cases[OF assms(2), of MANIFEST]
  by (auto simp: holds_entry_def)

definition shrunk :: "store \<Rightarrow> store \<Rightarrow> bool" where
  "shrunk st' st \<longleftrightarrow> (\<forall>d files'. st' d = Some files' \<longrightarrow> (\<exists>files. st d = Some files \<and> files' \<subseteq>\<^sub>m files))"

lemma shrunk_Some: "shrunk st' st \<Longrightarrow> st' d = Some files' \<Longrightarrow> (\<And>files. st d = Some files \<Longrightarrow> files' \<subseteq>\<^sub>m files \<Longrightarrow> P) \<Longrightarrow> P"
  unfolding shrunk_def by blast

lemma temp_ok_shrunk:
  assumes "temp_ok to_toml st pid p" "shrunk st' st"
  shows "temp_ok to_toml st' pid p"
proof (cases "pp_pc p")
  case (Copying i)
  with assms show ?thesis
    by (auto simp: temp_ok_def elim!: shrunk_Some intro: holds_files_le)
next
  case Publish
  with assms show ?thesis
    by (auto simp: temp_ok_def elim!: shrunk_Some intro: holds_entry_le)
qed (simp_all add: temp_ok_def)

lemma entry_ok_shrunk: "entry_ok to_toml calls st d \<Longrightarrow> shrunk st' st \<Longrightarrow> entry_ok to_toml calls st' d"
proof -
  assume e: "entry_ok to_toml calls st d" and s: "shrunk st' st"
  show "entry_ok to_toml calls st' d" unfolding entry_ok_def
  proof (intro allI impI)
    fix files' assume f': "st' d = Some files'" "files' MANIFEST \<noteq> None"
    from s f'(1) obtain files where f: "st d = Some files" "files' \<subseteq>\<^sub>m files" by (rule shrunk_Some)
    with f' have "files MANIFEST \<noteq> None" by (force simp: map_le_def domIff)
    with e f(1) obtain c where "c \<in> calls" "call_ok c" "final_dir c = d" "holds_entry to_toml c files"
      by (auto simp: entry_ok_def)
    with f(2) show "\<exists>c \<in> calls. call_ok c \<and> final_dir c = d \<and> holds_entry to_toml c files'"
      using holds_entry_le by blast
  qed
qed

lemma shrunk_lose:
  "st d = Some files \<Longrightarrow> shrunk (st(d \<mapsto> files(f := None))) st"
  "shrunk (st(d := None)) st" "shrunk st st"
  by (auto simp: shrunk_def map_le_def)

text \<open>A process only ever touches its own temporary directory and its final one.\<close>

lemma put_advance_frame:
  assumes "put_advance to_toml pid c (st, pc) = (st', pc')" "d \<noteq> temp_dir pid c" "d \<noteq> final_dir c"
  shows "st' d = st d"
  using assms
  by (cases pc) (auto simp: put_advance_def rename_dir_def Let_def split: option.splits if_splits)

lemma entry_ok_log: "entry_ok to_toml calls st d \<Longrightarrow> entry_ok to_toml (insert c calls) st d"
  by (fastforce simp: entry_ok_def)

lemma entry_ok_cong: "st d = st' d \<Longrightarrow> entry_ok to_toml calls st d = entry_ok to_toml calls st' d"
  by (simp add: entry_ok_def)

lemma temp_ok_cong:
  "st (temp_dir pid (pp_call p)) = st' (temp_dir pid (pp_call p)) \<Longrightarrow> temp_ok to_toml st pid p = temp_ok to_toml st' pid p"
  by (simp add: temp_ok_def split: put_pc.splits)

lemma holds_files_0 [simp]: "holds_files c 0 files"
  by (simp add: holds_files_def)

lemma call_ok_names:
  assumes "call_ok c" "i < length (pc_files c)" "j < length (pc_files c)"
    "fst (snd (pc_files c ! i)) = fst (snd (pc_files c ! j))"
  shows "i = j"
  using assms nth_eq_iff_index_eq[of "map (fst \<circ> snd) (pc_files c)" i j] by (simp add: call_ok_def)

lemma holds_files_nth:
  "holds_files c n files \<longleftrightarrow> (\<forall>j < n. j < length (pc_files c) \<longrightarrow>
     files (fst (snd (pc_files c ! j))) = None \<or> files (fst (snd (pc_files c ! j))) = Some (snd (snd (pc_files c ! j))))"
  by (force simp: holds_files_def in_set_conv_nth split_beta)

lemma holds_files_copy:
  assumes "holds_files c i files" "call_ok c" "i < length (pc_files c)"
  shows "holds_files c (Suc i) (files(fst (snd (pc_files c ! i)) \<mapsto> snd (snd (pc_files c ! i))))"
  unfolding holds_files_nth
proof (intro allI impI)
  fix j assume j: "j < Suc i" "j < length (pc_files c)"
  show "(files(fst (snd (pc_files c ! i)) \<mapsto> snd (snd (pc_files c ! i)))) (fst (snd (pc_files c ! j))) = None
    \<or> (files(fst (snd (pc_files c ! i)) \<mapsto> snd (snd (pc_files c ! i)))) (fst (snd (pc_files c ! j))) = Some (snd (snd (pc_files c ! j)))"
    using assms(1) j call_ok_names[OF assms(2,3) j(2)] by (cases "j = i") (auto simp: holds_files_nth less_Suc_eq)
qed

lemma holds_entry_manifest:
  assumes "holds_files c (length (pc_files c)) files" "call_ok c"
  shows "holds_entry to_toml c (files(MANIFEST \<mapsto> to_toml (manifest_of c)))"
  using assms by (force simp: holds_entry_def holds_files_def call_ok_def)

text \<open>The step of one process: what it leaves in its temporary directory and in its entry.\<close>

lemma put_advance_temp:
  assumes "temp_ok to_toml st pid p" "call_ok (pp_call p)" "put_advance to_toml pid (pp_call p) (st, pp_pc p) = (st', pc')"
  shows "temp_ok to_toml st' pid (p\<lparr>pp_pc := pc'\<rparr>)"
proof (cases "pp_pc p")
  case (Copying i)
  with assms show ?thesis
    by (auto simp: put_advance_def Let_def temp_ok_def holds_files_copy holds_entry_manifest
        split: option.splits if_splits)
qed (use assms in \<open>auto simp: put_advance_def temp_ok_def Let_def split: option.splits if_splits\<close>)

lemma put_advance_entry:
  assumes "temp_ok to_toml st pid p" "call_ok (pp_call p)" "pp_call p \<in> calls"
    and "put_advance to_toml pid (pp_call p) (st, pp_pc p) = (st', pc')"
    and "entry_ok to_toml calls st (final_dir (pp_call p))"
  shows "entry_ok to_toml calls st' (final_dir (pp_call p))"
proof (cases "pp_pc p")
  case Publish
  have n: "final_dir (pp_call p) \<noteq> temp_dir pid (pp_call p)" using final_not_temp[OF assms(2)] by metis
  show ?thesis
  proof (cases "rename_dir st (temp_dir pid (pp_call p)) (final_dir (pp_call p))")
    case None
    with Publish assms(4,5) n show ?thesis
      by (auto simp: put_advance_def Let_def entry_ok_def split: if_splits)
  next
    case (Some st2)
    then obtain files where f: "st (temp_dir pid (pp_call p)) = Some files" "st2 (final_dir (pp_call p)) = Some files"
      using n by (auto simp: rename_dir_def split: option.splits if_splits)
    have "holds_entry to_toml (pp_call p) files" using assms(1) Publish f(1) by (simp add: temp_ok_def)
    moreover have "st' = st2" using Some Publish assms(4) by (simp add: put_advance_def Let_def)
    ultimately show ?thesis using f(2) assms(2,3) by (auto simp: entry_ok_def)
  qed
next
  case (Copying i)
  with assms(4,5) final_not_temp[OF assms(2), of pid "pp_call p"] show ?thesis
    by (auto simp: put_advance_def Let_def entry_ok_def split: option.splits if_splits)
qed (use assms(4,5) final_not_temp[OF assms(2), of pid "pp_call p"] in
    \<open>auto simp: put_advance_def entry_ok_def Let_def split: option.splits if_splits\<close>)

lemma store_inv_entry: "store_inv to_toml w \<Longrightarrow> \<not> starts_with ''.'' (snd d) \<Longrightarrow> entry_ok to_toml (w_log w) (w_store w) d"
  unfolding store_inv_def by blast

lemma store_inv_shrunk:
  assumes "store_inv to_toml w" "shrunk st (w_store w)"
  shows "store_inv to_toml (w\<lparr>w_store := st\<rparr>)"
  using assms temp_ok_shrunk[OF _ assms(2)] entry_ok_shrunk[OF store_inv_entry[OF assms(1)] assms(2)]
  by (simp add: store_inv_def)

lemma store_inv_step:
  assumes "store_step to_toml w w'" "store_inv to_toml w"
  shows "store_inv to_toml w'"
  using assms
proof (induction rule: store_step.induct)
  case (begin_put w pid c)
  then show ?case by (auto simp: store_inv_def temp_ok_def entry_ok_log)
next
  case (advance w pid p st pc)
  let ?c = "pp_call p"
  from advance have p: "?c \<in> w_log w" "call_ok ?c" "temp_ok to_toml (w_store w) pid p"
    by (auto simp: store_inv_def)
  have other: "temp_ok to_toml st q r" if "w_procs w q = Some r" "q \<noteq> pid" for q r
  proof -
    have "temp_ok to_toml (w_store w) q r" "call_ok (pp_call r)" using that advance by (auto simp: store_inv_def)
    moreover have "st (temp_dir q (pp_call r)) = w_store w (temp_dir q (pp_call r))"
      using advance.hyps(2) that(2) temp_dir_pid final_not_temp[OF p(2)] by (intro put_advance_frame) auto
    ultimately show ?thesis using temp_ok_cong by metis
  qed
  have "entry_ok to_toml (w_log w) st d" if "\<not> starts_with ''.'' (snd d)" for d
  proof (cases "d = final_dir ?c")
    case True
    from advance.prems that have "entry_ok to_toml (w_log w) (w_store w) d" by (rule store_inv_entry)
    with put_advance_entry[OF p(3,2,1) advance.hyps(2)] show ?thesis by (simp add: True)
  next
    case False
    moreover from that have "d \<noteq> temp_dir pid ?c" by (auto simp: temp_dir_def)
    ultimately have "st d = w_store w d" using advance.hyps(2) by (intro put_advance_frame)
    then show ?thesis using advance.prems that entry_ok_cong by (metis store_inv_def)
  qed
  with other put_advance_temp[OF p(3,2) advance.hyps(2)] p advance.prems show ?case
    by (auto simp: store_inv_def)
next
  case (torn_copy w pid p i files f bytes)
  let ?st = "(w_store w)(temp_dir pid (pp_call p) \<mapsto> files(f \<mapsto> bytes))"
  have "temp_ok to_toml ?st q r" if "w_procs w q = Some r" "q \<noteq> pid" for q r
  proof -
    have "temp_ok to_toml (w_store w) q r" using that torn_copy.prems by (auto simp: store_inv_def)
    moreover have "?st (temp_dir q (pp_call r)) = w_store w (temp_dir q (pp_call r))"
      using that(2) temp_dir_pid by fastforce
    ultimately show ?thesis using temp_ok_cong by metis
  qed
  moreover have "entry_ok to_toml (w_log w) ?st d" if "\<not> starts_with ''.'' (snd d)" for d
  proof -
    from that have "d \<noteq> temp_dir pid (pp_call p)" by (auto simp: temp_dir_def)
    then show ?thesis using store_inv_entry[OF torn_copy.prems that] by (simp add: entry_ok_def)
  qed
  ultimately show ?case using torn_copy.prems by (auto simp: store_inv_def)
next
  case (lose_file w d files f)
  then show ?case using store_inv_shrunk[OF _ shrunk_lose(1)] by blast
next
  case (lose_dir w d)
  then show ?case using store_inv_shrunk[OF _ shrunk_lose(2)] by blast
qed (auto simp: store_inv_def temp_ok_def)

lemma store_inv_reachable: "store_reachable to_toml w \<Longrightarrow> store_inv to_toml w"
proof (induction rule: store_reachable.induct)
  case start
  show ?case by (simp add: store_inv_def empty_world_def entry_ok_def)
qed (rule store_inv_step)

section \<open>What a restore finds\<close>

lemma restore_Some:
  "restore of_toml st node signature dest = Some r \<longleftrightarrow>
     (\<exists>files txt man. st (entry_dir node signature) = Some files \<and> files MANIFEST = Some txt \<and> of_toml txt = Some man
        \<and> man_signature man = signature \<and> (\<forall>a \<in> set (man_artifacts man). files (sa_file a) \<noteq> None)
        \<and> r = (map (\<lambda>a. (sa_role a, sa_file a)) (man_artifacts man), copy_into files (man_artifacts man) dest))"
  by (auto simp: restore_def list_ex_iff split: option.splits if_splits)

lemma copy_into_at: "copy_into src arts dest f = (if f \<in> sa_file ` set arts then src f else dest f)"
proof (induction arts arbitrary: dest)
  case (Cons a arts)
  have "copy_into src (a # arts) dest = copy_into src arts (dest(sa_file a := src (sa_file a)))"
    by (simp add: copy_into_def)
  with Cons show ?case by auto
qed (simp add: copy_into_def)

lemma manifest_of_files:
  "map (\<lambda>a. (sa_role a, sa_file a)) (man_artifacts (manifest_of c)) = map (\<lambda>(r, f, _). (r, f)) (pc_files c)"
  "sa_file ` set (man_artifacts (manifest_of c)) = (\<lambda>(_, f, _). f) ` set (pc_files c)"
  by (simp_all add: manifest_of_def split_beta o_def image_image)

text \<open>What \<open>call\<close> puts is what a restore under its key gives.\<close>

definition restores_call :: "put_call \<Rightarrow> dir \<Rightarrow> (string \<times> string) list \<times> dir \<Rightarrow> bool" where
  "restores_call c dest r \<longleftrightarrow> fst r = map (\<lambda>(role, f, _). (role, f)) (pc_files c)
     \<and> (\<forall>(_, f, bytes) \<in> set (pc_files c). snd r f = Some bytes)
     \<and> (\<forall>f. f \<notin> (\<lambda>(_, f, _). f) ` set (pc_files c) \<longrightarrow> snd r f = dest f)"

lemma restores_call_entry:
  assumes "holds_entry to_toml c files" "\<forall>a \<in> set (man_artifacts (manifest_of c)). files (sa_file a) \<noteq> None"
  shows "restores_call c dest (map (\<lambda>a. (sa_role a, sa_file a)) (man_artifacts (manifest_of c)),
    copy_into files (man_artifacts (manifest_of c)) dest)"
proof -
  have "files f = Some bytes" if "(r, f, bytes) \<in> set (pc_files c)" for r f bytes
  proof -
    from that have "f \<in> sa_file ` set (man_artifacts (manifest_of c))" by (force simp: manifest_of_files)
    with assms(2) have "files f \<noteq> None" by auto
    with assms(1) that show ?thesis by (auto simp: holds_entry_def holds_files_def)
  qed
  then show ?thesis
    by (auto simp: restores_call_def manifest_of_files copy_into_at image_iff split_beta)
qed

section \<open>Properties of the store\<close>

text \<open>C3. A hit is what some build stored: in any store that builds reach together, however their
  \<open>put\<close>s interleave, fail or are killed, and whatever sweeps and interrupted removals take away,
  a restore either misses or returns the roles and the bytes of all files of one single \<open>put\<close>
  under that signature and node directory, in the order they were stored.\<close>

theorem restore_is_one_put:
  assumes "store_reachable to_toml w" "\<forall>m. of_toml (to_toml m) = Some m"
    and "\<not> starts_with ''.'' signature" "restore of_toml (w_store w) node signature dest = Some r"
  shows "\<exists>c \<in> w_log w. node_dir (pc_node c) = node_dir node \<and> pc_signature c = signature \<and> restores_call c dest r"
proof -
  from assms(4) obtain files t man where f: "w_store w (entry_dir node signature) = Some files" "files MANIFEST = Some t"
    "of_toml t = Some man" "\<forall>a \<in> set (man_artifacts man). files (sa_file a) \<noteq> None"
    and r: "r = (map (\<lambda>a. (sa_role a, sa_file a)) (man_artifacts man), copy_into files (man_artifacts man) dest)"
    by (auto simp: restore_Some)
  have "entry_ok to_toml (w_log w) (w_store w) (entry_dir node signature)"
    by (rule store_inv_entry[OF store_inv_reachable[OF assms(1)]]) (simp add: entry_dir_def assms(3))
  with f(1,2) obtain c where c: "c \<in> w_log w" "final_dir c = entry_dir node signature" "holds_entry to_toml c files"
    by (auto simp: entry_ok_def)
  with f(2,3) assms(2) have "man = manifest_of c" by (simp add: holds_entry_def)
  with c f(4) r restores_call_entry show ?thesis by (auto simp: final_dir_def entry_dir_def)
qed

lemma put_advance_done: "(put_advance to_toml pid c ^^ n) (st, Finished) = (st, Finished)"
  "(put_advance to_toml pid c ^^ n) (st, Failed) = (st, Failed)"
  by (induction n) (simp_all add: put_advance_def)

lemma put_copies:
  assumes "i + k \<le> length (pc_files c)" "st (temp_dir pid c) = Some files" "holds_files c i files"
    "\<forall>j < i. files (fst (snd (pc_files c ! j))) \<noteq> None" "call_ok c"
  shows "\<exists>files'. (put_advance to_toml pid c ^^ k) (st, Copying i) = (st(temp_dir pid c \<mapsto> files'), Copying (i + k))
    \<and> holds_files c (i + k) files' \<and> (\<forall>j < i + k. files' (fst (snd (pc_files c ! j))) \<noteq> None)"
  using assms
proof (induction k arbitrary: i st files)
  case 0
  then show ?case by (auto intro!: exI[of _ files])
next
  case (Suc k)
  let ?files = "files(fst (snd (pc_files c ! i)) \<mapsto> snd (snd (pc_files c ! i)))"
  have "put_advance to_toml pid c (st, Copying i) = (st(temp_dir pid c \<mapsto> ?files), Copying (Suc i))"
    using Suc.prems by (simp add: put_advance_def)
  moreover have "\<exists>files'. (put_advance to_toml pid c ^^ k) (st(temp_dir pid c \<mapsto> ?files), Copying (Suc i))
      = (st(temp_dir pid c \<mapsto> ?files, temp_dir pid c \<mapsto> files'), Copying (Suc i + k))
    \<and> holds_files c (Suc i + k) files' \<and> (\<forall>j < Suc i + k. files' (fst (snd (pc_files c ! j))) \<noteq> None)"
  proof (rule Suc.IH)
    show "holds_files c (Suc i) ?files" using Suc.prems by (intro holds_files_copy) auto
  qed (use Suc.prems in \<open>auto simp: less_Suc_eq\<close>)
  ultimately show ?case
    by (simp only: funpow_Suc_right o_apply fun_upd_upd add_Suc_right add_Suc)
qed

lemma put_writes:
  assumes "call_ok c" "\<not> store_has st (pc_node c) (pc_signature c)"
  shows "\<exists>files. put to_toml pid c st = put_advance to_toml pid c (st(temp_dir pid c \<mapsto> files), Publish)
    \<and> holds_entry to_toml c files \<and> files MANIFEST = Some (to_toml (manifest_of c))
    \<and> (\<forall>(_, f, bytes) \<in> set (pc_files c). files f = Some bytes)"
proof -
  let ?n = "length (pc_files c)" and ?a = "put_advance to_toml pid c"
  have 1: "(?a ^^ 3) (st, CheckHas) = (st(temp_dir pid c \<mapsto> Map.empty), Copying 0)"
    using assms(2) by (simp add: put_advance_def eval_nat_numeral)
  from put_copies[of 0 ?n c "st(temp_dir pid c \<mapsto> Map.empty)" pid Map.empty to_toml] assms(1)
  obtain files where f: "(?a ^^ ?n) (st(temp_dir pid c \<mapsto> Map.empty), Copying 0) = (st(temp_dir pid c \<mapsto> files), Copying ?n)"
    "holds_files c ?n files" "\<forall>j < ?n. files (fst (snd (pc_files c ! j))) \<noteq> None"
    by auto
  let ?files = "files(MANIFEST \<mapsto> to_toml (manifest_of c))"
  have "?a (st(temp_dir pid c \<mapsto> files), Copying ?n) = (st(temp_dir pid c \<mapsto> ?files), Publish)"
    by (simp add: put_advance_def)
  moreover have "put_steps c = Suc 0 + (Suc 0 + (?n + 3))" by (simp add: put_steps_def)
  ultimately have "put to_toml pid c st = ?a (st(temp_dir pid c \<mapsto> ?files), Publish)"
    by (simp only: put_def funpow_add o_apply 1 f(1) funpow.simps id_apply)
  moreover have "files f = Some b" if "(r, f, b) \<in> set (pc_files c)" for r f b
    using f(2,3) that by (force simp: holds_files_nth in_set_conv_nth)
  ultimately show ?thesis using holds_entry_manifest[OF f(2) assms(1)] assms(1)
    by (intro exI[of _ ?files]) (auto simp: call_ok_def image_iff)
qed

lemma rename_dir_to_free:
  "st src = Some files \<Longrightarrow> st dst = None \<or> st dst = Some Map.empty \<Longrightarrow> rename_dir st src dst = Some (st(dst \<mapsto> files, src := None))"
  by (auto simp: rename_dir_def)

text \<open>What an undisturbed call leaves when its entry was free.\<close>

lemma put_into_free:
  assumes "call_ok c" "st (final_dir c) = None \<or> st (final_dir c) = Some Map.empty"
  shows "\<exists>files. put to_toml pid c st = (st(final_dir c \<mapsto> files, temp_dir pid c := None), Finished)
    \<and> files MANIFEST = Some (to_toml (manifest_of c)) \<and> (\<forall>(_, f, bytes) \<in> set (pc_files c). files f = Some bytes)"
proof -
  have "\<not> store_has st (pc_node c) (pc_signature c)"
    using assms(2) by (auto simp: store_has_def is_file_def final_dir_def)
  with assms(1) obtain files where f: "put to_toml pid c st = put_advance to_toml pid c (st(temp_dir pid c \<mapsto> files), Publish)"
    "files MANIFEST = Some (to_toml (manifest_of c))" "\<forall>(_, f, bytes) \<in> set (pc_files c). files f = Some bytes"
    using put_writes by blast
  have n: "final_dir c \<noteq> temp_dir pid c" using final_not_temp[OF assms(1)] by metis
  then have "rename_dir (st(temp_dir pid c \<mapsto> files)) (temp_dir pid c) (final_dir c)
      = Some (st(temp_dir pid c \<mapsto> files, final_dir c \<mapsto> files, temp_dir pid c := None))"
    using assms(2) by (intro rename_dir_to_free) auto
  with f(1) have "put to_toml pid c st = (st(final_dir c \<mapsto> files, temp_dir pid c := None), Finished)"
    using n by (simp add: put_advance_def fun_upd_twist)
  with f(2,3) show ?thesis by blast
qed

text \<open>A call whose entry holds a manifest stops at its first check.\<close>

lemma put_has:
  assumes "store_has st (pc_node c) (pc_signature c)"
  shows "put to_toml pid c st = (st, Finished)"
proof -
  have "put_steps c = Suc (4 + length (pc_files c))" by (simp add: put_steps_def)
  moreover have "put_advance to_toml pid c (st, CheckHas) = (st, Finished)"
    using assms by (simp add: put_advance_def)
  ultimately show ?thesis by (simp only: put_def funpow_Suc_right o_apply put_advance_done)
qed

lemma restore_complete_entry:
  assumes "st (final_dir c) = Some files" "files MANIFEST = Some (to_toml (manifest_of c))"
    and "\<forall>(_, f, bytes) \<in> set (pc_files c). files f = Some bytes" "of_toml (to_toml (manifest_of c)) = Some (manifest_of c)"
  shows "\<exists>r. restore of_toml st (pc_node c) (pc_signature c) dest = Some r \<and> restores_call c dest r"
proof -
  have h: "holds_entry to_toml c files" using assms(2,3) by (force simp: holds_entry_def holds_files_def)
  have p: "\<forall>a \<in> set (man_artifacts (manifest_of c)). files (sa_file a) \<noteq> None"
    using assms(3) by (force simp: manifest_of_def)
  have "man_signature (manifest_of c) = pc_signature c" by (simp add: manifest_of_def)
  with assms(1,2,4) p have "restore of_toml st (pc_node c) (pc_signature c) dest
      = Some (map (\<lambda>a. (sa_role a, sa_file a)) (man_artifacts (manifest_of c)), copy_into files (man_artifacts (manifest_of c)) dest)"
    unfolding restore_Some final_dir_def by blast
  with restores_call_entry[OF h p] show ?thesis by blast
qed



section \<open>The liveness sweep\<close>

definition prune :: "store \<Rightarrow> (string \<times> string) list \<Rightarrow> store" where
  "prune st dead = (\<lambda>d. if d \<in> set dead then None else st d)"

lemma dead_artifacts_mem:
  "d \<in> set (dead_artifacts (store_entries of_toml st listing) live) \<longleftrightarrow>
     d \<in> set listing \<and> \<not> starts_with ''.'' (snd d)
     \<and> (case entry_key of_toml st d of None \<Rightarrow> True | Some k \<Rightarrow> k \<notin> live)"
  by (force simp: dead_artifacts_def store_entries_def)

lemma entry_key_restore:
  "restore of_toml st node signature dest = Some r \<Longrightarrow> entry_key of_toml st (entry_dir node signature) \<noteq> None"
  by (auto simp: restore_Some entry_key_def entry_dir_def)

text \<open>C24. The sweep of \<open>clean --artifacts\<close> takes exactly the garbage: an entry whose recorded key
  some lock still asks for restores as before, every listed entry that stays has such a key or
  is a temporary directory, and an entry without a readable key, which is removed, restores nothing.\<close>

theorem prune_keeps_live:
  "(\<forall>node signature. (case entry_key of_toml st (entry_dir node signature) of None \<Rightarrow> False | Some k \<Rightarrow> k \<in> live) \<longrightarrow>
       restore of_toml (prune st (dead_artifacts (store_entries of_toml st listing) live)) node signature dest
         = restore of_toml st node signature dest)
   \<and> (\<forall>d \<in> set listing. prune st (dead_artifacts (store_entries of_toml st listing) live) d \<noteq> None \<longrightarrow>
       starts_with ''.'' (snd d) \<or> (\<exists>k \<in> live. entry_key of_toml st d = Some k))
   \<and> (\<forall>node signature. entry_key of_toml st (entry_dir node signature) = None \<longrightarrow>
       restore of_toml st node signature dest = None)"
proof (intro conjI allI ballI impI)
  fix node signature assume "case entry_key of_toml st (entry_dir node signature) of None \<Rightarrow> False | Some k \<Rightarrow> k \<in> live"
  then have "entry_dir node signature \<notin> set (dead_artifacts (store_entries of_toml st listing) live)"
    by (auto simp: dead_artifacts_mem split: option.splits)
  then show "restore of_toml (prune st (dead_artifacts (store_entries of_toml st listing) live)) node signature dest
      = restore of_toml st node signature dest"
    by (simp add: prune_def restore_def)
next
  fix d assume "d \<in> set listing" "prune st (dead_artifacts (store_entries of_toml st listing) live) d \<noteq> None"
  then show "starts_with ''.'' (snd d) \<or> (\<exists>k \<in> live. entry_key of_toml st d = Some k)"
    by (auto simp: prune_def dead_artifacts_mem split: if_splits option.splits)
next
  fix node signature assume "entry_key of_toml st (entry_dir node signature) = None"
  then show "restore of_toml st node signature dest = None" using entry_key_restore by fastforce
qed

text \<open>The selections of optional trees a lock's keys are computed for are all of them: every
  subsequence of the names, once per mask.\<close>

lemma enumerate_snoc: "enumerate 0 (xs @ [x]) = enumerate 0 xs @ [(length xs, x)]"
  by (simp add: enumerate_append_eq)

lemma mask_low: "i < n \<Longrightarrow> (2 ^ n + m) div 2 ^ i mod 2 = (m div 2 ^ i mod 2 :: nat)"
proof -
  assume "i < n"
  then have "(2 :: nat) ^ n = 2 ^ i * (2 * 2 ^ (n - i - 1))"
    by (simp flip: power_Suc power_add)
  then show ?thesis by (simp add: div_plus_div_distrib_dvd_left mod_mult_self1 flip: mult.assoc)
qed

lemma subsets_snoc: "subsets (xs @ [x]) = subsets xs @ map (\<lambda>s. s @ [x]) (subsets xs)"
proof -
  let ?n = "length xs"
  let ?sel = "\<lambda>es mask. map snd (filter (\<lambda>(i, _). mask div 2 ^ i mod 2 = (1 :: nat)) es)"
  have low: "?sel (enumerate 0 xs) (2 ^ ?n + m) = ?sel (enumerate 0 xs) m" for m
    by (intro arg_cong[where f = "map snd"] filter_cong) (auto simp: in_set_enumerate_eq mask_low)
  have top: "?sel (enumerate 0 (xs @ [x])) m = ?sel (enumerate 0 xs) m @ (if m div 2 ^ ?n mod 2 = 1 then [x] else [])" for m
    by (simp add: enumerate_snoc)
  have upt: "[0..<2 ^ Suc ?n] = [0..<2 ^ ?n] @ map (\<lambda>m. 2 ^ ?n + m) [0..<2 ^ ?n]"
    using upt_add_eq_append[of 0 "2 ^ ?n" "2 ^ ?n"] map_add_upt[of "2 ^ ?n" "2 ^ ?n"] by (simp add: mult_2 add.commute)
  have "map (?sel (enumerate 0 (xs @ [x]))) [0..<2 ^ ?n] = map (?sel (enumerate 0 xs)) [0..<2 ^ ?n]"
    unfolding top by (intro map_cong) simp_all
  moreover have "map (\<lambda>m. ?sel (enumerate 0 (xs @ [x])) (2 ^ ?n + m)) [0..<2 ^ ?n]
      = map (\<lambda>m. ?sel (enumerate 0 xs) m @ [x]) [0..<2 ^ ?n]"
    unfolding top low by (intro map_cong) (simp_all add: div_add1_eq)
  ultimately show ?thesis
    unfolding subsets_def length_append_singleton upt map_append map_map o_def by (simp only:)
qed

lemma subseq_snoc: "subseq ys (xs @ [x]) \<longleftrightarrow> subseq ys xs \<or> (\<exists>zs. ys = zs @ [x] \<and> subseq zs xs)"
proof -
  have "subseq us [x] \<longleftrightarrow> us = [] \<or> us = [x]" for us
    by (cases us) (auto split: if_splits elim: list_emb.cases)
  with subseq_append_iff[of ys xs "[x]"] show ?thesis
    by (metis append_Nil2)
qed

lemma subsets_spec: "set (subsets xs) = {ys. subseq ys xs} \<and> length (subsets xs) = 2 ^ length xs"
proof (induction xs rule: rev_induct)
  case Nil
  then show ?case by (auto simp: subsets_def elim: list_emb.cases)
next
  case (snoc x xs)
  then show ?case by (auto simp: subsets_snoc subseq_snoc)
qed

section \<open>Witnesses\<close>

text \<open>A printer and a reader of manifests to instantiate the parameters with: every string is
  preceded by its length in unary.\<close>

definition demo_str :: "string \<Rightarrow> string" where
  "demo_str s = replicate (length s) (CHR ''1'') @ CHR ''0'' # s"

definition demo_split :: "string \<Rightarrow> (string \<times> string) option" where
  "demo_split s = (let n = length (takeWhile (\<lambda>c. c = CHR ''1'') s); r = drop (Suc n) s in
     if n < length s then Some (take n r, drop n r) else None)"

definition demo_print :: "StoreManifest \<Rightarrow> string" where
  "demo_print m = demo_str (man_node m) @ demo_str (man_signature m)
     @ concat (map (\<lambda>a. demo_str (sa_role a) @ demo_str (sa_file a)) (man_artifacts m))"

fun demo_artifacts :: "nat \<Rightarrow> string \<Rightarrow> StoredArtifact list option" where
  "demo_artifacts n s =
     (if s = [] then Some [] else
      case n of 0 \<Rightarrow> None | Suc k \<Rightarrow>
       Option.bind (demo_split s) (\<lambda>(role, r). Option.bind (demo_split r) (\<lambda>(file, r').
         map_option (Cons \<lparr>sa_role = role, sa_file = file\<rparr>) (demo_artifacts k r'))))"

definition demo_read :: "string \<Rightarrow> StoreManifest option" where
  "demo_read s = Option.bind (demo_split s) (\<lambda>(node, r). Option.bind (demo_split r) (\<lambda>(signature, r').
     map_option (\<lambda>arts. \<lparr>man_node = node, man_signature = signature, man_artifacts = arts\<rparr>)
       (demo_artifacts (length r') r')))"

lemma demo_split_str [simp]: "demo_split (demo_str s @ r) = Some (s, r)"
proof -
  have "takeWhile (\<lambda>c. c = CHR ''1'') (replicate (length s) (CHR ''1'') @ CHR ''0'' # s @ r) = replicate (length s) (CHR ''1'')"
    by (subst takeWhile_append2) auto
  then show ?thesis by (simp add: demo_split_def demo_str_def)
qed

lemma demo_str_not_Nil [simp]: "demo_str s \<noteq> []"
  by (simp add: demo_str_def)

lemma demo_artifacts_print:
  "length arts \<le> n \<Longrightarrow> demo_artifacts n (concat (map (\<lambda>a. demo_str (sa_role a) @ demo_str (sa_file a)) arts)) = Some arts"
proof (induction arts arbitrary: n)
  case (Cons a arts)
  then obtain k where "n = Suc k" "length arts \<le> k" by (cases n) auto
  with Cons.IH[of k] show ?case by (simp del: demo_artifacts.simps) (subst demo_artifacts.simps, simp)
qed simp

lemma demo_read_print: "\<forall>m. demo_read (demo_print m) = Some m"
proof
  fix m :: StoreManifest
  let ?r = "concat (map (\<lambda>a. demo_str (sa_role a) @ demo_str (sa_file a)) (man_artifacts m))"
  have "length arts \<le> length (concat (map (\<lambda>a. demo_str (sa_role a) @ demo_str (sa_file a)) arts))" for arts
    by (induction arts) (auto simp: demo_str_def)
  then have "demo_artifacts (length ?r) ?r = Some (man_artifacts m)" by (rule demo_artifacts_print)
  then show "demo_read (demo_print m) = Some m"
    by (simp add: demo_read_def demo_print_def del: demo_artifacts.simps)
qed

definition demo_call :: put_call where
  "demo_call = \<lparr>pc_node = ''userspace:mpp'', pc_signature = ''c0ffee'', pc_files = [(''deb'', ''mpp.deb'', ''bytes'')]\<rparr>"

lemma demo_call_ok: "call_ok demo_call"
  by (simp add: call_ok_def demo_call_def starts_with_def)

text \<open>One build running its call alone is a run of the shared store.\<close>

lemma reachable_advance:
  assumes "store_reachable to_toml w" "w_procs w pid = Some \<lparr>pp_call = c, pp_pc = pc\<rparr>"
  shows "\<exists>w' pc'. store_reachable to_toml w' \<and> (w_store w', pc') = (put_advance to_toml pid c ^^ n) (w_store w, pc)
    \<and> w_procs w' pid = Some \<lparr>pp_call = c, pp_pc = pc'\<rparr>"
proof (induction n)
  case 0
  from assms show ?case by auto
next
  case (Suc n)
  then obtain w' pc' where w: "store_reachable to_toml w'" "(w_store w', pc') = (put_advance to_toml pid c ^^ n) (w_store w, pc)"
    "w_procs w' pid = Some \<lparr>pp_call = c, pp_pc = pc'\<rparr>" by blast
  obtain st pc2 where a: "put_advance to_toml pid c (w_store w', pc') = (st, pc2)" by (cases "put_advance to_toml pid c (w_store w', pc')")
  let ?w = "w'\<lparr>w_store := st, w_procs := (w_procs w')(pid \<mapsto> \<lparr>pp_call = c, pp_pc = pc'\<rparr>\<lparr>pp_pc := pc2\<rparr>)\<rparr>"
  have "store_step to_toml w' ?w" by (rule store_step.advance[OF w(3)]) (simp add: a)
  with w(1) have "store_reachable to_toml ?w" by (rule store_reachable.more)
  moreover have "(w_store ?w, pc2) = (put_advance to_toml pid c ^^ Suc n) (w_store w, pc)"
    by (simp add: a flip: w(2))
  ultimately show ?case by (intro exI[of _ ?w] exI[of _ pc2]) simp
qed

lemma reachable_put:
  assumes "call_ok c"
  shows "\<exists>w. store_reachable to_toml w \<and> w_store w = fst (put to_toml pid c Map.empty)"
proof -
  let ?w = "empty_world\<lparr>w_procs := (w_procs empty_world)(pid \<mapsto> \<lparr>pp_call = c, pp_pc = CheckHas\<rparr>),
      w_log := insert c (w_log empty_world)\<rparr>"
  have w: "store_reachable to_toml ?w"
    by (rule store_reachable.more[OF store_reachable.start store_step.begin_put]) (simp_all add: empty_world_def assms)
  have p: "w_procs ?w pid = Some \<lparr>pp_call = c, pp_pc = CheckHas\<rparr>" by simp
  have "w_store ?w = Map.empty" by (simp add: empty_world_def)
  with reachable_advance[OF w p, of "put_steps c"] show ?thesis
    unfolding put_def by (metis fst_conv)
qed

lemma demo_restores:
  "\<exists>w r. store_reachable demo_print w \<and> restore demo_read (w_store w) ''userspace:mpp'' ''c0ffee'' Map.empty = Some r"
proof -
  obtain w where w: "store_reachable demo_print w" "w_store w = fst (put demo_print 7 demo_call Map.empty)"
    using reachable_put[OF demo_call_ok] by blast
  obtain files where f: "put demo_print 7 demo_call Map.empty = (Map.empty(final_dir demo_call \<mapsto> files, temp_dir 7 demo_call := None), Finished)"
    "files MANIFEST = Some (demo_print (manifest_of demo_call))" "\<forall>(_, f, bytes) \<in> set (pc_files demo_call). files f = Some bytes"
    using put_into_free[OF demo_call_ok, of Map.empty demo_print 7] by auto
  have "w_store w (final_dir demo_call) = Some files"
    using w(2) f(1) final_not_temp[OF demo_call_ok, of 7 demo_call] by simp
  from restore_complete_entry[where st = "w_store w" and of_toml = demo_read and dest = Map.empty and to_toml = demo_print and c = demo_call and files = files,
      OF this f(2,3) spec[OF demo_read_print]]
  have "\<exists>r. restore demo_read (w_store w) ''userspace:mpp'' ''c0ffee'' Map.empty = Some r"
    by (auto simp: demo_call_def)
  with w(1) show ?thesis by blast
qed

theorem restore_is_one_put_witness:
  "\<exists>w r c. store_reachable demo_print w \<and> c \<in> w_log w \<and> restores_call c Map.empty r
     \<and> restore demo_read (w_store w) ''userspace:mpp'' ''c0ffee'' Map.empty = Some r"
proof -
  obtain w r where w: "store_reachable demo_print w" "restore demo_read (w_store w) ''userspace:mpp'' ''c0ffee'' Map.empty = Some r"
    using demo_restores by blast
  have "\<not> starts_with ''.'' ''c0ffee''" by (simp add: starts_with_def)
  from restore_is_one_put[OF w(1) demo_read_print this w(2)] w show ?thesis by blast
qed



theorem prune_keeps_live_witness:
  "restore demo_read (prune (Map.empty(final_dir demo_call \<mapsto> [MANIFEST \<mapsto> demo_print (manifest_of demo_call), ''mpp.deb'' \<mapsto> ''bytes'']))
       (dead_artifacts (store_entries demo_read (Map.empty(final_dir demo_call \<mapsto> [MANIFEST \<mapsto> demo_print (manifest_of demo_call), ''mpp.deb'' \<mapsto> ''bytes'']))
         [final_dir demo_call]) {\<lparr>sk_node = ''userspace:mpp'', sk_signature = ''c0ffee''\<rparr>})) ''userspace:mpp'' ''c0ffee'' Map.empty \<noteq> None"
proof -
  let ?files = "[MANIFEST \<mapsto> demo_print (manifest_of demo_call), ''mpp.deb'' \<mapsto> ''bytes'']"
  let ?st = "Map.empty(final_dir demo_call \<mapsto> ?files)" and ?live = "{\<lparr>sk_node = ''userspace:mpp'', sk_signature = ''c0ffee''\<rparr>}"
  have e: "entry_dir ''userspace:mpp'' ''c0ffee'' = final_dir demo_call" by (simp add: final_dir_def demo_call_def)
  have "entry_key demo_read ?st (final_dir demo_call) = Some \<lparr>sk_node = ''userspace:mpp'', sk_signature = ''c0ffee''\<rparr>"
    using demo_read_print by (simp add: entry_key_def) (simp add: manifest_of_def final_dir_def entry_dir_def demo_call_def)
  then have "restore demo_read (prune ?st (dead_artifacts (store_entries demo_read ?st [final_dir demo_call]) ?live)) ''userspace:mpp'' ''c0ffee'' Map.empty
      = restore demo_read ?st ''userspace:mpp'' ''c0ffee'' Map.empty"
    using prune_keeps_live[where of_toml = demo_read and st = ?st and live = ?live and listing = "[final_dir demo_call]" and dest = Map.empty] e by simp
  moreover have "\<exists>r. restore demo_read ?st (pc_node demo_call) (pc_signature demo_call) Map.empty = Some r \<and> restores_call demo_call Map.empty r"
    by (rule restore_complete_entry[where to_toml = demo_print and files = ?files])
      (simp_all add: demo_read_print, simp add: demo_call_def)
  ultimately show ?thesis by (auto simp: demo_call_def)
qed

end
