(* ===== verification/Spec2Isabelle.thy ===== *)
theory Spec2Isabelle
  imports Prelude Strings Debdep Version Series Size Chromeos Geometry Paths Field_Checks Boards Base64 Authkeys Layers
    Expect Datavolume Model Loader Buildpoint Features Distro Boot Apps Kernels Resolve Resolution
    Signature Artstore
begin

text \<open>
  \<^bold>\<open>A verification library for boot2deb.\<close>

  boot2deb builds bootable Debian images for single-board computers. The workspace has three
  crates. \<open>crates/core\<close> is the pure half: it reads the layers of a configuration tree (boards,
  systems on chip, boot methods, kernels, distributions, features, recipes), merges them and
  resolves a device or a recipe to one build. \<open>crates/engine\<close> carries a resolved build out:
  it fetches, compiles, provisions and assembles, and caches what it produced under signatures
  of the inputs. \<open>crates/cli\<close> is the command line over both. This library models the core's
  path from configuration to resolved build, and of the engine the image layout, the
  signatures and the artifact store with the sweep that prunes it.

  \<^bold>\<open>How the parts interact.\<close> \<open>Loader\<close> finds a layer along the search path, merges its overlays
  and walks the \<open>extends\<close> chain of a device. \<open>Resolve\<close> takes the loaded layers as a record of
  lookups and composes every check and merge of the other theories: \<open>resolve_device\<close> picks and
  checks the axes (\<open>Boot\<close>, \<open>Kernels\<close>, \<open>Distro\<close>, \<open>Features\<close>), unions packages, sources,
  modules and applications (\<open>Layers\<close>, \<open>Apps\<close>), validates the account and localization, and
  collects the runtime checks (\<open>Expect\<close>); \<open>resolve_recipe\<close> lays a recipe and the command
  line over a device (\<open>Buildpoint\<close>) and adds the recipe's own keys (\<open>Datavolume\<close>). The
  boot half of the result is what \<open>Geometry\<close> lays out. A stage folds its inputs into a
  signature (\<open>Signature\<close>) and restores from, or puts into, the store (\<open>Artstore\<close>).

  \<^bold>\<open>Which theory models which source\<close> (paths under \<open>src/crates\<close>):

    \<^item> \<open>Prelude\<close>, \<open>Strings\<close>, \<open>Paths\<close>: what the code uses of Rust's standard library
      (\<open>Result\<close>, checked arithmetic, \<open>Ordering\<close> and sorting, \<open>str\<close>, \<open>std::path\<close>), and the
      interfaces the components share as locales (a comparator, a codec, a guard on paths and
      on names, a first-wins union), each interpreted on the code's own definitions.
    \<^item> \<open>Debdep\<close>: \<open>core/src/debdep.rs\<close>. \<open>Version\<close>: \<open>version.rs\<close>. \<open>Series\<close>: \<open>series.rs\<close>.
      \<open>Size\<close>: \<open>size.rs\<close>. \<open>Base64\<close>: \<open>base64.rs\<close>. \<open>Authkeys\<close>: \<open>authkeys.rs\<close>.
      \<open>Chromeos\<close>: \<open>chromeos.rs\<close>. \<open>Datavolume\<close>: \<open>datavolume.rs\<close>. \<open>Expect\<close>: \<open>expect.rs\<close>.
      \<open>Buildpoint\<close>: \<open>buildpoint.rs\<close>. \<open>Features\<close>: \<open>feature.rs\<close>. \<open>Distro\<close>: \<open>distro.rs\<close> and the
      distribution scan of \<open>loader.rs\<close>. \<open>Loader\<close>: \<open>loader.rs\<close>.
    \<^item> \<open>Model\<close>: the configuration records of \<open>model.rs\<close>, \<open>feature.rs\<close>, \<open>distro.rs\<close>, field by
      field, with the source's names under a short prefix per record.
    \<^item> \<open>Field_Checks\<close>, \<open>Boards\<close>, \<open>Layers\<close>, \<open>Boot\<close>, \<open>Apps\<close>, \<open>Kernels\<close>, \<open>Resolve\<close>: the functions
      of \<open>resolve.rs\<close>, by what they are about; long functions are cut into the phases the code
      has, each a definition, composed in the code's order. \<open>Field_Checks\<close> also has \<open>hostname.rs\<close>.
    \<^item> \<open>Geometry\<close>: \<open>engine/src/image/geometry.rs\<close>.
    \<^item> \<open>Signature\<close>: \<open>engine/src/signature.rs\<close> and the key of \<open>engine/src/rootcache.rs\<close>.
    \<^item> \<open>Artstore\<close>: \<open>engine/src/artstore.rs\<close>, the restore of a stage in
      \<open>engine/src/build/mod.rs\<close> and the artifact sweep of \<open>cli/src/commands/clean.rs\<close>.

  \<^bold>\<open>What the lemmas show.\<close> Each component theory proves what its operations promise, on every
  branch: the \<open>_Inr\<close> lemmas characterize exactly when a validation or a merge succeeds and
  with what result, and carry the properties. \<open>Resolution\<close> lifts them through the composition:
  what holds of every resolved device or recipe. The kinds of property are: refusals that keep
  a value inside a directory, a shell word or a line; round trips of printers and readers;
  unions that equal a reference definition; orders that are total preorders; arithmetic that
  neither overflows nor overlaps; a walk that ends; a store whose hits are right in every
  interleaving and whose undisturbed writes complete.

  \<^bold>\<open>Parameters and bounds.\<close> Code outside the repository is a parameter of the definitions that
  use it, with its documented behaviour as a hypothesis where a property needs it: version
  parsing and comparison of the \<open>semver\<close> crate (\<open>semver_lib\<close> in \<open>Series\<close>), the largest share
  of the file-system formatter (\<open>MAX_SHARE\<close> in \<open>Geometry\<close>), SHA-256 (\<open>sha\<close> in \<open>Signature\<close>,
  assumed not to collide on the two streams compared) and the TOML printer and reader
  (\<open>to_toml\<close>, \<open>of_toml\<close> in \<open>Artstore\<close>, assumed to read back what was printed). Every such
  property has a witness with concrete functions in their place. Text is a list of bytes, its
  character classes ASCII. Sizes and offsets are naturals with the code's \<open>checked_add\<close> and
  \<open>checked_mul\<close> at 64 bits; patch prefixes wrap at 32 bits and the ends of version envelopes
  at 64 bits, as the code's release arithmetic does; partition attributes are 64-bit words. The \<open>extends\<close> walk is a
  \<open>partial_function\<close> on \<open>option\<close>, so that not ending is a value: that it ends is proved, from
  the cycle check and the finiteness of the configuration tree, without fuel. A \<open>put\<close> is
  iterated \<open>put_steps\<close> times, one per system call it makes: the check, the removal and the
  creation of the temporary directory, one copy per file, the manifest, the rename.

  \<^bold>\<open>The configuration tree.\<close> In \<open>Loader\<close> a search path is a list of roots, each a function from
  paths to parsed TOML documents; in \<open>Resolve\<close> the tree is the record \<open>config\<close> of the lookups
  resolution makes, each of which may fail with the loader's error. Reading files, the TOML
  grammar and \<open>serde\<close>'s mapping of a document to a record are outside the model.

  \<^bold>\<open>What modelling showed.\<close> \<open>debdep\<close> keeps packages that dpkg calls half installed; a data volume's
  mount point may hold the separators of the file it is rendered into; two build points may
  share an artifact name; the name of a userspace tree is never checked; and an entry of the
  artifact store that was damaged is never repaired, while its presence is reported as a hit.

  \<^bold>\<open>Not modelled.\<close> The compile, root file system, sandbox, image-writing and pressing stages run
  external programs and libraries (git, make, apt, a Debian provisioner, ext4, GPT, FAT and
  compression libraries) and observe the file system; what is theirs alone is not code one can
  translate. Locks, provenance, bills of materials and comparisons are records serialized
  through \<open>serde\<close> and reports over them. Seed values, kernel configuration parsing, package
  rules, patch normalization and NuGet pins are self-contained leaves that this library does
  not cover. The store of root file systems and the store of downloaded packages follow
  the artifact store's discipline and are not modelled beyond their key. Error messages are
  constructors, not texts.
\<close>

end
